(* ===== verification/Prelude.thy ===== *)
theory Prelude
  imports Complex_Main "HOL-Library.Word" "HOL-Library.Signed_Division" "HOL-Library.Log_Nat"
begin

text \<open>
  Shared vocabulary of the development: the machine integer types of the C code, bytes and
  byte order, C's number formatting, bounded string writes, and the generic facts about
  them that the component theories use.  The target is the one the README names: Linux on
  x86-64, so \<open>int\<close> has 32 bits, \<open>long\<close> 64 bits, and the host is little-endian.
\<close>

unbundle bit_operations_syntax

named_theorems byte_simps "byte and word conversions"
named_theorems fmt_simps "C number formatting"

subsection \<open>Machine integers\<close>

type_synonym u8 = "8 word"
type_synonym u16 = "16 word"
type_synonym u32 = "32 word"
type_synonym u64 = "64 word"

text \<open>
  Unsigned C integers are words (arithmetic wraps).  Signed C integers are \<open>int\<close>: signed
  overflow is undefined in C, so a theorem about a signed variable is about executions in
  which the code does not overflow; where the code converts or truncates a value to a
  narrower type the conversion is written out with the functions below.
\<close>

definition int_max :: int where "int_max = 2147483647"
definition uint_max :: int where "uint_max = 4294967295"
definition long_max :: int where "long_max = 9223372036854775807"

text \<open>The conversions \<open>(int)x\<close>, \<open>(uint16_t)x\<close>, \<open>(int16_t)x\<close> of a 64-bit value.\<close>

definition to_int32 :: "int \<Rightarrow> int" where
  "to_int32 x = sint (word_of_int x :: u32)"

definition to_u16 :: "int \<Rightarrow> u16" where
  "to_u16 x = word_of_int x"

definition to_int16 :: "int \<Rightarrow> int" where
  "to_int16 x = sint (word_of_int x :: u16)"

lemma to_int32_id [simp]: "- (2 ^ 31) \<le> x \<Longrightarrow> x < 2 ^ 31 \<Longrightarrow> to_int32 x = x"
  unfolding to_int32_def by (simp add: signed_of_int signed_take_bit_int_eq_self)

lemma to_int16_id [simp]: "- 32768 \<le> x \<Longrightarrow> x < 32768 \<Longrightarrow> to_int16 x = x"
  unfolding to_int16_def by (simp add: signed_of_int signed_take_bit_int_eq_self)

lemma to_int32_range: "- (2 ^ 31) \<le> to_int32 x \<and> to_int32 x < 2 ^ 31"
  unfolding to_int32_def
  using sint_ge [of "word_of_int x :: u32"] sint_lt [of "word_of_int x :: u32"] by simp

lemma to_int16_range: "- 32768 \<le> to_int16 x \<and> to_int16 x < 32768"
  unfolding to_int16_def
  using sint_ge [of "word_of_int x :: u16"] sint_lt [of "word_of_int x :: u16"] by simp

lemma uint_to_u16: "uint (to_u16 x) = x mod 65536"
  by (simp add: to_u16_def uint_word_of_int)

lemma u16_bounds: "0 \<le> uint (w :: u16)" "uint w < 65536"
  using uint_lt2p [of w] by simp_all

lemma unat_u16_less: "unat (w :: u16) < 65536"
  using unsigned_less [of w] by simp

lemma u8_bounds: "0 \<le> uint (w :: u8)" "uint w < 256"
  using uint_lt2p [of w] by simp_all

lemma uint_not_u16: "uint (NOT w :: u16) = 65535 - uint w"
  by (simp add: unsigned_not_eq take_bit_not_eq_mask_diff mask_eq_exp_minus_1 take_bit_int_eq_self u16_bounds)

lemma word_of_int_mod_u16: "(word_of_int (x mod 65536) :: u16) = word_of_int x"
  by (rule word_uint_eqI) (simp add: uint_word_of_int)

lemma and_mask_eq_take_bit_int: "(x :: int) AND 0xffff = x mod 65536"
  using take_bit_eq_mask [of 16 x] by (simp add: mask_eq_exp_minus_1 take_bit_eq_mod)

text \<open>Congruences used where numbers are reduced modulo a constant.\<close>

lemma mod_complement_eq_0:
  fixes r s m :: int
  assumes "r mod m = s mod m"
  shows "(s + m - r) mod m = 0"
proof -
  have "m dvd s - r" using assms by (metis mod_eq_dvd_iff)
  then have "m dvd s - r + m" by simp
  then show ?thesis by (simp add: algebra_simps)
qed

lemma mod_minus_once:
  fixes a m :: int
  assumes "m \<le> a" "a < 2 * m"
  shows "a mod m = a - m"
proof -
  have "a mod m = (a - m) mod m" by simp
  also have "\<dots> = a - m" using assms by (intro mod_pos_pos_trivial) simp_all
  finally show ?thesis .
qed

lemma mod_diff_eq_0:
  fixes a b m :: int
  assumes "a mod m = 0" "b mod m = 0"
  shows "(a - b) mod m = 0"
  using assms by (simp add: dvd_eq_mod_eq_0 [symmetric])

subsection \<open>Bytes\<close>

text \<open>A little-endian load of two bytes, and the bytes of a 16-bit and a 32-bit value.\<close>

definition le16 :: "u8 \<Rightarrow> u8 \<Rightarrow> u16" where
  "le16 a b = ucast a OR push_bit 8 (ucast b)"

definition le16_bytes :: "u16 \<Rightarrow> u8 list" where
  "le16_bytes w = [ucast w, ucast (drop_bit 8 w)]"

definition be16_bytes :: "u16 \<Rightarrow> u8 list" where
  "be16_bytes w = [ucast (drop_bit 8 w), ucast w]"

definition be16 :: "u8 \<Rightarrow> u8 \<Rightarrow> u16" where
  "be16 a b = push_bit 8 (ucast a) OR ucast b"

definition le32_bytes :: "u32 \<Rightarrow> u8 list" where
  "le32_bytes w = [ucast w, ucast (drop_bit 8 w), ucast (drop_bit 16 w), ucast (drop_bit 24 w)]"

definition le32 :: "u8 \<Rightarrow> u8 \<Rightarrow> u8 \<Rightarrow> u8 \<Rightarrow> u32" where
  "le32 a b c d = ucast a OR push_bit 8 (ucast b) OR push_bit 16 (ucast c) OR push_bit 24 (ucast d)"

definition le64_bytes :: "u64 \<Rightarrow> u8 list" where
  "le64_bytes w = map (\<lambda>i. ucast (drop_bit (8 * i) w)) [0..<8]"

definition le64 :: "u8 list \<Rightarrow> u64" where
  "le64 bs = foldr (\<lambda>b w. push_bit 8 w OR ucast b) bs 0"

text \<open>Storing \<open>htonl (w)\<close> in memory writes the big-endian bytes of \<open>w\<close>; \<open>ntohl\<close> of a load reads them.\<close>

definition be32_bytes :: "u32 \<Rightarrow> u8 list" where
  "be32_bytes w = rev (le32_bytes w)"

definition be32 :: "u8 list \<Rightarrow> u32" where
  "be32 bs = le32 (bs ! 3) (bs ! 2) (bs ! 1) (bs ! 0)"

text \<open>\<open>htons\<close> and \<open>ntohs\<close> on the little-endian host swap the two bytes, \<open>htonl\<close> reverses the four.\<close>

definition htons :: "u16 \<Rightarrow> u16" where
  "htons w = push_bit 8 w OR drop_bit 8 w"

definition htonl :: "u32 \<Rightarrow> u32" where
  "htonl w = be32 (le32_bytes w)"

definition ntohs :: "u16 \<Rightarrow> u16" where
  "ntohs w = push_bit 8 w OR drop_bit 8 w"

lemma length_le16_bytes [simp]: "length (le16_bytes w) = 2"
  by (simp add: le16_bytes_def)

lemma length_le32_bytes [simp]: "length (le32_bytes w) = 4"
  by (simp add: le32_bytes_def)

lemma length_le64_bytes [simp]: "length (le64_bytes w) = 8"
  by (simp add: le64_bytes_def)

lemma uint_le16 [byte_simps]: "uint (le16 a b) = uint a + 256 * uint b"
  unfolding le16_def
  apply transfer
  apply (simp add: take_bit_push_bit)
  apply (subst disjunctive_add [symmetric])
  subgoal by (auto simp: bit_simps)
  subgoal by (simp add: push_bit_eq_mult take_bit_eq_mod)
  done

lemma uint_be16 [byte_simps]: "uint (be16 a b) = 256 * uint a + uint b"
  using uint_le16 [of b a] by (simp add: be16_def le16_def or.commute)

lemma le16_le16_bytes [simp]: "le16 (ucast w) (ucast (drop_bit 8 w)) = w"
  unfolding le16_def by (rule bit_word_eqI) (auto simp: bit_simps)

lemma be16_be16_bytes [simp]: "be16 (ucast (drop_bit 8 w)) (ucast w) = w"
  unfolding be16_def by (rule bit_word_eqI) (auto simp: bit_simps)

lemma le32_le32_bytes [simp]:
  "le32 (ucast w) (ucast (drop_bit 8 w)) (ucast (drop_bit 16 w)) (ucast (drop_bit 24 w)) = w"
proof (rule bit_word_eqI)
  fix n :: nat
  assume n: "n < LENGTH(32)"
  consider "n < 8" | "8 \<le> n \<and> n < 16" | "16 \<le> n \<and> n < 24" | "24 \<le> n" by linarith
  then show "bit (le32 (ucast w) (ucast (drop_bit 8 w)) (ucast (drop_bit 16 w))
      (ucast (drop_bit 24 w))) n = bit w n"
    using n by cases (auto simp: le32_def bit_simps)
qed

lemma length_be32_bytes [simp]: "length (be32_bytes w) = 4"
  by (simp add: be32_bytes_def)

lemma be32_be32_bytes [simp]: "be32 (be32_bytes w @ bs) = w" "be32 (be32_bytes w) = w"
  by (simp_all add: be32_def be32_bytes_def le32_bytes_def numeral_2_eq_2 numeral_3_eq_3)

lemma bit_le64:
  "length bs \<le> 8 \<Longrightarrow> bit (le64 bs) n \<longleftrightarrow> n < 8 * length bs \<and> bit (bs ! (n div 8)) (n mod 8)"
proof (induction bs arbitrary: n)
  case (Cons b bs)
  have le: "le64 (b # bs) = push_bit 8 (le64 bs) OR ucast b" by (simp add: le64_def)
  show ?case
  proof (cases "n < 8")
    case True
    then show ?thesis by (simp add: le bit_simps)
  next
    case False
    then have n: "n div 8 = Suc ((n - 8) div 8)" "n mod 8 = (n - 8) mod 8"
      by (simp_all add: le_div_geq le_mod_geq)
    have "\<not> bit b n" using False bit_imp_le_length [of b n] by auto
    then have "bit (le64 (b # bs)) n \<longleftrightarrow> n < 64 \<and> bit (le64 bs) (n - 8)"
      using False by (auto simp: le bit_simps)
    also have "\<dots> \<longleftrightarrow> n < 8 * length (b # bs) \<and> bit ((b # bs) ! (n div 8)) (n mod 8)"
    proof -
      have "n - 8 < 8 * length bs \<longleftrightarrow> n < 8 * length (b # bs)" using False by auto
      moreover have "n < 8 * length (b # bs) \<Longrightarrow> n < 64" using Cons.prems by simp
      ultimately show ?thesis using Cons.IH [of "n - 8"] Cons.prems n by (metis (no_types) Suc_leD length_Cons nth_Cons_Suc)
    qed
    finally show ?thesis .
  qed
qed (simp add: le64_def)

lemma le64_le64_bytes [simp]: "le64 (le64_bytes w) = w"
proof (rule bit_word_eqI)
  fix n :: nat
  assume n: "n < LENGTH(64)"
  then have i: "n div 8 < 8" by simp
  then have "le64_bytes w ! (n div 8) = ucast (drop_bit (8 * (n div 8)) w)"
    by (simp add: le64_bytes_def)
  moreover have "8 * (n div 8) + n mod 8 = n" by simp
  ultimately show "bit (le64 (le64_bytes w)) n = bit w n"
    using n by (simp add: bit_le64 bit_simps)
qed

lemma ntohs_htons [simp]: "ntohs (htons w) = w"
  unfolding ntohs_def htons_def by (rule bit_word_eqI) (auto simp: bit_simps)

lemma htons_ntohs [simp]: "htons (ntohs w) = w"
  unfolding ntohs_def htons_def by (rule bit_word_eqI) (auto simp: bit_simps)

lemma htons_inject [simp]: "htons v = htons w \<longleftrightarrow> v = w"
  by (metis ntohs_htons)

text \<open>Storing \<open>htons (w)\<close> in memory writes the big-endian bytes of \<open>w\<close>.\<close>

lemma le16_bytes_htons [byte_simps]: "le16_bytes (htons w) = be16_bytes w"
proof -
  have "ucast (htons w) = (ucast (drop_bit 8 w) :: u8)"
    unfolding htons_def by (rule bit_word_eqI) (auto simp: bit_simps)
  moreover have "ucast (drop_bit 8 (htons w)) = (ucast w :: u8)"
    unfolding htons_def by (rule bit_word_eqI) (auto simp: bit_simps)
  ultimately show ?thesis by (simp add: le16_bytes_def be16_bytes_def)
qed

subsection \<open>Lists: reads, writes, splits\<close>

text \<open>
  \<open>memcpy (buf + off, src, length src)\<close> on a buffer, as the code uses it when the write
  stays inside the buffer.
\<close>

definition splice :: "nat \<Rightarrow> 'a list \<Rightarrow> 'a list \<Rightarrow> 'a list" where
  "splice off src buf = take off buf @ src @ drop (off + length src) buf"

lemma length_splice [simp]:
  "off + length src \<le> length buf \<Longrightarrow> length (splice off src buf) = length buf"
  by (simp add: splice_def)

lemma take_splice [simp]: "off \<le> length buf \<Longrightarrow> take off (splice off src buf) = take off buf"
  by (simp add: splice_def)

lemma splice_read [simp]:
  "off \<le> length buf \<Longrightarrow> take (length src) (drop off (splice off src buf)) = src"
  by (simp add: splice_def)

lemma splice_split:
  "off + length src \<le> length buf \<Longrightarrow>
   buf = take off buf @ take (length src) (drop off buf) @ drop (off + length src) buf"
  by (metis append_take_drop_id drop_drop add.commute)

subsection \<open>C's number formatting\<close>

text \<open>
  \<open>%d\<close>, \<open>%u\<close>, \<open>%ld\<close>, \<open>%lu\<close> print decimal digits without padding; \<open>%03ld\<close> pads with
  zeros (the sign counts in the width); \<open>%02x\<close> and \<open>%04x\<close> print hexadecimal digits.
\<close>

definition digit_char :: "nat \<Rightarrow> char" where
  "digit_char d = (if d < 10 then char_of (48 + d) else char_of (87 + d))"

fun nat_digits :: "nat \<Rightarrow> nat \<Rightarrow> string" where
  "nat_digits b n = (if n < b \<or> b < 2 then [digit_char n] else nat_digits b (n div b) @ [digit_char (n mod b)])"

declare nat_digits.simps [simp del]

definition fmt_d :: "int \<Rightarrow> string" where
  "fmt_d i = (if i < 0 then CHR ''-'' # nat_digits 10 (nat (- i)) else nat_digits 10 (nat i))"

definition fmt_x :: "nat \<Rightarrow> string" where
  "fmt_x n = nat_digits 16 n"

definition pad_left :: "char \<Rightarrow> nat \<Rightarrow> string \<Rightarrow> string" where
  "pad_left c n s = replicate (n - length s) c @ s"

definition pad_right :: "nat \<Rightarrow> string \<Rightarrow> string" where
  "pad_right n s = s @ replicate (n - length s) (CHR '' '')"

definition fmt_0d :: "nat \<Rightarrow> int \<Rightarrow> string" where
  "fmt_0d n i = (if i < 0 then CHR ''-'' # pad_left (CHR ''0'') (n - 1) (nat_digits 10 (nat (- i)))
                 else pad_left (CHR ''0'') n (nat_digits 10 (nat i)))"

definition fmt_0x :: "nat \<Rightarrow> nat \<Rightarrow> string" where
  "fmt_0x n v = pad_left (CHR ''0'') n (fmt_x v)"

text \<open>Reading a decimal numeral back: the inverse the formatting lemmas are stated with.\<close>

definition digit_val :: "char \<Rightarrow> nat" where
  "digit_val c = of_char c - 48"

definition read_dec :: "string \<Rightarrow> nat" where
  "read_dec s = foldl (\<lambda>acc c. 10 * acc + digit_val c) 0 s"

lemma read_dec_snoc [simp]: "read_dec (s @ [c]) = 10 * read_dec s + digit_val c"
  by (simp add: read_dec_def)

lemma read_dec_Nil [simp]: "read_dec [] = 0"
  by (simp add: read_dec_def)

lemma digit_val_digit_char [simp]: "d < 10 \<Longrightarrow> digit_val (digit_char d) = d"
  by (simp add: digit_val_def digit_char_def)

lemma read_dec_nat_digits [fmt_simps]: "read_dec (nat_digits 10 n) = n"
proof (induction "10::nat" n rule: nat_digits.induct)
  case (1 n)
  show ?case
  proof (cases "n < 10")
    case True
    then show ?thesis
      by (subst nat_digits.simps) (simp add: read_dec_def)
  next
    case False
    with 1 have "read_dec (nat_digits 10 (n div 10)) = n div 10" by simp
    with False show ?thesis by (subst nat_digits.simps) simp
  qed
qed

lemma nat_digits_inject [fmt_simps]: "nat_digits 10 m = nat_digits 10 n \<longleftrightarrow> m = n"
  by (metis read_dec_nat_digits)

lemma read_dec_replicate_zero [simp]: "read_dec (replicate k (CHR ''0'') @ s) = read_dec s"
proof (induction k)
  case (Suc k)
  have "foldl (\<lambda>acc c. 10 * acc + digit_val c) 0 (CHR ''0'' # t) =
      foldl (\<lambda>acc c. 10 * acc + digit_val c) 0 t" for t
    by (simp add: digit_val_def)
  with Suc show ?case by (simp add: read_dec_def)
qed simp

lemma read_dec_fmt_0d [fmt_simps]: "0 \<le> i \<Longrightarrow> read_dec (fmt_0d n i) = nat i"
  by (simp add: fmt_0d_def pad_left_def read_dec_nat_digits)

lemma length_nat_digits_le: "n < 10 ^ Suc k \<Longrightarrow> length (nat_digits 10 n) \<le> Suc k"
proof (induction k arbitrary: n)
  case 0
  then show ?case by (subst nat_digits.simps) simp
next
  case (Suc k)
  have "n div 10 < 10 ^ Suc k" using Suc.prems by (simp add: less_mult_imp_div_less mult.commute)
  then have "length (nat_digits 10 (n div 10)) \<le> Suc k" by (rule Suc.IH)
  then show ?case by (subst nat_digits.simps) simp
qed

subsection \<open>Bounded string writes\<close>

text \<open>
  \<open>snprintf (buf, n, ...)\<close> with the formatted text \<open>s\<close>: the string that is in the buffer
  afterwards (for \<open>0 < n\<close>) and the returned length, which is that of \<open>s\<close>, cut or not.
\<close>

definition snprintf_text :: "nat \<Rightarrow> string \<Rightarrow> string" where
  "snprintf_text n s = take (n - 1) s"

lemma length_snprintf_text: "0 < n \<Longrightarrow> length (snprintf_text n s) < n"
  by (simp add: snprintf_text_def)

lemma snprintf_text_fits [simp]: "length s < n \<Longrightarrow> snprintf_text n s = s"
  by (simp add: snprintf_text_def)

end
