(* ===== verification/Checksum.thy ===== *)
theory Checksum
  imports Prelude
begin

text \<open>
  The Internet checksum of \<open>ping.c\<close> (\<open>in_cksum\<close>), its specification as the ones'
  complement sum of 16-bit words, and the interface \<open>inet_checksum\<close> that the packet code
  relies on: what a receiver sees when the sender stored the checksum in the packet, and
  which corruptions it catches.  \<open>clockdiff.c\<close> has its own routine, which is shown in theory
  \<open>Clockdiff\<close> to satisfy the same interface.
\<close>

subsection \<open>Specification: the sum of the 16-bit words of a buffer\<close>

text \<open>The buffer as the host reads it: little-endian words, an odd last byte padded with 0.\<close>

fun le_words :: "u8 list \<Rightarrow> u16 list" where
  "le_words (a # b # bs) = le16 a b # le_words bs"
| "le_words [a] = [le16 a 0]"
| "le_words [] = []"

definition wsum :: "u8 list \<Rightarrow> int" where
  "wsum bs = (\<Sum>w\<leftarrow>le_words bs. uint w)"

lemma wsum_simps [simp]:
  "wsum [] = 0" "wsum [a] = uint a" "wsum (a # b # bs) = uint (le16 a b) + wsum bs"
  by (simp_all add: wsum_def uint_le16)

lemma wsum_nonneg [simp]: "0 \<le> wsum bs"
  by (induction bs rule: le_words.induct) (simp_all add: u16_bounds)

lemma wsum_append: "even (length xs) \<Longrightarrow> wsum (xs @ ys) = wsum xs + wsum ys"
  by (induction xs rule: le_words.induct) simp_all

lemma wsum_le: "2 * wsum bs \<le> 65535 * int (length bs)"
proof (induction bs rule: le_words.induct)
  case (1 a b bs)
  then show ?case using u16_bounds [of "le16 a b"] by simp
next
  case (2 a)
  then show ?case using u8_bounds [of a] by simp
qed simp

text \<open>Storing a word at an even offset replaces one summand.\<close>

lemma wsum_splice:
  assumes "even off" "off + 2 \<le> length bs"
  shows "wsum (splice off [x, y] bs) = wsum bs - uint (le16 (bs ! off) (bs ! Suc off)) + uint (le16 x y)"
proof -
  have two: "take 2 (drop off bs) = [bs ! off, bs ! Suc off]"
    using assms by (simp add: take_Suc_conv_app_nth numeral_2_eq_2 add.commute)
  have off: "even (length (take off bs))" using assms by simp
  have "wsum bs = wsum (take off bs @ [bs ! off, bs ! Suc off] @ drop (off + 2) bs)"
    using splice_split [of off "[x, y]" bs] two assms by (simp add: numeral_2_eq_2)
  then have "wsum bs = wsum (take off bs) + uint (le16 (bs ! off) (bs ! Suc off)) + wsum (drop (off + 2) bs)"
    using wsum_append [OF off] by simp
  moreover have "wsum (splice off [x, y] bs) = wsum (take off bs) + uint (le16 x y) + wsum (drop (off + 2) bs)"
    using wsum_append [OF off] by (simp add: splice_def)
  ultimately show ?thesis by simp
qed

text \<open>The ones' complement reduction of a sum: 0 only for 0, otherwise a value of 1 to 65535.\<close>

definition oc_reduce :: "int \<Rightarrow> int" where
  "oc_reduce s = (if s = 0 then 0 else if s mod 65535 = 0 then 65535 else s mod 65535)"

lemma oc_reduce_range: "0 \<le> oc_reduce s \<and> oc_reduce s \<le> 65535"
proof -
  have "0 \<le> s mod 65535" "s mod 65535 < 65535" by simp_all
  then show ?thesis by (simp add: oc_reduce_def) linarith
qed

lemma oc_reduce_cong: "oc_reduce s mod 65535 = s mod 65535"
  by (simp add: oc_reduce_def)

lemma oc_reduce_unique:
  assumes "0 \<le> r" "r \<le> 65535" "r mod 65535 = s mod 65535" "r = 0 \<longleftrightarrow> s = 0"
  shows "r = oc_reduce s"
proof (cases "r = 65535")
  case False
  then have "r mod 65535 = r" using assms by simp
  with assms False show ?thesis by (auto simp: oc_reduce_def)
qed (use assms in \<open>auto simp: oc_reduce_def\<close>)

subsection \<open>The interface: an Internet checksum routine\<close>

text \<open>
  What the users of a checksum routine rely on, for buffers of up to \<open>maxlen\<close> bytes: the
  complement of the result is congruent to the sum of the words modulo 65535, and it is
  zero only when every word is zero.
\<close>

locale inet_checksum =
  fixes cksum :: "u8 list \<Rightarrow> u16" and maxlen :: nat
  assumes cksum_cong: "length bs \<le> maxlen \<Longrightarrow> uint (NOT (cksum bs)) mod 65535 = wsum bs mod 65535"
    and cksum_zero: "length bs \<le> maxlen \<Longrightarrow> NOT (cksum bs) = 0 \<longleftrightarrow> wsum bs = 0"
begin

text \<open>The laws determine the routine.\<close>

lemma uint_not_cksum: "length bs \<le> maxlen \<Longrightarrow> uint (NOT (cksum bs)) = oc_reduce (wsum bs)"
  using cksum_cong [of bs] cksum_zero [of bs] u16_bounds [of "NOT (cksum bs)"]
  by (intro oc_reduce_unique) (auto simp: uint_0_iff)

lemma uint_cksum: "length bs \<le> maxlen \<Longrightarrow> uint (cksum bs) = 65535 - oc_reduce (wsum bs)"
  using uint_not_cksum [of bs] by (simp add: uint_not_u16)

text \<open>A buffer verifies (checksum 0) iff it is not all zero and its sum is a multiple of 65535.\<close>

lemma verifies_iff:
  assumes "length bs \<le> maxlen"
  shows "cksum bs = 0 \<longleftrightarrow> wsum bs \<noteq> 0 \<and> wsum bs mod 65535 = 0"
proof -
  have "cksum bs = 0 \<longleftrightarrow> oc_reduce (wsum bs) = 65535"
    using uint_cksum [OF assms] by (metis diff_eq_eq diff_self uint_0_iff add_0)
  moreover have "wsum bs mod 65535 \<noteq> 65535" using pos_mod_bound [of 65535 "wsum bs"] by simp
  ultimately show ?thesis by (simp add: oc_reduce_def)
qed

text \<open>
  A sender that computes the checksum with the field zeroed and stores the result in the
  field produces a packet that verifies.
\<close>

lemma store_verifies:
  assumes "even off" "off + 2 \<le> length bs" "length bs \<le> maxlen" "bs ! off = 0" "bs ! Suc off = 0"
  shows "cksum (splice off (le16_bytes (cksum bs)) bs) = 0"
proof -
  have "wsum (splice off (le16_bytes (cksum bs)) bs) = wsum bs + uint (cksum bs)"
    using assms by (simp add: le16_bytes_def wsum_splice uint_le16)
  also have "\<dots> = wsum bs + 65535 - oc_reduce (wsum bs)" by (simp add: uint_cksum assms)
  finally have eq: "wsum (splice off (le16_bytes (cksum bs)) bs) = wsum bs + 65535 - oc_reduce (wsum bs)" .
  have "(wsum bs + 65535 - oc_reduce (wsum bs)) mod 65535 = 0"
    by (rule mod_complement_eq_0) (rule oc_reduce_cong)
  moreover have "0 < wsum bs + 65535 - oc_reduce (wsum bs)"
    using oc_reduce_range [of "wsum bs"] wsum_nonneg [of bs]
    by (cases "wsum bs = 0") (simp add: oc_reduce_def, linarith)
  ultimately show ?thesis using assms eq by (simp add: verifies_iff)
qed

text \<open>
  A verifying packet in which one aligned 16-bit word is replaced by a different one no
  longer verifies, unless the change swaps the two representations of zero.
\<close>

lemma word_change_detected:
  assumes "even off" "off + 2 \<le> length bs" "length bs \<le> maxlen" "cksum bs = 0"
    and "w \<noteq> le16 (bs ! off) (bs ! Suc off)"
    and "{w, le16 (bs ! off) (bs ! Suc off)} \<noteq> {0, - 1}"
  shows "cksum (splice off (le16_bytes w) bs) \<noteq> 0"
proof
  assume "cksum (splice off (le16_bytes w) bs) = 0"
  moreover have len: "length (splice off (le16_bytes w) bs) \<le> maxlen" using assms by simp
  ultimately have "wsum (splice off (le16_bytes w) bs) mod 65535 = 0" by (simp add: verifies_iff)
  moreover define v where "v = le16 (bs ! off) (bs ! Suc off)"
  moreover have "wsum (splice off (le16_bytes w) bs) = wsum bs - uint v + uint w"
    using assms by (simp add: le16_bytes_def wsum_splice v_def)
  moreover have "wsum bs mod 65535 = 0" using assms by (simp add: verifies_iff)
  ultimately have "(uint w - uint v) mod 65535 = 0"
    using mod_diff_eq_0 [of "wsum bs - uint v + uint w" 65535 "wsum bs"] by simp
  then obtain k where k: "uint w - uint v = 65535 * k" by auto
  then have "k = 0 \<or> k = 1 \<or> k = - 1"
    using u16_bounds [of w] u16_bounds [of v] by linarith
  then have "uint w = uint v \<or> (uint w = 65535 \<and> uint v = 0) \<or> (uint v = 65535 \<and> uint w = 0)"
    using k u16_bounds [of w] u16_bounds [of v] by (elim disjE) linarith+
  then have "w = v \<or> (w = - 1 \<and> v = 0) \<or> (v = - 1 \<and> w = 0)"
    using uint_not_u16 [of 0] by (simp add: word_uint_eq_iff)
  with assms v_def show False by auto
qed

end

subsection \<open>The routine of \<open>ping.c\<close>\<close>

text \<open>
  The loop adds the 16-bit words to a 32-bit \<open>int\<close> accumulator; a last odd byte is added as
  it is (\<open>ODDBYTE\<close> on a little-endian host).  The two folding steps add the high half to the
  low half and then the remaining carry; the result is the complement, cut to 16 bits.
\<close>

fun cksum_loop :: "int \<Rightarrow> u8 list \<Rightarrow> int" where
  "cksum_loop acc (a # b # bs) = cksum_loop (acc + uint (le16 a b)) bs"
| "cksum_loop acc [a] = acc + uint a"
| "cksum_loop acc [] = acc"

definition in_cksum :: "u8 list \<Rightarrow> u16 \<Rightarrow> u16" where
  "in_cksum bs csum =
     (let s = cksum_loop (uint csum) bs;
          s1 = drop_bit 16 s + (s AND 0xffff);
          s2 = s1 + drop_bit 16 s1
      in word_of_int (NOT s2))"

text \<open>No packet of the program is longer than \<open>MAXPACKET\<close> bytes.\<close>

definition MAXPACKET :: nat where "MAXPACKET = 65535"

lemma cksum_loop_wsum: "cksum_loop s bs = s + wsum bs"
  by (induction s bs rule: cksum_loop.induct) simp_all

lemma cksum_loop_bound:
  fixes csum :: u16
  assumes "length bs \<le> MAXPACKET"
  shows "0 \<le> cksum_loop (uint csum) bs \<and> cksum_loop (uint csum) bs \<le> int_max"
  using assms wsum_le [of bs] wsum_nonneg [of bs] u16_bounds [of csum]
  unfolding cksum_loop_wsum int_max_def MAXPACKET_def by linarith

text \<open>The two folding steps reduce every accumulator value that fits \<open>int\<close>.\<close>

lemma fold_step:
  fixes s :: int
  assumes "0 \<le> s" "s \<le> int_max"
  shows "(let s1 = drop_bit 16 s + (s AND 0xffff); s2 = s1 + drop_bit 16 s1
          in (word_of_int (NOT s2) :: u16)) = NOT (word_of_int (oc_reduce s))"
proof -
  define s1 where "s1 = drop_bit 16 s + (s AND 0xffff)"
  define s2 where "s2 = s1 + drop_bit 16 s1"
  have s1: "s1 = s div 65536 + s mod 65536"
    using and_mask_eq_take_bit_int [of s] by (simp add: s1_def drop_bit_eq_div)
  have s2: "s2 = s1 + s1 div 65536" by (simp add: s2_def drop_bit_eq_div)
  have split: "s = 65536 * (s div 65536) + s mod 65536" "0 \<le> s div 65536" "0 \<le> s mod 65536"
    using assms by simp_all
  have r1: "0 \<le> s1" "s1 \<le> 98302"
    using assms unfolding s1 int_max_def by linarith+
  have z1: "s1 = 0 \<longleftrightarrow> s = 0" using split unfolding s1 by linarith
  have "s mod 65535 = (s1 + 65535 * (s div 65536)) mod 65535"
    by (rule arg_cong [where f = "\<lambda>x. x mod 65535"]) (simp add: s1)
  then have c1: "s1 mod 65535 = s mod 65535" by simp
  have cases: "s2 mod 65536 = (if s1 < 65536 then s1 else s1 - 65535)"
  proof (cases "s1 < 65536")
    case False
    then have "s1 div 65536 = 1" using r1 by linarith
    moreover have "(s1 + 1) mod 65536 = s1 + 1 - 65536"
      by (rule mod_minus_once) (use False r1 in simp_all)
    ultimately show ?thesis using False by (simp add: s2)
  qed (use r1 in \<open>simp add: s2\<close>)
  have "s2 mod 65536 = oc_reduce s"
  proof (rule oc_reduce_unique)
    show "s2 mod 65536 mod 65535 = s mod 65535"
      unfolding cases c1 [symmetric] by (simp add: mod_diff_right_eq [of _ "65535", symmetric])
    show "s2 mod 65536 = 0 \<longleftrightarrow> s = 0" using r1 z1 unfolding cases by auto
    show "s2 mod 65536 \<le> 65535" "0 \<le> s2 mod 65536" using r1 unfolding cases by auto
  qed
  then have "(word_of_int s2 :: u16) = word_of_int (oc_reduce s)"
    by (metis word_of_int_mod_u16)
  then show ?thesis
    unfolding Let_def s1_def [symmetric] s2_def [symmetric] by (simp only: of_int_not_eq)
qed

lemma in_cksum_eq:
  assumes "length bs \<le> MAXPACKET"
  shows "in_cksum bs csum = NOT (word_of_int (oc_reduce (uint csum + wsum bs)))"
  using fold_step cksum_loop_bound [OF assms]
  unfolding in_cksum_def cksum_loop_wsum Let_def by blast

lemma uint_oc_reduce [simp]: "uint (word_of_int (oc_reduce s) :: u16) = oc_reduce s"
  using oc_reduce_range [of s] by (simp add: uint_word_of_int)

interpretation ping_ck: inet_checksum "\<lambda>bs. in_cksum bs 0" MAXPACKET
proof
  fix bs :: "u8 list"
  assume len: "length bs \<le> MAXPACKET"
  show "uint (NOT (in_cksum bs 0)) mod 65535 = wsum bs mod 65535"
    by (simp add: in_cksum_eq [OF len] oc_reduce_cong)
  show "NOT (in_cksum bs 0) = 0 \<longleftrightarrow> wsum bs = 0"
    using uint_oc_reduce [of "wsum bs"]
    by (auto simp: in_cksum_eq [OF len] oc_reduce_def split: if_splits simp flip: uint_0_iff)
qed

text \<open>
  The incremental form that \<open>ping4_send_probe\<close> uses: continuing from the complement of an
  earlier checksum gives the checksum of the two buffers together.
\<close>

lemma in_cksum_add:
  assumes "length xs \<le> MAXPACKET" "length ys \<le> MAXPACKET"
  shows "in_cksum ys (NOT (in_cksum xs 0)) = NOT (word_of_int (oc_reduce (wsum xs + wsum ys)))"
proof -
  have "oc_reduce (oc_reduce (wsum xs) + wsum ys) = oc_reduce (wsum xs + wsum ys)"
  proof (rule oc_reduce_unique)
    show "oc_reduce (oc_reduce (wsum xs) + wsum ys) mod 65535 = (wsum xs + wsum ys) mod 65535"
      by (metis oc_reduce_cong mod_add_left_eq)
    have "oc_reduce a = 0 \<longleftrightarrow> a = 0" for a by (simp add: oc_reduce_def)
    then show "oc_reduce (oc_reduce (wsum xs) + wsum ys) = 0 \<longleftrightarrow> wsum xs + wsum ys = 0"
      using oc_reduce_range [of "wsum xs"] wsum_nonneg [of xs] wsum_nonneg [of ys]
      by (smt (verit))
  qed (simp_all add: oc_reduce_range)
  then show ?thesis using assms by (simp add: in_cksum_eq)
qed

lemma in_cksum_continue:
  assumes "even (length xs)" "length xs + length ys \<le> MAXPACKET"
  shows "in_cksum ys (NOT (in_cksum xs 0)) = in_cksum (xs @ ys) 0"
  using assms by (simp add: in_cksum_add) (simp add: in_cksum_eq wsum_append)

subsection \<open>What the packet code relies on\<close>

text \<open>
  C18: the sender's and the receiver's use of \<open>in_cksum\<close> agree: a packet of up to
  \<open>MAXPACKET\<close> bytes whose zeroed checksum field is filled with the routine's result is one
  for which the receiver's call returns 0, also when the result is computed in two parts as
  \<open>ping4_send_probe\<close> does.
\<close>

theorem stored_checksum_verifies:
  assumes "even off" "off + 2 \<le> length xs" "xs ! off = 0" "xs ! Suc off = 0"
    and "even (length xs)" "length xs + length ys \<le> MAXPACKET"
  shows "in_cksum (splice off (le16_bytes (in_cksum ys (NOT (in_cksum xs 0)))) (xs @ ys)) 0 = 0"
  using ping_ck.store_verifies [of off "xs @ ys"] assms
  by (simp add: in_cksum_continue nth_append)

theorem stored_checksum_verifies_witness:
  "in_cksum (splice 2 (le16_bytes (in_cksum [5, 6, 7] (NOT (in_cksum [8, 0, 0, 0] 0))))
     ([8, 0, 0, 0] @ [5, 6, 7])) 0 = 0"
  using stored_checksum_verifies [of 2 "[8, 0, 0, 0]" "[5, 6, 7]"] by (simp add: MAXPACKET_def)

text \<open>
  C19: a packet that verifies no longer verifies when one aligned 16-bit word is replaced by
  another, unless the two are the two representations of zero.
\<close>

theorem corrupted_word_detected:
  assumes "even off" "off + 2 \<le> length bs" "length bs \<le> MAXPACKET" "in_cksum bs 0 = 0"
    and "w \<noteq> le16 (bs ! off) (bs ! Suc off)"
    and "{w, le16 (bs ! off) (bs ! Suc off)} \<noteq> {0, - 1}"
  shows "in_cksum (splice off (le16_bytes w) bs) 0 \<noteq> 0"
  using assms by (rule ping_ck.word_change_detected)

theorem corrupted_word_detected_witness:
  "in_cksum (splice 4 (le16_bytes 9) [8, 0, 0xf7, 0xff, 0, 0]) 0 \<noteq> 0"
proof -
  have "in_cksum [8, 0, 0xf7, 0xff, 0, 0] 0 = 0" by code_simp
  moreover have "{9, le16 0 0} \<noteq> {0, - 1 :: u16}"
    by (simp add: le16_def doubleton_eq_iff)
  ultimately show ?thesis
    using corrupted_word_detected [of 4 "[8, 0, 0xf7, 0xff, 0, 0]" 9]
    by (simp add: MAXPACKET_def le16_def)
qed

text \<open>
  The accumulator of the checksum loop, a signed 32-bit \<open>int\<close> in the code, never
  overflows on a packet the program handles.
\<close>

theorem cksum_accumulator_fits:
  fixes csum :: u16
  assumes "length bs \<le> MAXPACKET"
  shows "\<forall>k. 0 \<le> cksum_loop (uint csum) (take k bs) \<and> cksum_loop (uint csum) (take k bs) \<le> int_max"
  using assms by (auto intro!: cksum_loop_bound [THEN conjunct1] cksum_loop_bound [THEN conjunct2])

theorem cksum_accumulator_fits_witness:
  "cksum_loop (uint (- 1 :: u16)) (take 2 [0xff, 0xff, 0xff]) \<le> int_max"
  by (rule cksum_accumulator_fits [THEN spec, THEN conjunct2]) (simp add: MAXPACKET_def)

end
