(* ===== verification/Ping_State.thy ===== *)
theory Ping_State
  imports Prelude
begin

text \<open>
  The data model of \<open>ping/ping.h\<close>: the run-time state \<open>struct ping_rts\<close> that every
  function of the program works on, with its option bits, its JSON buffers and its node
  information query state.  A C flag (\<open>int\<close> or one-bit field that is only tested) is a
  \<open>bool\<close>; a pointer that may be null is an \<open>option\<close>; addresses are the 32-bit values or
  the 16 bytes in network order that the code compares.  \<open>pr_addr_jmp\<close>, \<open>json_error\<close> and the two
  copies of the function tables are not used across functions and are left out; the first hop of
  IPv6 is a parameter of its set-up (theory \<open>Ping_Setup\<close>) and the permitted capabilities are those of
  the environment in theory \<open>Capabilities\<close>.
\<close>

record timespec =
  ts_sec :: int
  ts_nsec :: int

record timeval =
  tv_sec :: int
  tv_usec :: int

text \<open>
  A JSON buffer holds the C string that is in \<open>object\<close> (up to the terminating NUL) and the
  \<open>size\<close> the code keeps beside it.
\<close>

record ping_json_buffer =
  jb_size :: nat
  jb_object :: string

record ping_ni =
  ni_query :: int
  ni_flag :: u16
  ni_subject :: "u8 list option"
  ni_subject_len :: nat
  ni_subject_type :: int
  ni_group :: "string option"
  ni_secret :: "u8 list"

record ping_opts =
  opt_adaptive :: bool
  opt_audible :: bool
  opt_connect_sk :: bool
  opt_flood :: bool
  opt_flood_poll :: bool
  opt_flowinfo :: bool
  opt_force_lookup :: bool
  opt_interval :: bool
  opt_latency :: bool
  opt_mark :: bool
  opt_noloop :: bool
  opt_numeric :: bool
  opt_outstanding :: bool
  opt_pingfilled :: bool
  opt_ptimeofday :: bool
  opt_rtt_precision :: bool
  opt_quiet :: bool
  opt_json :: bool
  opt_rroute :: bool
  opt_so_debug :: bool
  opt_so_dontroute :: bool
  opt_sourceroute :: bool
  opt_strictsource :: bool
  opt_timestamp :: bool
  opt_ttl :: bool
  opt_verbose :: bool

record ping_rts =
  mark :: u32
  outpack :: "u8 list"
  rcvd_tbl :: "u64 list"
  datalen :: int
  hostname :: string
  uid :: int
  ident :: int
  sndbuf :: int
  ttl :: int
  npackets :: int
  nreceived :: int
  nrepeats :: int
  ntransmitted :: int
  nchecksum :: int
  nerrors :: int
  interval :: int
  preload :: int
  deadline :: int
  lingertime :: u32
  start_time :: timespec
  cur_time :: timespec
  exiting :: bool
  status_snapshot :: bool
  confirm :: int
  confirm_flag :: int
  device :: "string option"
  pmtudisc :: int
  in_pr_addr :: bool
  timing :: bool
  tmin :: int
  tmax :: int
  tsum :: rat
  tsum2 :: rat
  rtt :: u64
  rtt_addend :: int
  acked :: u16
  pipesize :: int
  tclass :: u32
  flowlabel :: u32
  source6 :: "u8 list"
  whereto6 :: "u8 list"
  multicast :: bool
  ts_type :: int
  nroute :: nat
  route :: "u32 list"
  whereto :: u32
  optlen :: int
  settos :: int
  broadcast_pings :: bool
  source :: u32
  screen_width :: int
  subnet_router_anycast :: bool
  cmsgbuf :: "u8 list"
  ni :: ping_ni
  json_packet :: ping_json_buffer
  json_stats :: ping_json_buffer
  opts :: ping_opts

subsection \<open>Effects: output, diagnostics and the ways a run stops\<close>

text \<open>
  What a function does to the outside is part of its result, in order: \<open>Out\<close> is text on standard
  output, \<open>Err\<close> text on standard error, \<open>Diag\<close> a message of \<open>error(3)\<close> (its error number and
  text), \<open>Sys\<close> a system call whose result the code does not use, with its numeric arguments.  A
  function of the program may also stop the process: \<open>Exit\<close> by \<open>exit\<close> or by \<open>error\<close> with a
  non-zero status, \<open>Abort\<close> by \<open>abort\<close>; \<open>Undefined\<close> stands for an access outside an object or
  an overflow of a signed integer, after which C promises nothing.  \<open>Out_Of_Fuel\<close> is no
  behaviour of the program: a loop that may run forever is given a number of rounds, and what
  is stated of it is stated for runs that end within them.  Messages are those of the C locale
  (gettext's \<open>_()\<close> is the identity there).
\<close>

datatype effect = Out string | Err string | Diag int string | Sys string "int list"
datatype stop = Exit int | Abort | Undefined | Out_Of_Fuel

type_synonym 'a result = "effect list \<times> (stop + 'a)"

definition ret :: "'a \<Rightarrow> 'a result" where
  "ret a = ([], Inr a)"

definition stop_with :: "stop \<Rightarrow> 'a result" where
  "stop_with e = ([], Inl e)"

definition emit :: "effect list \<Rightarrow> 'a result \<Rightarrow> 'a result" where
  "emit es m = (es @ fst m, snd m)"

definition and_then :: "'a result \<Rightarrow> ('a \<Rightarrow> 'b result) \<Rightarrow> 'b result" where
  "and_then m f = (case snd m of Inl e \<Rightarrow> (fst m, Inl e) | Inr a \<Rightarrow> emit (fst m) (f a))"

definition print :: "string \<Rightarrow> 'a result \<Rightarrow> 'a result" where
  "print s m = emit [Out s] m"

definition error_c :: "int \<Rightarrow> int \<Rightarrow> string \<Rightarrow> 'a result \<Rightarrow> 'a result" where
  "error_c status errnum msg m =
     emit [Diag errnum msg] (if status \<noteq> 0 then stop_with (Exit status) else m)"

text \<open>The text on standard output, in order.\<close>

definition stdout_of :: "effect list \<Rightarrow> string" where
  "stdout_of es = concat (map (\<lambda>e. case e of Out s \<Rightarrow> s | _ \<Rightarrow> []) es)"

lemma stdout_of_simps [simp]:
  "stdout_of [] = []" "stdout_of (Out s # es) = s @ stdout_of es"
  "stdout_of (Diag n m # es) = stdout_of es" "stdout_of (Err s # es) = stdout_of es"
  "stdout_of (Sys c as # es) = stdout_of es"
  "stdout_of (es @ fs) = stdout_of es @ stdout_of fs"
  by (simp_all add: stdout_of_def)

lemma emit_simps [simp]:
  "fst (emit es m) = es @ fst m" "snd (emit es m) = snd m" "emit [] m = m"
  "emit es (emit fs m) = emit (es @ fs) m"
  by (simp_all add: emit_def)

lemma fst_ret [simp]: "fst (ret a) = []" and snd_ret [simp]: "snd (ret a) = Inr a"
  by (simp_all add: ret_def)

lemma fst_stop_with [simp]: "fst (stop_with e) = []" and snd_stop_with [simp]: "snd (stop_with e) = Inl e"
  by (simp_all add: stop_with_def)

lemma and_then_ret [simp]: "and_then (ret a) f = f a"
  by (simp add: and_then_def)

lemma and_then_stop [simp]: "and_then (stop_with e) f = stop_with e"
  by (simp add: and_then_def stop_with_def)

lemma and_then_emit [simp]: "and_then (emit es m) f = emit es (and_then m f)"
  by (simp add: and_then_def emit_def split: sum.splits)

lemma and_then_assoc: "and_then (and_then m f) g = and_then m (\<lambda>a. and_then (f a) g)"
  by (auto simp: and_then_def emit_def split: sum.splits)

lemma and_then_returned: "and_then m ret = m"
  by (cases m; cases "snd m") (simp_all add: and_then_def emit_def ret_def)

lemma emit_ret_eq: "m = (es, Inr a) \<longleftrightarrow> m = emit es (ret a)"
  by (auto simp: emit_def ret_def)

text \<open>
  What holds of the value a run returns, if it returns: \<open>yields\<close> composes along
  \<open>and_then\<close>.  A run that returns some value whatever the output: \<open>returns\<close>.
\<close>

definition yields :: "'a result \<Rightarrow> ('a \<Rightarrow> bool) \<Rightarrow> bool" where
  "yields m P \<longleftrightarrow> (\<forall>a. snd m = Inr a \<longrightarrow> P a)"

definition returns :: "'a result \<Rightarrow> 'a \<Rightarrow> bool" where
  "returns m a \<longleftrightarrow> snd m = Inr a"

lemma yields_simps [simp]:
  "yields (ret a) P \<longleftrightarrow> P a" "yields (stop_with e) P" "yields (emit es m) P \<longleftrightarrow> yields m P"
  "yields (print s m) P \<longleftrightarrow> yields m P"
  by (simp_all add: yields_def print_def)

lemma yields_and_then: "yields m Q \<Longrightarrow> (\<And>a. Q a \<Longrightarrow> yields (f a) P) \<Longrightarrow> yields (and_then m f) P"
  by (auto simp: yields_def and_then_def split: sum.splits)

lemma yields_mono: "yields m Q \<Longrightarrow> (\<And>a. Q a \<Longrightarrow> P a) \<Longrightarrow> yields m P"
  by (auto simp: yields_def)

lemma yields_conj: "yields m P \<Longrightarrow> yields m Q \<Longrightarrow> yields m (\<lambda>a. P a \<and> Q a)"
  by (simp add: yields_def)

lemma yields_if: "(b \<Longrightarrow> yields m P) \<Longrightarrow> (\<not> b \<Longrightarrow> yields n P) \<Longrightarrow> yields (if b then m else n) P"
  by simp

lemma yields_returns: "yields m P \<Longrightarrow> returns m a \<Longrightarrow> P a"
  by (simp add: yields_def returns_def)

lemma yields_then_any: "(\<And>a. yields (f a) P) \<Longrightarrow> yields (and_then m f) P"
  by (rule yields_and_then [where Q = "\<lambda>_. True"]) (simp_all add: yields_def)

lemma returns_simps [simp]:
  "returns (ret a) b \<longleftrightarrow> a = b" "\<not> returns (stop_with e) b" "returns (emit es m) b \<longleftrightarrow> returns m b"
  "returns (print s m) b \<longleftrightarrow> returns m b"
  by (auto simp: returns_def print_def)

lemma returns_and_then: "returns (and_then m f) b \<longleftrightarrow> (\<exists>a. returns m a \<and> returns (f a) b)"
  by (auto simp: returns_def and_then_def split: sum.splits)

lemma returns_and_thenI: "returns m a \<Longrightarrow> returns (f a) b \<Longrightarrow> returns (and_then m f) b"
  by (auto simp: returns_and_then)

lemma returns_unique: "returns m a \<Longrightarrow> returns m b \<Longrightarrow> a = b"
  by (simp add: returns_def)

lemma error_c_0 [simp]: "error_c 0 e msg m = emit [Diag e msg] m"
  by (simp add: error_c_def)

lemma and_then_print [simp]: "and_then (print s m) f = print s (and_then m f)"
  by (simp add: print_def)

text \<open>The first \<open>n\<close> bytes of a memory are accessed.\<close>

definition need :: "nat \<Rightarrow> u8 list \<Rightarrow> 'a result \<Rightarrow> 'a result" where
  "need n mem m = (if n \<le> length mem then m else stop_with Undefined)"

lemma yields_need [simp]: "yields (need n mem m) P \<longleftrightarrow> (n \<le> length mem \<longrightarrow> yields m P)"
  by (simp add: need_def)

text \<open>A run that does not run out of rounds.\<close>

definition ends :: "'a result \<Rightarrow> bool" where
  "ends m \<longleftrightarrow> snd m \<noteq> Inl Out_Of_Fuel"

lemma ends_simps [simp]:
  "ends (ret a)" "ends (stop_with e) \<longleftrightarrow> e \<noteq> Out_Of_Fuel" "ends (emit es m) \<longleftrightarrow> ends m" "ends (print s m) \<longleftrightarrow> ends m"
  by (simp_all add: ends_def print_def)

lemma ends_and_then: "ends m \<Longrightarrow> yields m Q \<Longrightarrow> (\<And>a. Q a \<Longrightarrow> ends (f a)) \<Longrightarrow> ends (and_then m f)"
  by (auto simp: ends_def yields_def and_then_def split: sum.splits)

lemma ends_seq: "ends m \<Longrightarrow> (\<And>a. ends (f a)) \<Longrightarrow> ends (and_then m f)"
  by (rule ends_and_then [where Q = "\<lambda>_. True"]) (simp_all add: yields_def)

lemma ends_need [simp]: "ends m \<Longrightarrow> ends (need n mem m)"
  by (simp add: need_def)

lemma ends_error_c [simp]: "ends m \<Longrightarrow> ends (error_c st e msg m)"
  by (simp add: error_c_def)

text \<open>An IPv4 address in dotted decimal notation.\<close>

definition inet_ntoa :: "u8 list \<Rightarrow> string" where
  "inet_ntoa bs = fmt_d (uint (bs ! 0)) @ ''.'' @ fmt_d (uint (bs ! 1)) @ ''.'' @
     fmt_d (uint (bs ! 2)) @ ''.'' @ fmt_d (uint (bs ! 3))"

subsection \<open>The initial state\<close>

text \<open>
  The initialiser of \<open>rts\<close> in \<open>main\<close>; what it does not name is zero.  \<open>zeros\<close> keeps the large
  arrays folded, and \<open>rts_with\<close> is the same state over arrays of another size.
\<close>

definition zeros :: "nat \<Rightarrow> 'a::zero list" where
  "zeros n = replicate n 0"

lemma length_zeros [simp]: "length (zeros n) = n"
  by (simp add: zeros_def)

lemma nth_zeros [simp]: "i < n \<Longrightarrow> zeros n ! i = 0"
  by (simp add: zeros_def)

definition no_opts :: ping_opts where
  "no_opts = \<lparr>opt_adaptive = False, opt_audible = False, opt_connect_sk = False, opt_flood = False,
     opt_flood_poll = False, opt_flowinfo = False, opt_force_lookup = False, opt_interval = False,
     opt_latency = False, opt_mark = False, opt_noloop = False, opt_numeric = False,
     opt_outstanding = False, opt_pingfilled = False, opt_ptimeofday = False,
     opt_rtt_precision = False, opt_quiet = False, opt_json = False, opt_rroute = False,
     opt_so_debug = False, opt_so_dontroute = False, opt_sourceroute = False,
     opt_strictsource = False, opt_timestamp = False, opt_ttl = False, opt_verbose = False\<rparr>"

definition initial_ni :: ping_ni where
  "initial_ni = \<lparr>ni_query = - 1, ni_flag = 0, ni_subject = None, ni_subject_len = 0,
     ni_subject_type = - 1, ni_group = None, ni_secret = zeros 24\<rparr>"

definition empty_json :: ping_json_buffer where
  "empty_json = \<lparr>jb_size = 0, jb_object = []\<rparr>"

definition rts_with :: "u8 list \<Rightarrow> u64 list \<Rightarrow> ping_rts" where
  "rts_with buf tbl = \<lparr>mark = 0, outpack = buf, rcvd_tbl = tbl, datalen = 56, hostname = [],
     uid = 0, ident = - 1, sndbuf = 0, ttl = 0, npackets = 0, nreceived = 0, nrepeats = 0,
     ntransmitted = 0, nchecksum = 0, nerrors = 0, interval = 1000, preload = 1, deadline = 0,
     lingertime = 10000000, start_time = \<lparr>ts_sec = 0, ts_nsec = 0\<rparr>,
     cur_time = \<lparr>ts_sec = 0, ts_nsec = 0\<rparr>, exiting = False, status_snapshot = False,
     confirm = 0, confirm_flag = 0x800, device = None, pmtudisc = - 1, in_pr_addr = False,
     timing = False, tmin = long_max, tmax = 0, tsum = 0, tsum2 = 0, rtt = 0, rtt_addend = 0,
     acked = 0, pipesize = - 1, tclass = 0, flowlabel = 0, source6 = zeros 16, whereto6 = zeros 16,
     multicast = False, ts_type = 0, nroute = 0, route = zeros 10, whereto = 0, optlen = 0,
     settos = 0, broadcast_pings = False, source = 0, screen_width = int_max,
     subnet_router_anycast = False, cmsgbuf = [], ni = initial_ni, json_packet = empty_json,
     json_stats = empty_json, opts = no_opts\<rparr>"

definition initial_rts :: ping_rts where
  "initial_rts = rts_with (zeros 65535) (zeros 1024)"

end
