(* ===== verification/Seq_Window.thy ===== *)
theory Seq_Window
  imports Ping_State
begin

text \<open>
  The sequence-number bookkeeping of \<open>ping/ping.h\<close>: the bitmap of received sequence numbers
  (\<open>rcvd_set\<close>, \<open>rcvd_clear\<close>, \<open>rcvd_test\<close>), the window of unacknowledged probes
  (\<open>in_flight\<close>, \<open>acknowledge\<close>, \<open>advance_ntransmitted\<close>) and the subtraction of times.
  The locale \<open>dup_table\<close> is what the statistics rely on of the bitmap, the locale
  \<open>flight_window\<close> what the sender relies on of the window; both are interpreted on the
  code's own operations.
\<close>

subsection \<open>The table of received sequence numbers\<close>

definition MAX_DUP_CHK :: nat where "MAX_DUP_CHK = 0x10000"
definition BITMAP_SHIFT :: nat where "BITMAP_SHIFT = 6"

text \<open>The macros \<open>A(bit)\<close> and \<open>B(bit)\<close>: the index of the word in the array, the mask in it.\<close>

definition A_index :: "nat \<Rightarrow> nat" where
  "A_index b = drop_bit BITMAP_SHIFT b"

definition B_mask :: "nat \<Rightarrow> u64" where
  "B_mask b = push_bit (b AND (2 ^ BITMAP_SHIFT - 1)) 1"

definition seq_bit :: "u16 \<Rightarrow> nat" where
  "seq_bit seq = unat seq mod MAX_DUP_CHK"

definition tbl_set :: "u64 list \<Rightarrow> u16 \<Rightarrow> u64 list" where
  "tbl_set t seq = (let b = seq_bit seq in t[A_index b := t ! A_index b OR B_mask b])"

definition tbl_clear :: "u64 list \<Rightarrow> u16 \<Rightarrow> u64 list" where
  "tbl_clear t seq = (let b = seq_bit seq in t[A_index b := t ! A_index b AND NOT (B_mask b)])"

definition tbl_test :: "u64 list \<Rightarrow> u16 \<Rightarrow> u64" where
  "tbl_test t seq = (let b = seq_bit seq in t ! A_index b AND B_mask b)"

definition rcvd_set :: "ping_rts \<Rightarrow> u16 \<Rightarrow> ping_rts" where
  "rcvd_set rts seq = rts\<lparr>rcvd_tbl := tbl_set (rcvd_tbl rts) seq\<rparr>"

definition rcvd_clear :: "ping_rts \<Rightarrow> u16 \<Rightarrow> ping_rts" where
  "rcvd_clear rts seq = rts\<lparr>rcvd_tbl := tbl_clear (rcvd_tbl rts) seq\<rparr>"

definition rcvd_test :: "ping_rts \<Rightarrow> u16 \<Rightarrow> u64" where
  "rcvd_test rts seq = tbl_test (rcvd_tbl rts) seq"

text \<open>The array has one bit for each of the \<open>MAX_DUP_CHK\<close> sequence numbers.\<close>

definition tbl_inv :: "u64 list \<Rightarrow> bool" where
  "tbl_inv t \<longleftrightarrow> length t = MAX_DUP_CHK div 2 ^ BITMAP_SHIFT"

text \<open>
  How the table is used: a number already in it is a repeat, any other is counted and marked.
\<close>

primrec count_fresh :: "('t \<Rightarrow> u16 \<Rightarrow> 't) \<Rightarrow> ('t \<Rightarrow> u16 \<Rightarrow> bool) \<Rightarrow> 't \<Rightarrow> u16 list \<Rightarrow> nat" where
  "count_fresh ts tt t [] = 0"
| "count_fresh ts tt t (s # ss) =
     (if tt t s then count_fresh ts tt t ss else Suc (count_fresh ts tt (ts t s) ss))"

locale dup_table =
  fixes tset tclear :: "'t \<Rightarrow> u16 \<Rightarrow> 't"
    and ttest :: "'t \<Rightarrow> u16 \<Rightarrow> bool"
    and tinv :: "'t \<Rightarrow> bool"
  assumes tinv_set [simp]: "tinv t \<Longrightarrow> tinv (tset t a)"
    and tinv_clear [simp]: "tinv t \<Longrightarrow> tinv (tclear t a)"
    and ttest_set [simp]: "tinv t \<Longrightarrow> ttest (tset t a) b \<longleftrightarrow> b = a \<or> ttest t b"
    and ttest_clear [simp]: "tinv t \<Longrightarrow> ttest (tclear t a) b \<longleftrightarrow> b \<noteq> a \<and> ttest t b"
begin

text \<open>
  Every number that was not in the table at the start is counted exactly once, whatever the
  order and multiplicity in which the numbers arrive.
\<close>

lemma count_fresh_card:
  "tinv t \<Longrightarrow> count_fresh tset ttest t ss = card (set ss - {s. ttest t s})"
proof (induction ss arbitrary: t)
  case (Cons s ss)
  show ?case
  proof (cases "ttest t s")
    case True
    then have "set (s # ss) - {s. ttest t s} = set ss - {s. ttest t s}" by auto
    with True Cons show ?thesis by simp
  next
    case False
    have "set (s # ss) - {s. ttest t s} = insert s (set ss - {u. ttest (tset t s) u})"
      using False Cons.prems by auto
    moreover have "s \<notin> set ss - {u. ttest (tset t s) u}" using Cons.prems by simp
    ultimately show ?thesis using False Cons by simp
  qed
qed simp

end

lemma A_index_less: "A_index (seq_bit seq) < MAX_DUP_CHK div 2 ^ BITMAP_SHIFT"
  by (simp add: A_index_def seq_bit_def MAX_DUP_CHK_def BITMAP_SHIFT_def drop_bit_eq_div
      less_mult_imp_div_less)

lemma bit_B_mask: "bit (B_mask b) n \<longleftrightarrow> n = b mod 64"
proof -
  have "b AND 63 = b mod 64"
    using take_bit_eq_mask [of 6 b] by (simp add: take_bit_eq_mod mask_eq_exp_minus_1)
  moreover have "b mod 64 < 64" by simp
  ultimately show ?thesis
    by (auto simp: B_mask_def BITMAP_SHIFT_def bit_simps)
qed

lemma seq_bit_less: "seq_bit a < MAX_DUP_CHK"
  by (simp add: seq_bit_def MAX_DUP_CHK_def)

lemma seq_bit_inject: "seq_bit a = seq_bit b \<longleftrightarrow> a = b"
  using unat_u16_less [of a] unat_u16_less [of b]
  by (simp add: seq_bit_def MAX_DUP_CHK_def word_unat_eq_iff)

lemma seq_position_inject:
  "A_index (seq_bit a) = A_index (seq_bit b) \<and> seq_bit a mod 64 = seq_bit b mod 64 \<longleftrightarrow> a = b"
proof -
  have "x div 64 = y div 64 \<and> x mod 64 = y mod 64 \<longleftrightarrow> x = y" for x y :: nat
    by (metis div_mult_mod_eq)
  then show ?thesis
    by (simp add: A_index_def BITMAP_SHIFT_def drop_bit_eq_div seq_bit_inject)
qed

lemma tbl_test_iff: "tbl_test t seq \<noteq> 0 \<longleftrightarrow> bit (t ! A_index (seq_bit seq)) (seq_bit seq mod 64)"
proof -
  have "tbl_test t seq \<noteq> 0 \<longleftrightarrow> (\<exists>n. bit (tbl_test t seq) n)"
    using bit_eqI [of "tbl_test t seq" 0] by auto
  then show ?thesis
    by (simp add: tbl_test_def Let_def bit_and_iff bit_B_mask)
qed

text \<open>The bitmap is a duplicate table.\<close>

interpretation rcvd: dup_table tbl_set tbl_clear "\<lambda>t s. tbl_test t s \<noteq> 0" tbl_inv
proof
  fix t :: "u64 list" and a b :: u16
  assume inv: "tbl_inv t"
  then have len: "A_index (seq_bit s) < length t" for s
    using A_index_less by (simp add: tbl_inv_def)
  have lt: "seq_bit b mod 64 < 64" by simp
  show "tbl_inv (tbl_set t a)" "tbl_inv (tbl_clear t a)"
    using inv by (simp_all add: tbl_inv_def tbl_set_def tbl_clear_def Let_def)
  show "tbl_test (tbl_set t a) b \<noteq> 0 \<longleftrightarrow> b = a \<or> tbl_test t b \<noteq> 0"
    using len lt seq_position_inject [of a b] unfolding tbl_test_iff
    by (auto simp: tbl_set_def Let_def nth_list_update bit_simps bit_B_mask)
  show "tbl_test (tbl_clear t a) b \<noteq> 0 \<longleftrightarrow> b \<noteq> a \<and> tbl_test t b \<noteq> 0"
    using len lt seq_position_inject [of a b] unfolding tbl_test_iff
    by (auto simp: tbl_clear_def Let_def nth_list_update bit_simps bit_B_mask)
qed

subsection \<open>The window of unacknowledged probes\<close>

text \<open>
  The code keeps the highest acknowledged sequence number in 16 bits (\<open>acked\<close>).  Integer
  promotion matters: \<open>in_flight\<close> and the first line of \<open>acknowledge\<close> store the difference
  in a \<open>uint16_t\<close>, the two comparisons with \<open>rts->acked\<close> are made on \<open>int\<close>.
\<close>

definition in_flight :: "ping_rts \<Rightarrow> int" where
  "in_flight rts =
     (let diff = to_u16 (ntransmitted rts) - acked rts
      in if uint diff \<le> 0x7FFF then uint diff
         else to_int32 (ntransmitted rts - nreceived rts - nerrors rts))"

definition acknowledge :: "ping_rts \<Rightarrow> u16 \<Rightarrow> ping_rts" where
  "acknowledge rts seq =
     (let diff = to_u16 (ntransmitted rts) - seq
      in if uint diff \<le> 0x7FFF
         then let rts = (if uint diff + 1 > pipesize rts then rts\<lparr>pipesize := uint diff + 1\<rparr> else rts)
              in if to_int16 (uint seq - uint (acked rts)) > 0
                    \<or> uint (to_u16 (ntransmitted rts)) - uint (acked rts) > 0x7FFF
                 then rts\<lparr>acked := seq\<rparr> else rts
         else rts)"

definition advance_ntransmitted :: "ping_rts \<Rightarrow> ping_rts" where
  "advance_ntransmitted rts =
     (let rts = rts\<lparr>ntransmitted := ntransmitted rts + 1\<rparr>
      in if uint (to_u16 (ntransmitted rts)) - uint (acked rts) > 0x7FFF
         then rts\<lparr>acked := to_u16 (uint (to_u16 (ntransmitted rts)) + 1)\<rparr> else rts)"

text \<open>
  What the sender wants of the window: \<open>represents s n h\<close> says that \<open>n\<close> probes were sent and
  \<open>h\<close> is the highest acknowledged one, counted without wrap-around, and that the two are at
  most \<open>reach\<close> apart.  The locale states how the three operations act on the pair.
\<close>

datatype window_event = Advance | Acknowledge int

primrec window_sent :: "window_event list \<Rightarrow> int \<Rightarrow> int" where
  "window_sent [] n = n"
| "window_sent (e # es) n = window_sent es (case e of Advance \<Rightarrow> n + 1 | Acknowledge _ \<Rightarrow> n)"

primrec window_high :: "window_event list \<Rightarrow> int \<Rightarrow> int" where
  "window_high [] h = h"
| "window_high (e # es) h = window_high es (case e of Advance \<Rightarrow> h | Acknowledge s \<Rightarrow> max h s)"

text \<open>
  The events the window is built for: fewer than \<open>reach\<close> probes are unacknowledged when
  another is sent, and an acknowledgement is for one of the last \<open>reach\<close> probes.
\<close>

primrec window_ok :: "int \<Rightarrow> window_event list \<Rightarrow> int \<Rightarrow> int \<Rightarrow> bool" where
  "window_ok reach [] n h \<longleftrightarrow> True"
| "window_ok reach (e # es) n h \<longleftrightarrow>
     (case e of Advance \<Rightarrow> n + 1 - h \<le> reach \<and> window_ok reach es (n + 1) h
      | Acknowledge s \<Rightarrow> s \<le> n \<and> n - s \<le> reach \<and> window_ok reach es n (max h s))"

locale flight_window =
  fixes adv :: "'s \<Rightarrow> 's" and ack :: "'s \<Rightarrow> u16 \<Rightarrow> 's" and flight :: "'s \<Rightarrow> int"
    and represents :: "'s \<Rightarrow> int \<Rightarrow> int \<Rightarrow> bool" and reach :: int
  assumes flight_exact: "represents s n h \<Longrightarrow> flight s = n - h"
    and adv_represents: "represents s n h \<Longrightarrow> n + 1 - h \<le> reach \<Longrightarrow> represents (adv s) (n + 1) h"
    and ack_represents: "represents s n h \<Longrightarrow> q \<le> n \<Longrightarrow> n - q \<le> reach \<Longrightarrow>
      represents (ack s (to_u16 q)) n (max h q)"
begin

lemma run_represents:
  "represents s n h \<Longrightarrow> window_ok reach es n h \<Longrightarrow>
   represents (foldl (\<lambda>s e. case e of Advance \<Rightarrow> adv s | Acknowledge q \<Rightarrow> ack s (to_u16 q)) s es)
     (window_sent es n) (window_high es h)"
  by (induction es arbitrary: s n h)
    (auto simp: adv_represents ack_represents split: window_event.splits)

lemma run_flight:
  "represents s n h \<Longrightarrow> window_ok reach es n h \<Longrightarrow>
   flight (foldl (\<lambda>s e. case e of Advance \<Rightarrow> adv s | Acknowledge q \<Rightarrow> ack s (to_u16 q)) s es) =
     window_sent es n - window_high es h"
  using run_represents flight_exact by blast

end

definition window_rep :: "ping_rts \<Rightarrow> int \<Rightarrow> int \<Rightarrow> bool" where
  "window_rep rts n h \<longleftrightarrow>
     ntransmitted rts = n \<and> acked rts = to_u16 h \<and> h \<le> n \<and> n - h \<le> 0x7FFF"

text \<open>Differences of 16-bit values that stand for numbers less than \<open>2^15\<close> apart.\<close>

lemma uint_to_u16_diff:
  assumes "0 \<le> a - b" "a - b \<le> 0x7FFF"
  shows "uint (to_u16 a - to_u16 b) = a - b"
proof -
  have "to_u16 a - to_u16 b = to_u16 (a - b)" by (simp add: to_u16_def)
  with assms show ?thesis by (simp add: uint_to_u16)
qed

lemma int_diff_to_u16:
  assumes "0 \<le> a - b" "a - b \<le> 0x7FFF"
  shows "uint (to_u16 a) - uint (to_u16 b) \<le> 0x7FFF"
proof -
  have "uint (to_u16 a) \<le> uint (to_u16 b) + (a - b)"
    using zmod_le_nonneg_dividend [of "b mod 65536 + (a - b)" 65536] assms
      mod_add_left_eq [of b 65536 "a - b"]
    by (simp add: uint_to_u16)
  with assms show ?thesis by linarith
qed

lemma to_int16_diff:
  assumes "\<bar>a - b\<bar> \<le> 0x7FFF"
  shows "to_int16 (uint (to_u16 a) - uint (to_u16 b)) = a - b"
proof -
  have "(word_of_int (uint (to_u16 a) - uint (to_u16 b)) :: u16) = word_of_int (a - b)"
    by (simp add: to_u16_def)
  then have "to_int16 (uint (to_u16 a) - uint (to_u16 b)) = to_int16 (a - b)"
    by (simp only: to_int16_def)
  with assms show ?thesis by (simp add: abs_le_iff)
qed

interpretation win: flight_window advance_ntransmitted acknowledge in_flight window_rep "0x7FFF"
proof
  fix s :: ping_rts and n h q :: int
  assume rep: "window_rep s n h"
  then show "in_flight s = n - h"
    by (simp add: window_rep_def in_flight_def uint_to_u16_diff Let_def)
  show "window_rep (advance_ntransmitted s) (n + 1) h" if "n + 1 - h \<le> 0x7FFF"
    using rep that int_diff_to_u16 [of "n + 1" h]
    by (auto simp: window_rep_def advance_ntransmitted_def Let_def)
  show "window_rep (acknowledge s (to_u16 q)) n (max h q)" if "q \<le> n" "n - q \<le> 0x7FFF"
  proof -
    have "to_int16 (uint (to_u16 q) - uint (to_u16 h)) = q - h"
      using rep that by (intro to_int16_diff) (auto simp: window_rep_def)
    then show ?thesis
      using rep that int_diff_to_u16 [of n h]
      by (auto simp: window_rep_def acknowledge_def uint_to_u16_diff Let_def max_def)
  qed
qed

subsection \<open>Subtraction of times\<close>

definition tvsub :: "timeval \<Rightarrow> timeval \<Rightarrow> timeval" where
  "tvsub out inp =
     (let usec = tv_usec out - tv_usec inp;
          out' = (if usec < 0 then out\<lparr>tv_sec := tv_sec out - 1, tv_usec := usec + 1000000\<rparr>
                  else out\<lparr>tv_usec := usec\<rparr>)
      in out'\<lparr>tv_sec := tv_sec out' - tv_sec inp\<rparr>)"

definition tssub :: "timespec \<Rightarrow> timespec \<Rightarrow> timespec" where
  "tssub out inp =
     (let nsec = ts_nsec out - ts_nsec inp;
          out' = (if nsec < 0 then out\<lparr>ts_sec := ts_sec out - 1, ts_nsec := nsec + 1000000000\<rparr>
                  else out\<lparr>ts_nsec := nsec\<rparr>)
      in out'\<lparr>ts_sec := ts_sec out' - ts_sec inp\<rparr>)"

definition usecs :: "timeval \<Rightarrow> int" where
  "usecs t = 1000000 * tv_sec t + tv_usec t"

definition nsecs :: "timespec \<Rightarrow> int" where
  "nsecs t = 1000000000 * ts_sec t + ts_nsec t"

lemma usecs_tvsub: "usecs (tvsub a b) = usecs a - usecs b"
  by (simp add: usecs_def tvsub_def Let_def)

lemma nsecs_tssub: "nsecs (tssub a b) = nsecs a - nsecs b"
  by (simp add: nsecs_def tssub_def Let_def)

lemma tvsub_normal:
  "0 \<le> tv_usec a \<Longrightarrow> tv_usec a < 1000000 \<Longrightarrow> 0 \<le> tv_usec b \<Longrightarrow> tv_usec b < 1000000 \<Longrightarrow>
   0 \<le> tv_usec (tvsub a b) \<and> tv_usec (tvsub a b) < 1000000"
  by (simp add: tvsub_def Let_def)

subsection \<open>What the sender relies on\<close>

text \<open>The two operations as events on the state.\<close>

definition window_step :: "ping_rts \<Rightarrow> window_event \<Rightarrow> ping_rts" where
  "window_step rts e =
     (case e of Advance \<Rightarrow> advance_ntransmitted rts | Acknowledge q \<Rightarrow> acknowledge rts (to_u16 q))"


text \<open>The window wraps here: the highest acknowledged probe is number 65533.\<close>

definition wrap_rts :: ping_rts where
  "wrap_rts = initial_rts\<lparr>ntransmitted := 65535, acked := 65533\<rparr>"


text \<open>
  With more unanswered probes than the window holds, the invalidation in
  \<open>advance_ntransmitted\<close> sets \<open>acked\<close> one past the last probe, so the 16-bit difference is -1
  and \<open>in_flight\<close> uses the counters; but the next probe makes the difference 0: the code then
  takes nothing to be in flight although no probe was answered.
\<close>

theorem in_flight_forgets:
  assumes "acked rts = to_u16 h" "ntransmitted rts = h + 0x7FFF" "0 \<le> h" "h mod 65536 < 0x7FFF"
  shows "in_flight (foldl window_step rts [Advance, Advance]) = 0"
proof -
  define r1 where "r1 = advance_ntransmitted rts"
  have to16: "uint (to_u16 x) = x mod 65536" for x by (rule uint_to_u16)
  have "(h + 0x7FFF + 1) mod 65536 = h mod 65536 + 0x8000"
    using assms(3,4) mod_add_left_eq [of h 65536 "0x8000"] by (simp add: add.assoc)
  moreover have "to_u16 (32769 + h mod 65536) = to_u16 (h + 32769)"
    by (simp add: word_uint_eq_iff to16 mod_simps add.commute)
  ultimately have r1: "acked r1 = to_u16 (ntransmitted r1 + 1)"
    using assms by (simp add: r1_def advance_ntransmitted_def Let_def to16 add.commute)
  then have "advance_ntransmitted r1 = r1\<lparr>ntransmitted := ntransmitted r1 + 1\<rparr>"
    by (simp add: advance_ntransmitted_def Let_def)
  with r1 show ?thesis
    by (simp add: window_step_def r1_def [symmetric] in_flight_def Let_def)
qed

theorem in_flight_forgets_witness:
  "in_flight (foldl window_step (initial_rts\<lparr>ntransmitted := 0x7FFF\<rparr>) [Advance, Advance]) = 0"
  using in_flight_forgets [of "initial_rts\<lparr>ntransmitted := 0x7FFF\<rparr>" 0]
  by (simp add: initial_rts_def rts_with_def to_u16_def)

end
