(* ===== verification/C_Double.thy ===== *)
theory C_Double
  imports Prelude
begin

text \<open>
  The C type \<open>double\<close> (IEEE 754 binary64) as the program uses it: sums of round trip times,
  their squares, and the averages made of them.  A finite double is represented by its
  exact rational value; every arithmetic operation rounds its exact result to the nearest
  value with a 53-bit mantissa, ties to even.  Overflow and subnormal numbers are outside
  the range the program reaches (its values are 0 or have magnitude between 1 divided by
  a packet count and about \<open>2^126\<close>), so the exponent is not bounded in the model.
\<close>

subsection \<open>Rounding to 53 bits\<close>

text \<open>The position of the leading bit: \<open>2 powi ilog2 q \<le> q < 2 powi (ilog2 q + 1)\<close>.\<close>

definition ilog2 :: "rat \<Rightarrow> int" where
  "ilog2 q = (let (n, d) = quotient_of q; k = bitlen n - bitlen d
              in if 2 powi k \<le> q then k else k - 1)"

definition round_half_even :: "rat \<Rightarrow> int" where
  "round_half_even x =
     (let f = floor x; r = x - of_int f
      in if r < 1 / 2 then f else if r > 1 / 2 then f + 1 else if even f then f else f + 1)"

definition rnd_pos :: "int \<Rightarrow> rat \<Rightarrow> rat" where
  "rnd_pos p q = (let u = 2 powi (ilog2 q - (p - 1)) in of_int (round_half_even (q / u)) * u)"

definition rnd_to :: "int \<Rightarrow> rat \<Rightarrow> rat" where
  "rnd_to p q = (if q = 0 then 0 else if q < 0 then - rnd_pos p (- q) else rnd_pos p q)"

abbreviation rnd :: "rat \<Rightarrow> rat" where "rnd \<equiv> rnd_to 53"

text \<open>The operations of the type, and the conversion to an integer type (truncation).\<close>

definition d_of_int :: "int \<Rightarrow> rat" where "d_of_int i = rnd (of_int i)"
definition d_add :: "rat \<Rightarrow> rat \<Rightarrow> rat" where "d_add x y = rnd (x + y)"
definition d_sub :: "rat \<Rightarrow> rat \<Rightarrow> rat" where "d_sub x y = rnd (x - y)"
definition d_mul :: "rat \<Rightarrow> rat \<Rightarrow> rat" where "d_mul x y = rnd (x * y)"
definition d_div :: "rat \<Rightarrow> rat \<Rightarrow> rat" where "d_div x y = rnd (x / y)"

definition d_to_int :: "rat \<Rightarrow> int" where
  "d_to_int x = (if x < 0 then - floor (- x) else floor x)"

lemma ilog2_bounds:
  assumes "0 < q"
  shows "2 powi ilog2 q \<le> q" "q < 2 powi (ilog2 q + 1)"
proof -
  obtain n d where nd: "quotient_of q = (n, d)" by force
  then have d: "0 < d" and q: "q = of_int n / of_int d"
    by (auto simp: quotient_of_denom_pos quotient_of_div)
  with assms have n: "0 < n" by (simp add: zero_less_divide_iff)
  have pow: "(2::rat) ^ nat k = 2 powi k" if "0 \<le> k" for k
    using that by (simp add: power_int_def)
  have bn: "1 \<le> bitlen n" and bd: "1 \<le> bitlen d"
    using n d by (simp_all add: bitlen_alt_def)
  have cast: "(2::rat) ^ k = of_int (2 ^ k)" for k by simp
  have N: "2 powi (bitlen n - 1) \<le> (of_int n :: rat)" "(of_int n :: rat) < 2 powi bitlen n"
    using bitlen_bounds [OF n] bn by (simp_all add: pow [symmetric] cast del: of_int_power)
  have D: "2 powi (bitlen d - 1) \<le> (of_int d :: rat)" "(of_int d :: rat) < 2 powi bitlen d"
    using bitlen_bounds [OF d] bd by (simp_all add: pow [symmetric] cast del: of_int_power)
  define k where "k = bitlen n - bitlen d"
  have "2 powi (k - 1) * (of_int d :: rat) \<le> 2 powi (k - 1) * 2 powi bitlen d"
    using D(2) by (intro mult_left_mono) simp_all
  also have "\<dots> = (2 powi (bitlen n - 1) :: rat)" by (simp add: k_def flip: power_int_add)
  also have "\<dots> \<le> of_int n" by (rule N(1))
  finally have lo: "2 powi (k - 1) \<le> q" using d by (simp add: q le_divide_eq)
  have "(of_int n :: rat) < 2 powi bitlen n" by (rule N(2))
  also have "\<dots> = 2 powi (k + 1) * 2 powi (bitlen d - 1)" by (simp add: k_def flip: power_int_add)
  also have "\<dots> \<le> 2 powi (k + 1) * of_int d" using D(1) by (intro mult_left_mono) simp_all
  finally have hi: "q < 2 powi (k + 1)" using d by (simp add: q divide_less_eq)
  have il: "ilog2 q = (if 2 powi k \<le> q then k else k - 1)"
    by (simp add: ilog2_def nd k_def)
  show "2 powi ilog2 q \<le> q" "q < 2 powi (ilog2 q + 1)"
    using lo hi by (auto simp: il)
qed

lemma round_half_even_ge: "of_int i \<le> x \<Longrightarrow> i \<le> round_half_even x"
  by (simp add: round_half_even_def Let_def le_floor_iff)
    (use le_floor_iff [of i x] in linarith)

lemma round_half_even_le:
  assumes "x \<le> of_int i"
  shows "round_half_even x \<le> i"
proof (cases "of_int (floor x) = x")
  case True
  then show ?thesis using assms by (simp add: round_half_even_def Let_def floor_le_iff)
next
  case False
  then have "of_int (floor x) < x" using of_int_floor_le [of x] le_neq_trans by blast
  then have "of_int (floor x) < (of_int i :: rat)" using assms by simp
  then have "floor x < i" by simp
  then show ?thesis by (simp add: round_half_even_def Let_def)
qed

text \<open>
  Below \<open>2^p\<close> the rounding unit divides 1, so rounding never crosses an integer: an integer
  below (above) the exact value is below (above) the rounded one, and integers are exact.
\<close>

lemma rnd_unit:
  assumes "0 < q" "q < 2 ^ p" "0 < p"
  obtains k :: nat where "rnd_pos (int p) q = of_int (round_half_even (q * 2 ^ k)) / 2 ^ k"
proof -
  define l where "l = ilog2 q"
  have "l \<le> int p - 1"
  proof (rule ccontr)
    assume "\<not> l \<le> int p - 1"
    then have "(2::rat) powi int p \<le> 2 powi l" by (intro power_int_increasing) simp_all
    with ilog2_bounds [OF \<open>0 < q\<close>] assms(2) show False by (simp add: l_def)
  qed
  then have "(2::rat) powi (l - (int p - 1)) = 1 / 2 ^ nat (int p - 1 - l)"
    by (simp add: power_int_def inverse_eq_divide power_one_over)
  then have "rnd_pos (int p) q =
      of_int (round_half_even (q * 2 ^ nat (int p - 1 - l))) / 2 ^ nat (int p - 1 - l)"
    by (simp add: rnd_pos_def Let_def l_def)
  then show thesis by (rule that)
qed

lemma rnd_pos_ge:
  assumes "0 < q" "q < 2 ^ p" "0 < p" "of_int i \<le> q"
  shows "of_int i \<le> rnd_pos (int p) q"
proof -
  obtain k :: nat where k: "rnd_pos (int p) q = of_int (round_half_even (q * 2 ^ k)) / 2 ^ k"
    using rnd_unit assms by blast
  have "(of_int (i * 2 ^ k) :: rat) \<le> q * 2 ^ k" using assms(4) by simp
  then have "i * 2 ^ k \<le> round_half_even (q * 2 ^ k)" by (rule round_half_even_ge)
  then have "(of_int (i * 2 ^ k) :: rat) \<le> of_int (round_half_even (q * 2 ^ k))"
    by (simp only: of_int_le_iff)
  then show ?thesis by (simp add: k le_divide_eq)
qed

lemma rnd_pos_le:
  assumes "0 < q" "q < 2 ^ p" "0 < p" "q \<le> of_int i"
  shows "rnd_pos (int p) q \<le> of_int i"
proof -
  obtain k :: nat where k: "rnd_pos (int p) q = of_int (round_half_even (q * 2 ^ k)) / 2 ^ k"
    using rnd_unit assms by blast
  have "q * 2 ^ k \<le> (of_int (i * 2 ^ k) :: rat)" using assms(4) by simp
  then have "round_half_even (q * 2 ^ k) \<le> i * 2 ^ k" by (rule round_half_even_le)
  then have "(of_int (round_half_even (q * 2 ^ k)) :: rat) \<le> of_int (i * 2 ^ k)"
    by (simp only: of_int_le_iff)
  then show ?thesis by (simp add: k divide_le_eq)
qed

lemma rnd_ge: "0 \<le> q \<Longrightarrow> q < 2 ^ 53 \<Longrightarrow> of_int i \<le> q \<Longrightarrow> of_int i \<le> rnd q"
  using rnd_pos_ge [of q 53 i] by (auto simp: rnd_to_def)

lemma rnd_le: "0 \<le> q \<Longrightarrow> q < 2 ^ 53 \<Longrightarrow> q \<le> of_int i \<Longrightarrow> rnd q \<le> of_int i"
  using rnd_pos_le [of q 53 i] by (auto simp: rnd_to_def)

text \<open>Scaling by a power of 2 commutes with rounding; so the bounds hold for fractions, too.\<close>

lemma ilog2_unique:
  assumes "0 < q" "2 powi k \<le> q" "q < 2 powi (k + 1)"
  shows "ilog2 q = k"
proof -
  have "(2::rat) powi k < 2 powi (ilog2 q + 1)" "(2::rat) powi ilog2 q < 2 powi (k + 1)"
    using ilog2_bounds [OF assms(1)] assms by (auto intro: le_less_trans)
  then have "k < ilog2 q + 1" "ilog2 q < k + 1"
    using power_int_increasing [of "ilog2 q + 1" k "2 :: rat"] power_int_increasing [of "k + 1" "ilog2 q" "2 :: rat"]
    by (force simp: not_le [symmetric])+
  then show ?thesis by simp
qed

lemma rnd_scale:
  assumes "0 \<le> q"
  shows "rnd (q * 2 ^ n) = rnd q * 2 ^ n"
proof (cases "q = 0")
  case False
  then have q: "0 < q" using assms by simp
  have pow: "2 powi (k + int n) = 2 powi k * (2 ^ n :: rat)" for k by (simp add: power_int_add)
  have "ilog2 (q * 2 ^ n) = ilog2 q + int n"
    using ilog2_bounds [OF q] q
    by (intro ilog2_unique) (simp_all add: pow add.commute [of "int n"] add.assoc [symmetric] power_int_add)
  then have "2 powi (ilog2 (q * 2 ^ n) - 52) = 2 powi (ilog2 q - 52) * (2 ^ n :: rat)"
    using pow [of "ilog2 q - 52"] by (simp add: algebra_simps)
  moreover have "0 < q * 2 ^ n" using q by simp
  moreover from this have "\<not> q * 2 ^ n < 0" unfolding not_less by (rule less_imp_le)
  ultimately show ?thesis using q by (simp add: rnd_to_def rnd_pos_def Let_def)
qed (simp add: rnd_to_def)

lemma rnd_le_fraction:
  assumes "0 \<le> q" "q < 2 ^ 32" "q \<le> of_int i / 2 ^ 20"
  shows "rnd q \<le> of_int i / 2 ^ 20"
proof -
  have "rnd (q * 2 ^ 20) \<le> of_int i" using assms by (intro rnd_le) (simp_all add: field_simps)
  then show ?thesis using assms by (simp add: rnd_scale [of q 20] field_simps del: power_numeral)
qed

text \<open>Conversion to \<open>float\<close> (24 bits).\<close>

definition f_of_d :: "rat \<Rightarrow> rat" where "f_of_d x = rnd_to 24 x"

lemma f_of_d_ge: "0 \<le> q \<Longrightarrow> q < 2 ^ 24 \<Longrightarrow> of_int i \<le> q \<Longrightarrow> of_int i \<le> f_of_d q"
  using rnd_pos_ge [of q 24 i] by (auto simp: rnd_to_def f_of_d_def)

lemma f_of_d_le: "0 \<le> q \<Longrightarrow> q < 2 ^ 24 \<Longrightarrow> q \<le> of_int i \<Longrightarrow> f_of_d q \<le> of_int i"
  using rnd_pos_le [of q 24 i] by (auto simp: rnd_to_def f_of_d_def)

lemma rnd_of_int [simp]: "0 \<le> i \<Longrightarrow> i < 2 ^ 53 \<Longrightarrow> rnd (of_int i) = of_int i"
proof -
  assume i: "0 \<le> i" "i < 2 ^ 53"
  then have "(of_int i :: rat) < of_int (2 ^ 53)" by (simp only: of_int_less_iff)
  then have "(of_int i :: rat) < 2 ^ 53" by simp
  with i show ?thesis by (intro antisym rnd_le rnd_ge) simp_all
qed

lemma d_of_int_exact [simp]: "0 \<le> i \<Longrightarrow> i < 2 ^ 53 \<Longrightarrow> d_of_int i = of_int i"
  by (simp add: d_of_int_def)

lemma d_add_exact:
  "0 \<le> i + j \<Longrightarrow> i + j < 2 ^ 53 \<Longrightarrow> d_add (of_int i) (of_int j) = of_int (i + j)"
  unfolding d_add_def of_int_add [symmetric] by (rule rnd_of_int)

lemma d_to_int_of_int [simp]: "d_to_int (of_int i) = i"
  by (simp add: d_to_int_def)

lemma d_to_int_ge: "0 \<le> i \<Longrightarrow> of_int i \<le> x \<Longrightarrow> i \<le> d_to_int x"
  by (auto simp: d_to_int_def le_floor_iff)

lemma d_to_int_le: "0 \<le> x \<Longrightarrow> x \<le> of_int i \<Longrightarrow> d_to_int x \<le> i"
  by (auto simp: d_to_int_def floor_le_iff)

lemma rnd_pos_positive:
  assumes "0 < q" "1 \<le> p"
  shows "0 < rnd_pos p q"
proof -
  define u :: rat where "u = 2 powi (ilog2 q - (p - 1))"
  have u: "0 < u" by (simp add: u_def)
  have "u \<le> 2 powi ilog2 q" using assms(2) by (simp add: u_def power_int_increasing)
  also have "\<dots> \<le> q" using assms(1) by (rule ilog2_bounds)
  finally have "of_int 1 \<le> q / u" using u by (simp add: le_divide_eq)
  then have "1 \<le> round_half_even (q / u)" by (rule round_half_even_ge)
  then show ?thesis using u by (simp add: rnd_pos_def u_def [symmetric])
qed

lemma rnd_to_eq_0_iff [simp]: "1 \<le> p \<Longrightarrow> rnd_to p q = 0 \<longleftrightarrow> q = 0"
  using rnd_pos_positive [of q p] rnd_pos_positive [of "- q" p] by (auto simp: rnd_to_def)

subsection \<open>The conversion \<open>%g\<close>\<close>

text \<open>
  \<open>%g\<close> prints six significant digits without trailing zeros, in positional notation when the
  decimal exponent is between -4 and 5 and with an exponent otherwise.
\<close>

definition ilog10 :: "rat \<Rightarrow> int" where
  "ilog10 q = (let (n, d) = quotient_of q;
                   k = int (length (nat_digits 10 (nat n))) - int (length (nat_digits 10 (nat d)))
               in if 10 powi k \<le> q then k else k - 1)"

definition strip_zeros :: "string \<Rightarrow> string" where
  "strip_zeros s = rev (dropWhile (\<lambda>c. c = CHR ''0'') (rev s))"

text \<open>The digits before and after the point of \<open>m * 10^(-k)\<close>, without trailing zeros.\<close>

definition fmt_fraction :: "int \<Rightarrow> nat \<Rightarrow> string" where
  "fmt_fraction m k =
     (let frac = strip_zeros (fmt_0d k (m mod 10 ^ k))
      in fmt_d (m div 10 ^ k) @ (if k = 0 \<or> frac = [] then [] else CHR ''.'' # frac))"

definition fmt_g_pos :: "rat \<Rightarrow> string" where
  "fmt_g_pos q =
     (let x0 = ilog10 q;
          m0 = round_half_even (q * 10 powi (5 - x0));
          (x, m) = (if m0 = 1000000 then (x0 + 1, 100000) else (x0, m0))
      in if - 4 \<le> x \<and> x < 6 then fmt_fraction m (nat (5 - x))
         else fmt_fraction m 5 @ (if x < 0 then ''e-'' else ''e+'') @ fmt_0d 2 \<bar>x\<bar>)"

definition fmt_g :: "rat \<Rightarrow> string" where
  "fmt_g q = (if q = 0 then ''0'' else if q < 0 then CHR ''-'' # fmt_g_pos (- q) else fmt_g_pos q)"

end
