(* ===== verification/Ping_Json.thy ===== *)
theory Ping_Json
  imports Ping_State C_Double
begin

text \<open>
  \<open>ping/ping_json.c\<close>: JSON text is built piece by piece with \<open>snprintf\<close> at the end of a
  buffer of \<open>PING_JSON_MAX\<close> bytes, whose fill level the code keeps in \<open>size\<close>.  A function
  here maps the state to the new state, or to \<open>Exit 1\<close> (\<open>json_emergency\<close>), or to
  \<open>Undefined\<close> when the code would write outside the buffer.
\<close>

definition PING_JSON_MAX :: nat where "PING_JSON_MAX = 4000"

subsection \<open>Writing at the end of a buffer\<close>

definition json_emergency :: "string \<Rightarrow> 'a result" where
  "json_emergency msg = error_c 1 0 msg (stop_with Abort)"

definition json_bufsize :: "ping_json_buffer \<Rightarrow> nat \<Rightarrow> ping_json_buffer result" where
  "json_bufsize b n =
     (if n \<ge> PING_JSON_MAX then json_emergency ''Overflow during JSON construction''
      else ret (b\<lparr>jb_size := jb_size b + n\<rparr>))"

text \<open>
  \<open>snprintf (object + size, PING_JSON_MAX - size, ...)\<close>: with room left the text is cut to
  the room; with \<open>size = PING_JSON_MAX\<close> the limit is 0 and nothing is written; beyond it the
  unsigned subtraction wraps and the write lands outside the buffer.
\<close>

definition json_append :: "ping_json_buffer \<Rightarrow> string \<Rightarrow> ping_json_buffer result" where
  "json_append b txt =
     (if jb_size b > PING_JSON_MAX then stop_with Undefined
      else json_bufsize
        (if jb_size b < PING_JSON_MAX
         then b\<lparr>jb_object := take (jb_size b) (jb_object b) @ snprintf_text (PING_JSON_MAX - jb_size b) txt\<rparr>
         else b)
        (length txt))"

definition json_end_array :: "ping_json_buffer \<Rightarrow> ping_json_buffer result" where
  "json_end_array b = json_append b '']''"

text \<open>\<open>json_start_object\<close> writes at the start of the buffer, not at \<open>size\<close>.\<close>

definition json_start_object :: "ping_json_buffer \<Rightarrow> ping_json_buffer result" where
  "json_start_object b =
     (if jb_size b > PING_JSON_MAX then stop_with Undefined
      else json_bufsize
        (if jb_size b < PING_JSON_MAX
         then b\<lparr>jb_object := snprintf_text (PING_JSON_MAX - jb_size b) ''{''\<rparr> else b) 1)"

definition json_end_object :: "ping_json_buffer \<Rightarrow> ping_json_buffer result" where
  "json_end_object b = json_append b ''}''"

definition json_continue :: "ping_json_buffer \<Rightarrow> ping_json_buffer result" where
  "json_continue b = json_append b '', ''"

definition quoted :: "string \<Rightarrow> string" where
  "quoted s = CHR 0x22 # s @ [CHR 0x22]"

definition json_kv_str :: "ping_json_buffer \<Rightarrow> string \<Rightarrow> string \<Rightarrow> ping_json_buffer result" where
  "json_kv_str b key val = json_append b (quoted key @ '': '' @ quoted val)"

definition json_kv_str_continue :: "ping_json_buffer \<Rightarrow> string \<Rightarrow> string \<Rightarrow> ping_json_buffer result" where
  "json_kv_str_continue b key val = and_then (json_kv_str b key val) json_continue"

definition json_kv_int :: "ping_json_buffer \<Rightarrow> string \<Rightarrow> int \<Rightarrow> ping_json_buffer result" where
  "json_kv_int b key val = json_append b (quoted key @ '': '' @ fmt_d val)"

definition json_kv_uint :: "ping_json_buffer \<Rightarrow> string \<Rightarrow> u32 \<Rightarrow> ping_json_buffer result" where
  "json_kv_uint b key val = json_append b (quoted key @ '': '' @ fmt_d (uint val))"

definition json_kv_int_continue :: "ping_json_buffer \<Rightarrow> string \<Rightarrow> int \<Rightarrow> ping_json_buffer result" where
  "json_kv_int_continue b key val = and_then (json_kv_int b key val) json_continue"

text \<open>
  The elements of an array are the remaining arguments of a call with a variable number of
  them, up to a null pointer (\<open>None\<close>).  \<open>va_arg\<close> past the last argument is undefined.
\<close>

fun json_array_items :: "ping_json_buffer \<Rightarrow> nat \<Rightarrow> string option list \<Rightarrow> ping_json_buffer result" where
  "json_array_items b count [] = stop_with Undefined"
| "json_array_items b count (None # vs) = ret b"
| "json_array_items b count (Some v # vs) =
     and_then (if count > 0 then json_continue b else ret b)
       (\<lambda>b. and_then (json_append b (quoted v)) (\<lambda>b. json_array_items b (count + 1) vs))"

definition json_kv_array :: "ping_json_buffer \<Rightarrow> string \<Rightarrow> string option list \<Rightarrow> ping_json_buffer result" where
  "json_kv_array b key vals =
     and_then (json_append b (quoted key @ '': ['')) (\<lambda>b.
     and_then (json_array_items b 0 vals) json_end_array)"

definition json_kv_object :: "ping_json_buffer \<Rightarrow> string \<Rightarrow> ping_json_buffer \<Rightarrow> ping_json_buffer result" where
  "json_kv_object b key val =
     and_then (json_end_object val) (\<lambda>val. json_append b (quoted key @ '': '' @ jb_object val))"

subsection \<open>Packets\<close>

text \<open>The variable argument of \<open>construct_json\<close>, with the type tag that selects how it is read.\<close>

datatype ping_json_value =
  PING_JSON_STR string | PING_JSON_INT int | PING_JSON_ARR "string option list" | PING_JSON_UINT u32

definition json_kv :: "ping_json_buffer \<Rightarrow> string \<Rightarrow> ping_json_value \<Rightarrow> ping_json_buffer result" where
  "json_kv b key v =
     (case v of PING_JSON_ARR vs \<Rightarrow> json_kv_array b key vs
      | PING_JSON_STR s \<Rightarrow> json_kv_str b key s
      | PING_JSON_INT i \<Rightarrow> json_kv_int b key i
      | PING_JSON_UINT u \<Rightarrow> json_kv_uint b key u)"

definition construct_json :: "ping_rts \<Rightarrow> string \<Rightarrow> ping_json_value \<Rightarrow> ping_rts result" where
  "construct_json rts key v =
     (if \<not> opt_json (opts rts) then ret rts
      else and_then
        (if jb_object (json_packet rts) \<noteq> [] then json_continue (json_packet rts)
         else json_start_object (json_packet rts))
        (\<lambda>b. and_then (json_kv b key v) (\<lambda>b. ret (rts\<lparr>json_packet := b\<rparr>))))"

definition json_reset :: "ping_json_buffer \<Rightarrow> ping_json_buffer" where
  "json_reset b = b\<lparr>jb_object := [], jb_size := 0\<rparr>"

definition print_json_packet :: "ping_rts \<Rightarrow> ping_rts result" where
  "print_json_packet rts =
     (if opt_json (opts rts) \<and> jb_object (json_packet rts) \<noteq> []
      then print (jb_object (json_packet rts) @ ''}'' @ [CHR 0x0A])
             (ret (rts\<lparr>json_packet := json_reset (json_packet rts)\<rparr>))
      else ret rts)"

text \<open>
  \<open>strerror\<close> is the C library's.  The call with an array passes the two strings and no null
  pointer after them.
\<close>

definition construct_json_error :: "(int \<Rightarrow> string) \<Rightarrow> ping_rts \<Rightarrow> int \<Rightarrow> string option \<Rightarrow> ping_rts result" where
  "construct_json_error strerror rts errnum errmsg =
     (if errnum < 0 then json_emergency ''Unable to process errnum for JSON construction''
      else and_then
        (case errmsg of
           Some msg \<Rightarrow> if errnum = 0 then construct_json rts ''error'' (PING_JSON_STR msg)
                       else construct_json rts ''error'' (PING_JSON_ARR [Some msg, Some (strerror errnum)])
         | None \<Rightarrow> construct_json rts ''error'' (PING_JSON_STR (strerror errnum)))
        print_json_packet)"

subsection \<open>Statistics\<close>

text \<open>
  The loss is a percentage computed in \<open>double\<close>, rounded to \<open>float\<close> and passed as \<open>int\<close>, the run time is given in
  milliseconds.  With no packet sent the division is 0 by 0 and its conversion to \<open>int\<close> is not
  defined; the code's caller prints statistics only after a reply, so \<open>ntransmitted\<close> is positive.
\<close>

definition loss_percent :: "ping_rts \<Rightarrow> rat" where
  "loss_percent rts =
     f_of_d (d_div (d_mul (d_of_int (ntransmitted rts - nreceived rts)) 100) (d_of_int (ntransmitted rts)))"

definition json_loss :: "ping_rts \<Rightarrow> int" where
  "json_loss rts = d_to_int (loss_percent rts)"

definition json_time :: "timespec \<Rightarrow> int" where
  "json_time tv = to_int32 (1000 * ts_sec tv + (ts_nsec tv + 500000) sdiv 1000000)"

definition json_rtt_object ::
    "string \<Rightarrow> string \<Rightarrow> string \<Rightarrow> string \<Rightarrow> ping_json_buffer result" where
  "json_rtt_object rttmin rttavg rttmax rttmdev =
     and_then (json_start_object \<lparr>jb_size = 0, jb_object = []\<rparr>) (\<lambda>j.
     and_then (json_kv_str_continue j ''min'' rttmin) (\<lambda>j.
     and_then (json_kv_str_continue j ''avg'' rttavg) (\<lambda>j.
     and_then (json_kv_str_continue j ''max'' rttmax) (\<lambda>j.
     json_kv_str j ''mdev'' rttmdev))))"

definition construct_json_statistics ::
    "ping_rts \<Rightarrow> timespec \<Rightarrow> string \<Rightarrow> string \<Rightarrow> string \<Rightarrow> string \<Rightarrow> ping_rts result" where
  "construct_json_statistics rts tv rttmin rttavg rttmax rttmdev =
     (if \<not> opt_json (opts rts) then ret rts else
      and_then (if jb_object (json_stats rts) \<noteq> [] then json_continue (json_stats rts)
                else json_start_object (json_stats rts)) (\<lambda>b.
      and_then (json_kv_str_continue b ''host'' (hostname rts)) (\<lambda>b.
      and_then (json_kv_int_continue b ''transmitted'' (to_int32 (ntransmitted rts))) (\<lambda>b.
      and_then (json_kv_int_continue b ''received'' (to_int32 (nreceived rts))) (\<lambda>b.
      and_then (json_kv_int_continue b ''duplicates'' (to_int32 (nrepeats rts))) (\<lambda>b.
      and_then (json_kv_int_continue b ''corrupted'' (to_int32 (nchecksum rts))) (\<lambda>b.
      and_then (json_kv_int_continue b ''errors'' (to_int32 (nerrors rts))) (\<lambda>b.
      and_then (json_kv_int_continue b ''loss'' (json_loss rts)) (\<lambda>b.
      and_then (json_kv_int_continue b ''time'' (json_time tv)) (\<lambda>b.
      and_then (json_rtt_object rttmin rttavg rttmax rttmdev) (\<lambda>j.
      and_then (json_kv_object b ''rtt'' j) (\<lambda>b.
      and_then (if pipesize rts > 1
                then and_then (json_continue b) (\<lambda>b. json_kv_int_continue b ''pipe'' (pipesize rts))
                else ret b) (\<lambda>b.
      ret (rts\<lparr>json_stats := b\<rparr>))))))))))))))"

definition construct_json_statistics_flood :: "ping_rts \<Rightarrow> string \<Rightarrow> string \<Rightarrow> ping_rts result" where
  "construct_json_statistics_flood rts ipg ewma =
     (if \<not> opt_json (opts rts) \<or> jb_object (json_stats rts) = [] then ret rts
      else and_then (if nreceived rts \<noteq> 0 \<and> timing rts \<and> pipesize rts < 2
                     then json_continue (json_stats rts) else ret (json_stats rts)) (\<lambda>b.
           and_then (json_kv_str_continue b ''ipg'' ipg) (\<lambda>b.
           and_then (json_kv_str b ''ewma'' ewma) (\<lambda>b.
           ret (rts\<lparr>json_stats := b\<rparr>)))))"

definition print_json_statistics :: "ping_rts \<Rightarrow> ping_rts result" where
  "print_json_statistics rts =
     (if opt_json (opts rts) \<and> jb_object (json_stats rts) \<noteq> []
      then print (jb_object (json_stats rts) @ ''}'' @ [CHR 0x0A])
             (ret (rts\<lparr>json_stats := json_reset (json_stats rts)\<rparr>))
      else ret rts)"

subsection \<open>What the buffers hold\<close>

text \<open>
  The buffer's text has the recorded size as long as everything fitted, and is cut to
  \<open>PING_JSON_MAX - 1\<close> bytes otherwise.
\<close>

definition json_inv :: "ping_json_buffer \<Rightarrow> bool" where
  "json_inv b \<longleftrightarrow> length (jb_object b) = min (jb_size b) (PING_JSON_MAX - 1)"

definition jbuf :: "string \<Rightarrow> ping_json_buffer" where
  "jbuf s = \<lparr>jb_size = length s, jb_object = s\<rparr>"

lemma jbuf_simps [simp]:
  "jb_size (jbuf s) = length s" "jb_object (jbuf s) = s" "\<lparr>jb_size = 0, jb_object = []\<rparr> = jbuf []"
  "json_reset (jbuf s) = jbuf []"
  by (simp_all add: jbuf_def json_reset_def)

lemma jbuf_inject [simp]: "jbuf s = jbuf t \<longleftrightarrow> s = t"
  by (auto simp: jbuf_def)

lemma json_inv_jbuf: "json_inv b \<Longrightarrow> jb_size b < PING_JSON_MAX \<Longrightarrow> b = jbuf (jb_object b)"
  by (cases b) (auto simp: json_inv_def jbuf_def)

lemma snd_json_bufsize:
  "snd (json_bufsize b n) = (if n \<ge> PING_JSON_MAX then Inl (Exit 1) else Inr (b\<lparr>jb_size := jb_size b + n\<rparr>))"
  by (simp add: json_bufsize_def json_emergency_def error_c_def)

lemma json_append_inv:
  "json_inv b \<Longrightarrow> snd (json_append b txt) = Inr b' \<Longrightarrow> json_inv b'"
  by (auto simp: json_append_def snd_json_bufsize json_inv_def snprintf_text_def PING_JSON_MAX_def
      split: if_splits)

lemma json_append_fits [simp]:
  "length s + length txt < PING_JSON_MAX \<Longrightarrow> json_append (jbuf s) txt = ret (jbuf (s @ txt))"
  by (simp add: json_append_def json_bufsize_def snprintf_text_def jbuf_def del: jbuf_simps(3))

text \<open>A piece that is cut leaves a size beyond the buffer; the next write is outside it.\<close>

lemma json_append_overflow:
  assumes "length txt < PING_JSON_MAX" "PING_JSON_MAX < length s + length txt" "length s < PING_JSON_MAX"
  shows "and_then (json_append (jbuf s) txt) (\<lambda>b. json_append b txt') = stop_with Undefined"
proof -
  define s' where "s' = s @ snprintf_text (PING_JSON_MAX - length s) txt"
  have "json_append (jbuf s) txt = ret \<lparr>jb_size = length s + length txt, jb_object = s'\<rparr>"
    using assms by (simp add: json_append_def json_bufsize_def jbuf_def s'_def)
  then show ?thesis using assms(2) by (simp add: json_append_def)
qed

lemma json_start_object_jbuf [simp]: "json_start_object (jbuf []) = ret (jbuf ''{'')"
  by (simp add: json_start_object_def json_bufsize_def snprintf_text_def jbuf_def PING_JSON_MAX_def
      del: jbuf_simps(3))

lemma length_quoted [simp]: "length (quoted s) = length s + 2"
  by (simp add: quoted_def)

text \<open>The text of one key and value, of the members of an object, of the object.\<close>

fun render_items :: "string list \<Rightarrow> string" where
  "render_items [] = []"
| "render_items [v] = quoted v"
| "render_items (v # w # vs) = quoted v @ '', '' @ render_items (w # vs)"

definition terminated :: "string option list \<Rightarrow> bool" where
  "terminated vs \<longleftrightarrow> None \<in> set vs"

definition array_values :: "string option list \<Rightarrow> string list" where
  "array_values vs = map the (takeWhile (\<lambda>v. v \<noteq> None) vs)"

definition render_kv :: "string \<times> ping_json_value \<Rightarrow> string" where
  "render_kv kv = quoted (fst kv) @ '': '' @
     (case snd kv of PING_JSON_STR s \<Rightarrow> quoted s | PING_JSON_INT i \<Rightarrow> fmt_d i
      | PING_JSON_UINT u \<Rightarrow> fmt_d (uint u)
      | PING_JSON_ARR vs \<Rightarrow> ''['' @ render_items (array_values vs) @ '']'')"

fun render_members :: "(string \<times> ping_json_value) list \<Rightarrow> string" where
  "render_members [] = []"
| "render_members [kv] = render_kv kv"
| "render_members (kv # kw # kvs) = render_kv kv @ '', '' @ render_members (kw # kvs)"

definition well_terminated :: "ping_json_value \<Rightarrow> bool" where
  "well_terminated v \<longleftrightarrow> (case v of PING_JSON_ARR vs \<Rightarrow> terminated vs | _ \<Rightarrow> True)"

lemma json_array_items_fits:
  "terminated vs \<Longrightarrow>
   length s + length (if count > 0 \<and> array_values vs \<noteq> [] then '', '' else []) +
     length (render_items (array_values vs)) < PING_JSON_MAX \<Longrightarrow>
   json_array_items (jbuf s) count vs =
     ret (jbuf (s @ (if count > 0 \<and> array_values vs \<noteq> [] then '', '' else []) @
       render_items (array_values vs)))"
proof (induction vs arbitrary: s count)
  case (Cons w vs)
  show ?case
  proof (cases w)
    case None
    then show ?thesis by (simp add: array_values_def)
  next
    case (Some v)
  have tm: "terminated vs" and av: "array_values (w # vs) = v # array_values vs"
    using Cons.prems(1) Some by (simp_all add: terminated_def array_values_def)
  define sep :: string where "sep = (if count > 0 then '', '' else [])"
  have len: "length s + length sep + length (quoted v) +
      length (if array_values vs \<noteq> [] then '', '' else []) + length (render_items (array_values vs))
      < PING_JSON_MAX"
    using Cons.prems(2) by (cases "array_values vs") (simp_all add: av sep_def)
  have "(if count > 0 then json_continue (jbuf s) else ret (jbuf s)) = ret (jbuf (s @ sep))"
    using len by (simp add: sep_def json_continue_def)
  moreover have "json_array_items (jbuf ((s @ sep) @ quoted v)) (count + 1) vs =
    ret (jbuf ((s @ sep) @ quoted v @ (if array_values vs \<noteq> [] then '', '' else []) @
      render_items (array_values vs)))"
    using Cons.IH [of "(s @ sep) @ quoted v" "count + 1"] tm len by simp
  ultimately show ?thesis
    using len by (cases "array_values vs") (simp_all add: av [unfolded Some] sep_def Some)
  qed
qed (simp_all add: terminated_def array_values_def)

lemma json_kv_fits:
  "well_terminated v \<Longrightarrow> length s + length (render_kv (k, v)) < PING_JSON_MAX \<Longrightarrow>
   json_kv (jbuf s) k v = ret (jbuf (s @ render_kv (k, v)))"
  by (cases v) (simp_all add: json_kv_def render_kv_def json_kv_str_def json_kv_int_def
      json_kv_uint_def json_kv_array_def json_array_items_fits json_end_array_def well_terminated_def)

text \<open>A packet object: the members given by the calls of \<open>construct_json\<close> in their order.\<close>

primrec construct_all :: "(string \<times> ping_json_value) list \<Rightarrow> ping_rts \<Rightarrow> ping_rts result" where
  "construct_all [] rts = ret rts"
| "construct_all (kv # kvs) rts = and_then (construct_json rts (fst kv) (snd kv)) (construct_all kvs)"

definition with_packet :: "ping_rts \<Rightarrow> string \<Rightarrow> ping_rts" where
  "with_packet rts s = rts\<lparr>json_packet := jbuf s\<rparr>"

lemma with_packet_simps [simp]:
  "json_packet (with_packet rts s) = jbuf s" "opts (with_packet rts s) = opts rts"
  "(with_packet rts s)\<lparr>json_packet := jbuf t\<rparr> = with_packet rts t"
  "with_packet (with_packet rts s) t = with_packet rts t"
  "rts\<lparr>json_packet := jbuf t\<rparr> = with_packet rts t"
  by (simp_all add: with_packet_def)

lemma construct_json_fits:
  assumes "opt_json (opts rts)" "well_terminated v"
    "length (if s = [] then ''{'' else s @ '', '') + length (render_kv (k, v)) < PING_JSON_MAX"
  shows "construct_json (with_packet rts s) k v =
    ret (with_packet rts ((if s = [] then ''{'' else s @ '', '') @ render_kv (k, v)))"
  using assms by (simp add: construct_json_def json_continue_def json_kv_fits split: if_splits)

lemma render_members_Cons: "kvs \<noteq> [] \<Longrightarrow> render_members (kv # kvs) = render_kv kv @ '', '' @ render_members kvs"
  by (cases kvs) simp_all

lemma construct_all_fits:
  "opt_json (opts rts) \<Longrightarrow> \<forall>kv \<in> set kvs. well_terminated (snd kv) \<Longrightarrow> kvs \<noteq> [] \<Longrightarrow>
   length (if s = [] then ''{'' else s @ '', '') + length (render_members kvs) < PING_JSON_MAX \<Longrightarrow>
   construct_all kvs (with_packet rts s) =
     ret (with_packet rts ((if s = [] then ''{'' else s @ '', '') @ render_members kvs))"
proof (induction kvs arbitrary: s)
  case (Cons kv kvs)
  define t where "t = (if s = [] then ''{'' else s @ '', '') @ render_kv kv"
  have t: "t \<noteq> []" by (simp add: t_def)
  have step: "construct_json (with_packet rts s) (fst kv) (snd kv) = ret (with_packet rts t)"
    using construct_json_fits [of rts "snd kv" s "fst kv"] Cons.prems
    by (cases "kvs = []") (simp_all add: t_def render_members_Cons)
  show ?case
  proof (cases "kvs = []")
    case True
    with step show ?thesis by (simp add: t_def)
  next
    case False
    with Cons.IH [of t] Cons.prems step t show ?thesis
      by (auto simp: t_def render_members_Cons)
  qed
qed simp

lemma print_json_packet_full [simp]:
  "opt_json (opts rts) \<Longrightarrow> s \<noteq> [] \<Longrightarrow>
   print_json_packet (with_packet rts s) = print (s @ ''}'' @ [CHR 0x0A]) (ret (with_packet rts []))"
  by (simp add: print_json_packet_def)

lemma with_packet_self: "json_packet rts = jbuf s \<Longrightarrow> with_packet rts s = rts"
  by (cases rts) (simp add: with_packet_def del: with_packet_simps)

lemma construct_json_overflow:
  assumes "opt_json (opts rts)" "s \<noteq> []" "length s + 2 < PING_JSON_MAX"
    "length (render_kv (k, PING_JSON_STR v)) < PING_JSON_MAX"
    "PING_JSON_MAX < length s + 2 + length (render_kv (k, PING_JSON_STR v))"
  shows "and_then (construct_json (with_packet rts s) k (PING_JSON_STR v))
    (\<lambda>rts. construct_json rts k' v') = stop_with Undefined"
proof -
  define piece :: string where "piece = render_kv (k, PING_JSON_STR v)"
  define b where "b = \<lparr>jb_size = length (s @ '', '') + length piece,
    jb_object = (s @ '', '') @ snprintf_text (PING_JSON_MAX - length (s @ '', '')) piece\<rparr>"
  have "json_append (jbuf (s @ '', '')) piece = ret b"
    using assms(3-5) by (simp add: json_append_def json_bufsize_def jbuf_def b_def piece_def)
  then have "construct_json (with_packet rts s) k (PING_JSON_STR v) = ret ((with_packet rts s)\<lparr>json_packet := b\<rparr>)"
    using assms(1-3)
    by (simp add: construct_json_def json_continue_def json_kv_def json_kv_str_def piece_def render_kv_def)
  moreover have "jb_size b > PING_JSON_MAX" "jb_object b \<noteq> []"
    using assms(2,5) by (simp_all add: b_def piece_def)
  ultimately show ?thesis
    using assms(1) by (simp add: construct_json_def json_continue_def json_append_def)
qed

subsection \<open>The statistics object\<close>

lemma json_kv_str_fits:
  "length s + length (render_kv (k, PING_JSON_STR v)) < PING_JSON_MAX \<Longrightarrow>
   json_kv_str (jbuf s) k v = ret (jbuf (s @ render_kv (k, PING_JSON_STR v)))"
  by (simp add: json_kv_str_def render_kv_def)

lemma json_kv_int_fits:
  "length s + length (render_kv (k, PING_JSON_INT v)) < PING_JSON_MAX \<Longrightarrow>
   json_kv_int (jbuf s) k v = ret (jbuf (s @ render_kv (k, PING_JSON_INT v)))"
  by (simp add: json_kv_int_def render_kv_def)

lemma json_kv_str_continue_fits:
  "length s + length (render_kv (k, PING_JSON_STR v) @ '', '') < PING_JSON_MAX \<Longrightarrow>
   json_kv_str_continue (jbuf s) k v = ret (jbuf (s @ render_kv (k, PING_JSON_STR v) @ '', ''))"
  by (simp add: json_kv_str_continue_def json_continue_def json_kv_str_fits)

lemma json_kv_int_continue_fits:
  "length s + length (render_kv (k, PING_JSON_INT v) @ '', '') < PING_JSON_MAX \<Longrightarrow>
   json_kv_int_continue (jbuf s) k v = ret (jbuf (s @ render_kv (k, PING_JSON_INT v) @ '', ''))"
  by (simp add: json_kv_int_continue_def json_continue_def json_kv_int_fits)

lemmas json_fits = json_kv_str_fits json_kv_int_fits json_kv_str_continue_fits json_kv_int_continue_fits

definition rtt_members :: "string \<Rightarrow> string \<Rightarrow> string \<Rightarrow> string \<Rightarrow> (string \<times> ping_json_value) list" where
  "rtt_members rttmin rttavg rttmax rttmdev =
     [(''min'', PING_JSON_STR rttmin), (''avg'', PING_JSON_STR rttavg),
      (''max'', PING_JSON_STR rttmax), (''mdev'', PING_JSON_STR rttmdev)]"

definition count_members :: "ping_rts \<Rightarrow> timespec \<Rightarrow> (string \<times> ping_json_value) list" where
  "count_members rts tv =
     [(''host'', PING_JSON_STR (hostname rts)),
      (''transmitted'', PING_JSON_INT (to_int32 (ntransmitted rts))),
      (''received'', PING_JSON_INT (to_int32 (nreceived rts))),
      (''duplicates'', PING_JSON_INT (to_int32 (nrepeats rts))),
      (''corrupted'', PING_JSON_INT (to_int32 (nchecksum rts))),
      (''errors'', PING_JSON_INT (to_int32 (nerrors rts))),
      (''loss'', PING_JSON_INT (json_loss rts)),
      (''time'', PING_JSON_INT (json_time tv))]"

definition stats_json ::
    "ping_rts \<Rightarrow> timespec \<Rightarrow> string \<Rightarrow> string \<Rightarrow> string \<Rightarrow> string \<Rightarrow> string" where
  "stats_json rts tv rttmin rttavg rttmax rttmdev =
     ''{'' @ render_members (count_members rts tv) @ '', '' @ quoted ''rtt'' @ '': {'' @
     render_members (rtt_members rttmin rttavg rttmax rttmdev) @ ''}''"

lemma json_rtt_object_fits:
  "length (render_members (rtt_members rttmin rttavg rttmax rttmdev)) + 1 < PING_JSON_MAX \<Longrightarrow>
   json_rtt_object rttmin rttavg rttmax rttmdev =
     ret (jbuf (''{'' @ render_members (rtt_members rttmin rttavg rttmax rttmdev)))"
  by (simp add: json_rtt_object_def json_fits rtt_members_def)

lemma json_kv_object_fits:
  "length s + length (quoted k @ '': '' @ j @ ''}'') < PING_JSON_MAX \<Longrightarrow>
   json_kv_object (jbuf s) k (jbuf j) = ret (jbuf (s @ quoted k @ '': '' @ j @ ''}''))"
  by (simp add: json_kv_object_def json_end_object_def)

lemma construct_json_statistics_fits:
  assumes "opt_json (opts rts)" "json_stats rts = jbuf []"
    "length (stats_json rts tv rttmin rttavg rttmax rttmdev) + length (fmt_d (pipesize rts)) + 12 < PING_JSON_MAX"
  shows "construct_json_statistics rts tv rttmin rttavg rttmax rttmdev =
    ret (rts\<lparr>json_stats := jbuf (stats_json rts tv rttmin rttavg rttmax rttmdev @
      (if pipesize rts > 1 then '', '' @ render_kv (''pipe'', PING_JSON_INT (pipesize rts)) @ '', '' else []))\<rparr>)"
proof -
  have pipe: "length (render_kv (''pipe'', PING_JSON_INT (pipesize rts))) = 8 + length (fmt_d (pipesize rts))"
    by (simp add: render_kv_def)
  define r where "r = render_members (rtt_members rttmin rttavg rttmax rttmdev)"
  have len: "length (render_members (count_members rts tv)) + length r + 24 + length (fmt_d (pipesize rts)) < PING_JSON_MAX"
    using assms(3) by (simp add: stats_json_def r_def)
  then have rtt: "json_rtt_object rttmin rttavg rttmax rttmdev = ret (jbuf (''{'' @ r))"
    by (simp add: json_rtt_object_fits r_def)
  show ?thesis
    using len assms(1,2) pipe
    by (simp add: construct_json_statistics_def json_fits rtt json_kv_object_fits json_continue_def
        count_members_def stats_json_def r_def [symmetric])
qed

subsection \<open>A packet line\<close>


definition json_rts :: ping_rts where
  "json_rts = initial_rts\<lparr>opts := no_opts\<lparr>opt_json := True\<rparr>\<rparr>"

lemma json_rts_sel: "opt_json (opts json_rts)" "json_packet json_rts = jbuf []"
  by (simp_all add: json_rts_def initial_rts_def rts_with_def empty_json_def)


text \<open>
  Each piece is checked against \<open>PING_JSON_MAX\<close> on its own and never the sum: when a
  member is cut at the end of the buffer, the following \<open>construct_json\<close> call computes a
  negative room and writes outside the buffer instead of reaching \<open>json_emergency\<close>.
\<close>

theorem json_packet_overflow:
  assumes "opt_json (opts rts)" "json_packet rts = jbuf s" "s \<noteq> []" "length s + 2 < PING_JSON_MAX"
    and "length (render_kv (k, PING_JSON_STR v)) < PING_JSON_MAX"
    and "PING_JSON_MAX < length s + 2 + length (render_kv (k, PING_JSON_STR v))"
  shows "and_then (construct_json rts k (PING_JSON_STR v)) (\<lambda>rts. construct_json rts k' v') =
    stop_with Undefined"
  using construct_json_overflow [of rts s k v k' v'] assms by (simp add: with_packet_self)

theorem json_packet_overflow_witness:
  "and_then (construct_json (with_packet json_rts (replicate 3000 CHR ''x'')) ''k''
      (PING_JSON_STR (replicate 2000 CHR ''y''))) (\<lambda>rts. construct_json rts ''l'' (PING_JSON_INT 0)) =
   stop_with Undefined"
  using json_packet_overflow [of "with_packet json_rts (replicate 3000 CHR ''x'')" "replicate 3000 CHR ''x''"
      "''k''" "replicate 2000 CHR ''y''" "''l''" "PING_JSON_INT 0"]
  by (simp add: json_rts_sel render_kv_def PING_JSON_MAX_def)

end
