(* ===== verification/Ping_Output.thy ===== *)
theory Ping_Output
  imports Ping_Json Seq_Window
begin

text \<open>
  \<open>ping/ping_output.c\<close>: the same values printed as text or collected as JSON, the statistics
  at the end of a run, and error messages.  A format string with its one argument is the
  function that renders it.
\<close>

subsection \<open>Values and notes\<close>

definition ping_print_int :: "ping_rts \<Rightarrow> (int \<Rightarrow> string) \<Rightarrow> string \<Rightarrow> int \<Rightarrow> ping_rts result" where
  "ping_print_int rts msg json_key json_val =
     (if opt_json (opts rts) then construct_json rts json_key (PING_JSON_INT json_val)
      else print (msg json_val) (ret rts))"

definition ping_print_uint :: "ping_rts \<Rightarrow> (u32 \<Rightarrow> string) \<Rightarrow> string \<Rightarrow> u32 \<Rightarrow> ping_rts result" where
  "ping_print_uint rts msg json_key json_val =
     (if opt_json (opts rts) then construct_json rts json_key (PING_JSON_UINT json_val)
      else print (msg json_val) (ret rts))"

definition ping_print_str :: "ping_rts \<Rightarrow> (string \<Rightarrow> string) \<Rightarrow> string \<Rightarrow> string \<Rightarrow> ping_rts result" where
  "ping_print_str rts msg json_key json_val =
     (if opt_json (opts rts) then construct_json rts json_key (PING_JSON_STR json_val)
      else print (msg json_val) (ret rts))"

definition ping_print_error_packet :: "ping_rts \<Rightarrow> string \<Rightarrow> u8 \<Rightarrow> ping_rts result" where
  "ping_print_error_packet rts address sequence =
     (if \<not> opt_json (opts rts)
      then print (''From '' @ address @ '' icmp_seq='' @ fmt_d (uint sequence) @ '' '') (ret rts) else ret rts)"

definition ping_print_error_parse :: "ping_rts \<Rightarrow> string \<Rightarrow> ping_rts result" where
  "ping_print_error_parse rts reason =
     (if \<not> opt_json (opts rts) then print ('' parse error ('' @ reason @ '')'') (ret rts)
      else construct_json rts ''error'' (PING_JSON_STR reason))"

definition ping_print_error_qtype :: "ping_rts \<Rightarrow> u32 \<Rightarrow> ping_rts result" where
  "ping_print_error_qtype rts val =
     (if \<not> opt_json (opts rts) then print ('' unknown qtype(0x'' @ fmt_0x 2 (unat val) @ '')'') (ret rts)
      else construct_json rts ''error'' (PING_JSON_STR ''unknown qtype''))"

definition IPUTILS_NI_ICMP6_SUBJ_IPV4 :: int where "IPUTILS_NI_ICMP6_SUBJ_IPV4 = 2"

definition ping_print_truncated :: "ping_rts \<Rightarrow> ping_rts result" where
  "ping_print_truncated rts =
     (if opt_json (opts rts) then construct_json rts ''info'' (PING_JSON_STR ''truncated'')
      else print ('' (truncated)'' @
             (if ni_subject_type (ni rts) = IPUTILS_NI_ICMP6_SUBJ_IPV4 then [CHR 0x0A] else [])) (ret rts))"

definition ping_finish_line :: "ping_rts \<Rightarrow> ping_rts result" where
  "ping_finish_line rts = (if \<not> opt_json (opts rts) then print [CHR 0x0A] (ret rts) else ret rts)"

text \<open>
  \<open>ping_error\<close>: the formatted message is cut to a buffer of \<open>PING_ERROR_MAX\<close> bytes.
\<close>

definition PING_ERROR_MAX :: nat where "PING_ERROR_MAX = 300"

definition ping_error :: "(int \<Rightarrow> string) \<Rightarrow> ping_rts \<Rightarrow> int \<Rightarrow> int \<Rightarrow> string \<Rightarrow> ping_rts result" where
  "ping_error strerror rts status errnum str =
     (let msg = snprintf_text PING_ERROR_MAX str
      in if opt_json (opts rts)
         then and_then (construct_json_error strerror rts errnum (Some msg))
                (\<lambda>rts. if status > 0 then stop_with (Exit status) else ret rts)
         else error_c status errnum msg (ret rts))"

subsection \<open>Statistics\<close>

text \<open>
  \<open>llsqrt\<close>: the loop runs only for a positive argument and keeps \<open>x\<close> positive, so its values
  are natural numbers and C's division is \<open>div\<close>.
\<close>

definition LLONG_MAX :: int where "LLONG_MAX = 9223372036854775807"

function llsqrt_loop :: "nat \<Rightarrow> nat \<Rightarrow> nat \<Rightarrow> nat" where
  "llsqrt_loop a prev x = (if x < prev then llsqrt_loop a x ((x + a div x) div 2) else x)"
  by pat_completeness auto
termination by (relation "measure (\<lambda>(a, prev, x). prev)") auto

declare llsqrt_loop.simps [simp del]

definition llsqrt :: "int \<Rightarrow> int" where
  "llsqrt a = (if a > 0 then int (llsqrt_loop (nat a) (nat LLONG_MAX) (nat a)) else a)"

text \<open>Milliseconds with three decimals, as \<open>%ld.%03ld\<close> of microseconds.\<close>

definition fmt_ms :: "int \<Rightarrow> string" where
  "fmt_ms us = fmt_d (us sdiv 1000) @ ''.'' @ fmt_0d 3 (us smod 1000)"

text \<open>The average is printed with an unsigned conversion for its whole part.\<close>

definition fmt_ms_u :: "int \<Rightarrow> string" where
  "fmt_ms_u us = fmt_d (uint (word_of_int (us sdiv 1000) :: u64)) @ ''.'' @ fmt_0d 3 (us smod 1000)"

definition stat_total :: "ping_rts \<Rightarrow> int" where
  "stat_total rts = nreceived rts + nrepeats rts"

definition stat_avg :: "ping_rts \<Rightarrow> int" where
  "stat_avg rts = d_to_int (d_div (tsum rts) (d_of_int (stat_total rts)))"

definition stat_var :: "ping_rts \<Rightarrow> int" where
  "stat_var rts =
     (let total = d_of_int (stat_total rts)
      in if tsum rts < of_int int_max
         then d_to_int (d_div (d_sub (tsum2 rts) (d_div (d_mul (tsum rts) (tsum rts)) total)) total)
         else d_to_int (d_sub (d_div (tsum2 rts) total) (d_of_int (stat_avg rts * stat_avg rts))))"

definition ping_print_statistics :: "ping_rts \<Rightarrow> timespec \<Rightarrow> ping_rts result" where
  "ping_print_statistics rts tv =
     (let rttmin = fmt_ms (tmin rts); rttavg = fmt_ms_u (stat_avg rts);
          rttmax = fmt_ms (tmax rts); rttmdev = fmt_ms (d_to_int (d_of_int (llsqrt (stat_var rts))))
      in if opt_json (opts rts) then construct_json_statistics rts tv rttmin rttavg rttmax rttmdev
         else print (''rtt min/avg/max/mdev = '' @ rttmin @ ''/'' @ rttavg @ ''/'' @ rttmax @ ''/'' @
                rttmdev @ '' ms'') (ret rts))"

text \<open>The counters, printed in text mode.\<close>

definition finish_counts :: "ping_rts \<Rightarrow> timespec \<Rightarrow> string" where
  "finish_counts rts tv =
     ''--- '' @ hostname rts @ '' ping statistics ---'' @ [CHR 0x0A] @
     fmt_d (ntransmitted rts) @ '' packets transmitted, '' @ fmt_d (nreceived rts) @ '' received'' @
     (if nrepeats rts \<noteq> 0 then '', +'' @ fmt_d (nrepeats rts) @ '' duplicates'' else []) @
     (if nchecksum rts \<noteq> 0 then '', +'' @ fmt_d (nchecksum rts) @ '' corrupted'' else []) @
     (if nerrors rts \<noteq> 0 then '', +'' @ fmt_d (nerrors rts) @ '' errors'' else []) @
     (if ntransmitted rts \<noteq> 0
      then '', '' @ fmt_g (loss_percent rts) @ ''% packet loss'' @ '', time '' @
           fmt_d (uint (word_of_int (1000 * ts_sec tv + (ts_nsec tv + 500000) sdiv 1000000) :: u64)) @ ''ms''
      else []) @ [CHR 0x0A]"

text \<open>The interval between packets and the moving average, for floods and adaptive runs.\<close>

definition finish_ipg :: "ping_rts \<Rightarrow> timespec \<Rightarrow> bool \<Rightarrow> ping_rts result" where
  "finish_ipg rts tv comma =
     (if nreceived rts \<noteq> 0 \<and> (interval rts = 0 \<or> opt_flood (opts rts) \<or> opt_adaptive (opts rts))
         \<and> ntransmitted rts > 1
      then let ipg = to_int32 ((1000000 * ts_sec tv + ts_nsec tv sdiv 1000) sdiv (ntransmitted rts - 1));
               ipgout = fmt_ms ipg;
               ewmaout = fmt_d (uint (rtt rts div 8000)) @ ''.'' @ fmt_0d 3 (uint (rtt rts div 8 mod 1000))
           in and_then (if \<not> opt_json (opts rts)
                        then print ((if comma then '', '' else []) @ ''ipg/ewma '' @ ipgout @ ''/'' @
                               ewmaout @ '' ms'') (ret rts)
                        else ret rts)
                (\<lambda>rts. construct_json_statistics_flood rts ipgout ewmaout)
      else ret rts)"

definition ping_print_finish :: "ping_rts \<Rightarrow> ping_rts result" where
  "ping_print_finish rts =
     (let tv = tssub (cur_time rts) (start_time rts);
          stats = nreceived rts \<noteq> 0 \<and> timing rts;
          pipe = pipesize rts > 1 \<and> \<not> opt_json (opts rts)
      in and_then (ping_finish_line rts) (\<lambda>rts.
         and_then (if \<not> opt_json (opts rts) then print (finish_counts rts tv) (ret rts) else ret rts) (\<lambda>rts.
         and_then (if stats then ping_print_statistics rts tv else ret rts) (\<lambda>rts.
         and_then (if pipe then print ((if stats then '', '' else []) @ ''pipe '' @ fmt_d (pipesize rts)) (ret rts)
                   else ret rts) (\<lambda>rts.
         and_then (finish_ipg rts tv (stats \<or> pipe)) (\<lambda>rts.
         if opt_json (opts rts) then print_json_statistics rts else print [CHR 0x0A] (ret rts)))))))"

subsection \<open>The square root\<close>

lemma newton_step_ge:
  fixes s x a :: nat
  assumes "s * s \<le> a" "0 < x"
  shows "s \<le> (x + a div x) div 2"
proof -
  have "(2 * s - x) * x \<le> s * s"
  proof (cases "x \<le> 2 * s")
    case True
    then have "int ((2 * s - x) * x) \<le> int (s * s)"
      using zero_le_square [of "int s - int x"] by (simp add: algebra_simps of_nat_diff)
    then show ?thesis by linarith
  qed simp
  then have "(2 * s - x) * x \<le> a" using assms(1) by linarith
  then have "2 * s - x \<le> a div x" using assms(2) by (simp add: less_eq_div_iff_mult_less_eq)
  then show ?thesis by linarith
qed

lemma newton_stop:
  fixes s p a :: nat
  assumes s: "s * s \<le> a" "a < (s + 1) * (s + 1)" and p: "s \<le> p" "0 < p"
    and stop: "p \<le> (p + a div p) div 2"
  shows "((p + a div p) div 2) ^ 2 \<le> a + 1 \<and> a < ((p + a div p) div 2 + 1) ^ 2"
proof -
  have le: "p \<le> a div p" using stop by linarith
  then have "p * p \<le> a" using p(2) by (simp add: less_eq_div_iff_mult_less_eq)
  then have "p * p < (s + 1) * (s + 1)" using s(2) by linarith
  then have "p < s + 1" by (metis mult_le_mono not_less)
  then have ps: "p = s" using p(1) by simp
  have "a div s < s + 3"
    using s(2) p(2) ps by (simp add: div_less_iff_less_mult algebra_simps)
  then have q: "a div s = s \<or> a div s = s + 1 \<or> a div s = s + 2"
    using le ps by auto
  have "s * (s + 2) \<le> a" if "a div s = s + 2"
    using that div_times_less_eq_dividend [of a s] by (simp add: mult.commute)
  then show ?thesis
    using q s by (auto simp: ps power2_eq_square algebra_simps)
qed

lemma llsqrt_loop_correct:
  assumes "s * s \<le> a" "a < (s + 1) * (s + 1)" "0 < s" "s \<le> x" "x < prev"
  shows "(llsqrt_loop a prev x) ^ 2 \<le> a + 1 \<and> a < (llsqrt_loop a prev x + 1) ^ 2"
  using assms
proof (induction a prev x rule: llsqrt_loop.induct)
  case (1 a prev x)
  define x' where "x' = (x + a div x) div 2"
  have x: "0 < x" and ge: "s \<le> x'"
    using 1 by (simp_all add: x'_def newton_step_ge)
  have unfold: "llsqrt_loop a prev x = llsqrt_loop a x x'"
    using 1 llsqrt_loop.simps [of a prev x] by (simp add: x'_def)
  show ?case
  proof (cases "x' < x")
    case True
    then show ?thesis using 1 ge unfold by (simp add: x'_def)
  next
    case False
    then have "llsqrt_loop a prev x = x'" by (simp add: unfold llsqrt_loop.simps [of a x x'])
    moreover have "x' ^ 2 \<le> a + 1 \<and> a < (x' + 1) ^ 2"
      using newton_stop [of s a x] 1 False x by (simp add: x'_def)
    ultimately show ?thesis by simp
  qed
qed

lemma floor_root_exists: "\<exists>s. s * s \<le> n \<and> n < (s + 1) * (s + 1)" for n :: nat
proof (induction n)
  case (Suc n)
  then obtain s where s: "s * s \<le> n" "n < (s + 1) * (s + 1)" by blast
  show ?case
  proof (cases "Suc n < (s + 1) * (s + 1)")
    case True
    with s have "s * s \<le> Suc n \<and> Suc n < (s + 1) * (s + 1)" by linarith
    then show ?thesis by blast
  next
    case False
    with s have "(s + 1) * (s + 1) \<le> Suc n \<and> Suc n < (s + 1 + 1) * (s + 1 + 1)" by simp
    then show ?thesis by blast
  qed
qed (auto intro: exI [of _ 0])



subsection \<open>The loss\<close>

lemma loss_steps:
  assumes "0 \<le> nreceived rts" "nreceived rts \<le> ntransmitted rts" "0 < ntransmitted rts"
    "ntransmitted rts < 2 ^ 46"
  shows "loss_percent rts =
    f_of_d (rnd (of_int ((ntransmitted rts - nreceived rts) * 100) / of_int (ntransmitted rts)))"
proof -
  define t where "t = ntransmitted rts"
  define l where "l = t - nreceived rts"
  have l: "0 \<le> l" "l \<le> t" "l * 100 < 2 ^ 53" and t: "0 < t" "t < 2 ^ 53"
    using assms by (simp_all add: l_def t_def)
  have "d_mul (d_of_int l) 100 = rnd (of_int (l * 100))" using l by (simp add: d_mul_def)
  also have "\<dots> = of_int (l * 100)" by (rule rnd_of_int) (use l in simp_all)
  finally show ?thesis using t by (simp add: loss_percent_def d_div_def l_def t_def)
qed



subsection \<open>The statistics at the end of a run, as JSON\<close>

text \<open>
  The statistics object that \<open>finish\<close> prints with option \<open>-j\<close>, without the flood section.
\<close>

definition finish_stats :: "ping_rts \<Rightarrow> string" where
  "finish_stats rts = stats_json rts (tssub (cur_time rts) (start_time rts))
     (fmt_ms (tmin rts)) (fmt_ms_u (stat_avg rts)) (fmt_ms (tmax rts))
     (fmt_ms (d_to_int (d_of_int (llsqrt (stat_var rts)))))"


text \<open>The run of the witness: one reply, two probes in flight.\<close>

definition json_run :: ping_rts where
  "json_run = initial_rts\<lparr>ntransmitted := 2, nreceived := 1, timing := True, tmin := 1500, tmax := 1500,
     tsum := 1500, tsum2 := 2250000, pipesize := 2, hostname := ''h'', opts := no_opts\<lparr>opt_json := True\<rparr>\<rparr>"

lemma json_run_sel:
  "ntransmitted json_run = 2" "nreceived json_run = 1" "nrepeats json_run = 0" "nchecksum json_run = 0"
  "nerrors json_run = 0" "timing json_run" "tmin json_run = 1500" "tmax json_run = 1500"
  "tsum json_run = 1500" "tsum2 json_run = 2250000" "pipesize json_run = 2" "hostname json_run = ''h''"
  "opt_json (opts json_run)" "\<not> opt_flood (opts json_run)" "\<not> opt_adaptive (opts json_run)"
  "interval json_run = 1000" "json_stats json_run = jbuf []"
  "start_time json_run = \<lparr>ts_sec = 0, ts_nsec = 0\<rparr>" "cur_time json_run = \<lparr>ts_sec = 0, ts_nsec = 0\<rparr>"
  by (simp_all add: json_run_def no_opts_def initial_rts_def rts_with_def empty_json_def)

lemma json_run_packet: "json_packet json_run = jbuf []"
  by (simp add: json_run_def initial_rts_def rts_with_def empty_json_def)

lemmas finish_stats_unfold = finish_stats_def stats_json_def count_members_def json_loss_def
  loss_percent_def stat_avg_def stat_var_def stat_total_def


subsection \<open>Error messages, as JSON\<close>

lemma snprintf_text_less: "0 < n \<Longrightarrow> length (snprintf_text n s) < n"
  by (simp add: snprintf_text_def)

lemma construct_json_unterminated:
  assumes "opt_json (opts rts)" "length msg + length str + 20 < PING_JSON_MAX"
  shows "construct_json (with_packet rts []) ''error'' (PING_JSON_ARR [Some msg, Some str]) = stop_with Undefined"
  using assms by (simp add: construct_json_def json_kv_def json_kv_array_def json_continue_def)

text \<open>
  C35: with option \<open>-j\<close>, reporting an error that has an \<open>errno\<close> is undefined behaviour:
  \<open>construct_json_error\<close> passes the message and \<open>strerror\<close>'s text for an array without the
  null pointer that ends it, and the loop reads a further argument that was never passed.
\<close>

theorem ping_error_json_errno:
  assumes "opt_json (opts rts)" "json_packet rts = jbuf []" "0 < errnum"
    "length (strerror errnum) + 320 < PING_JSON_MAX"
  shows "ping_error strerror rts status errnum str = stop_with Undefined"
proof -
  have "length (snprintf_text PING_ERROR_MAX str) < 300"
    using snprintf_text_less [of 300 str] by (simp add: PING_ERROR_MAX_def)
  then have "construct_json (with_packet rts []) ''error''
      (PING_JSON_ARR [Some (snprintf_text PING_ERROR_MAX str), Some (strerror errnum)]) = stop_with Undefined"
    using assms by (intro construct_json_unterminated) simp_all
  then show ?thesis
    using assms by (simp add: ping_error_def construct_json_error_def with_packet_self)
qed

theorem ping_error_json_errno_witness:
  "ping_error (\<lambda>_. ''Permission denied'') json_run 0 13 ''sendmsg'' = stop_with Undefined"
  using ping_error_json_errno [of json_run 13 "\<lambda>_. ''Permission denied''"]
  by (simp add: json_run_sel json_run_packet PING_JSON_MAX_def)

text \<open>
  With option \<open>-j\<close>, an error without \<open>errno\<close> is one line \<open>{"error": "..."}\<close> with the
  message cut to 299 characters.  The process ends exactly when the status is positive, so
  the callers that pass \<open>-1\<close>, for which \<open>error\<close> would exit, continue.
\<close>

theorem ping_error_json_message:
  assumes "opt_json (opts rts)" "json_packet rts = jbuf []"
  shows "ping_error strerror rts status 0 str =
    print (''{'' @ quoted ''error'' @ '': '' @ quoted (take 299 str) @ ''}'' @ [CHR 0x0A])
      (if status > 0 then stop_with (Exit status) else ret rts)"
proof -
  have "length (take 299 str) < 300" by simp
  then have "construct_json rts ''error'' (PING_JSON_STR (take 299 str)) =
      ret (with_packet rts (''{'' @ render_kv (''error'', PING_JSON_STR (take 299 str))))"
    using assms construct_json_fits [of rts "PING_JSON_STR (take 299 str)" "[]" "''error''"]
    by (simp add: with_packet_self well_terminated_def render_kv_def PING_JSON_MAX_def)
  then show ?thesis
    using assms(1) with_packet_self [OF assms(2)]
    by (simp add: ping_error_def construct_json_error_def snprintf_text_def PING_ERROR_MAX_def
        render_kv_def print_def)
qed

theorem ping_error_json_message_witness:
  "ping_error (\<lambda>_. []) json_run (- 1) 0 ''setuid'' =
    print (''{'' @ quoted ''error'' @ '': '' @ quoted ''setuid'' @ ''}'' @ [CHR 0x0A]) (ret json_run)"
  using ping_error_json_message [of json_run "\<lambda>_. []" "- 1" "''setuid''"]
  by (simp add: json_run_sel json_run_packet)

end
