(* ===== verification/Ping_Stats.thy ===== *)
theory Ping_Stats
  imports Ping_Output
begin

text \<open>
  What \<open>ping/ping_common.c\<close> does with a reply: \<open>gather_statistics\<close> with its clock
  countermeasures, moving average, duplicate accounting, output line and data check;
  \<open>update_interval\<close>, \<open>print_timestamp\<close>, \<open>status\<close> and \<open>str_interval\<close>.  Results of
  \<open>gettimeofday\<close> are arguments.
\<close>

subsection \<open>Times in packets\<close>

definition TV_SEC_MAX_VAL :: int where "TV_SEC_MAX_VAL = 2147"
definition MIN_INTERVAL_MS :: int where "MIN_INTERVAL_MS = 10"
definition MIN_USER_INTERVAL_MS :: int where "MIN_USER_INTERVAL_MS = 2"

definition timeval_bytes :: "timeval \<Rightarrow> u8 list" where
  "timeval_bytes tv = le64_bytes (word_of_int (tv_sec tv)) @ le64_bytes (word_of_int (tv_usec tv))"

definition read_timeval :: "u8 list \<Rightarrow> timeval" where
  "read_timeval bs = \<lparr>tv_sec = sint (le64 (take 8 bs)), tv_usec = sint (le64 (take 8 (drop 8 bs)))\<rparr>"

definition is_long :: "int \<Rightarrow> bool" where
  "is_long i \<longleftrightarrow> - 9223372036854775808 \<le> i \<and> i \<le> 9223372036854775807"

lemma sint_word_of_long [simp]: "is_long i \<Longrightarrow> sint (word_of_int i :: u64) = i"
  by (simp add: is_long_def signed_of_int signed_take_bit_int_eq_self)

lemma length_timeval_bytes [simp]: "length (timeval_bytes tv) = 16"
  by (simp add: timeval_bytes_def)

lemma read_timeval_bytes [simp]:
  "is_long (tv_sec tv) \<Longrightarrow> is_long (tv_usec tv) \<Longrightarrow> read_timeval (timeval_bytes tv @ rest) = tv"
  by (simp add: read_timeval_def timeval_bytes_def)

subsection \<open>The round trip time\<close>

definition update_interval :: "ping_rts \<Rightarrow> ping_rts" where
  "update_interval rts =
     (let est = (if rtt rts \<noteq> 0 then to_int32 (uint (rtt rts div 8)) else interval rts * 1000);
          iv = (est + rtt_addend rts + 500) sdiv 1000
      in rts\<lparr>interval := if uid rts \<noteq> 0 \<and> iv < MIN_USER_INTERVAL_MS then MIN_USER_INTERVAL_MS else iv\<rparr>)"

definition print_timestamp :: "timeval \<Rightarrow> ping_rts \<Rightarrow> ping_rts result" where
  "print_timestamp now rts =
     (if opt_ptimeofday (opts rts)
      then print (''['' @ fmt_d (uint (word_of_int (tv_sec now) :: u64)) @ ''.'' @
             fmt_0d 6 (uint (word_of_int (tv_usec now) :: u64)) @ ''] '') (ret rts)
      else ret rts)"

text \<open>The microseconds are forced into their range, with a warning.\<close>

definition clamp_usec :: "timeval \<Rightarrow> timeval result" where
  "clamp_usec tv =
     and_then (if tv_usec tv \<ge> 1000000
               then error_c 0 0 (''Warning: invalid tv_usec '' @ fmt_d (tv_usec tv) @ '' us'')
                      (ret (tv\<lparr>tv_usec := 999999\<rparr>))
               else ret tv)
       (\<lambda>tv. if tv_usec tv < 0
             then error_c 0 0 (''Warning: invalid tv_usec '' @ fmt_d (tv_usec tv) @ '' us'')
                    (ret (tv\<lparr>tv_usec := 0\<rparr>))
             else ret tv)"

text \<open>
  One pass from the label \<open>restamp\<close>: \<open>tv\<close> is the time of arrival, \<open>sent\<close> the time in the
  packet.  When the clock went back, \<open>restamp_trip\<close> asks for the time of day and goes to the
  label again; \<open>opt_latency\<close> is set then, so a second time is never asked for.
\<close>

definition trip_pass ::
    "(ping_rts \<Rightarrow> (ping_rts \<times> int) result) \<Rightarrow> ping_rts \<Rightarrow> timeval \<Rightarrow> timeval \<Rightarrow> (ping_rts \<times> int) result" where
  "trip_pass again rts tv sent =
     and_then (clamp_usec (tvsub tv sent)) (\<lambda>tv.
       if tv_sec tv > TV_SEC_MAX_VAL
       then error_c 0 0 (''Warning: invalid tv_sec '' @ fmt_d (tv_sec tv) @ '' s'') (ret (rts, 0))
       else if tv_sec tv < 0
       then and_then (ping_error (\<lambda>_. []) rts 0 0 (''Warning: time of day goes back ('' @ fmt_d (tv_sec tv) @
                        '' s), taking countermeasures'')) (\<lambda>rts.
              if \<not> opt_latency (opts rts) then again (rts\<lparr>opts := opts rts\<lparr>opt_latency := True\<rparr>\<rparr>)
              else ret (rts, 0))
       else ret (rts, tv_sec tv * 1000000 + tv_usec tv))"

definition trip_time :: "timeval \<Rightarrow> ping_rts \<Rightarrow> timeval \<Rightarrow> timeval \<Rightarrow> (ping_rts \<times> int) result" where
  "trip_time now rts tv sent =
     trip_pass (\<lambda>rts. trip_pass (\<lambda>rts. ret (rts, 0)) rts now sent) rts tv sent"

definition record_trip :: "ping_rts \<Rightarrow> int \<Rightarrow> ping_rts" where
  "record_trip rts triptime =
     (let rts = rts\<lparr>tsum := d_add (tsum rts) (d_of_int triptime),
                    tsum2 := d_add (tsum2 rts) (d_of_int (triptime * triptime)),
                    tmin := min triptime (tmin rts), tmax := max triptime (tmax rts),
                    rtt := (if rtt rts = 0 then word_of_int triptime * 8
                            else rtt rts + (word_of_int triptime - rtt rts div 8))\<rparr>
      in if opt_adaptive (opts rts) then update_interval rts else rts)"

subsection \<open>Counting\<close>

definition count_reply :: "ping_rts \<Rightarrow> bool \<Rightarrow> u16 \<Rightarrow> ping_rts \<times> bool" where
  "count_reply rts csfailed seq =
     (if csfailed then (rts\<lparr>nchecksum := nchecksum rts + 1, nreceived := nreceived rts - 1\<rparr>, False)
      else if rcvd_test rts seq \<noteq> 0
      then (rts\<lparr>nrepeats := nrepeats rts + 1, nreceived := nreceived rts - 1\<rparr>, True)
      else (rcvd_set rts seq, False))"

subsection \<open>The line for a reply\<close>

definition time_parts :: "bool \<Rightarrow> int \<Rightarrow> int \<times> int \<times> nat" where
  "time_parts precise triptime =
     (if precise then (triptime sdiv 1000, triptime smod 1000, 3)
      else if triptime \<ge> 100000 - 50 then ((triptime + 500) sdiv 1000, 0, 0)
      else if triptime \<ge> 10000 - 5 then ((triptime + 50) sdiv 1000, ((triptime + 50) smod 1000) sdiv 100, 1)
      else if triptime \<ge> 1000 then ((triptime + 5) sdiv 1000, ((triptime + 5) smod 1000) sdiv 10, 2)
      else (triptime sdiv 1000, triptime smod 1000, 3))"

definition outtime :: "bool \<Rightarrow> int \<Rightarrow> string" where
  "outtime precise triptime =
     (case time_parts precise triptime of (num, dec, digits) \<Rightarrow>
        snprintf_text 30 (fmt_d num @ (if digits = 0 then [] else ''.'' @ fmt_0d digits dec)))"

text \<open>
  The data check: \<open>data\<close> are the bytes from \<open>ptr\<close> on.  It stops at the first byte that differs
  from the one sent and dumps the received bytes, 32 to a line.
\<close>

definition SIZEOF_TIMEVAL :: nat where "SIZEOF_TIMEVAL = 16"

primrec first_wrong :: "nat list \<Rightarrow> u8 list \<Rightarrow> u8 list \<Rightarrow> nat option" where
  "first_wrong [] data out = None"
| "first_wrong (i # js) data out =
     (if data ! i \<noteq> out ! (8 + i) then Some i else first_wrong js data out)"

definition dump_byte :: "u8 list \<Rightarrow> nat \<Rightarrow> string" where
  "dump_byte data i =
     (if i mod 32 = SIZEOF_TIMEVAL then [CHR 0x0A] @ ''#'' @ fmt_d (int i) @ [CHR 0x09] else []) @
     fmt_x (unat (data ! i)) @ '' ''"

definition check_data :: "ping_rts \<Rightarrow> u8 list \<Rightarrow> string" where
  "check_data rts data =
     (let range = [SIZEOF_TIMEVAL..<nat (datalen rts)]
      in case first_wrong range data (outpack rts) of
           None \<Rightarrow> []
         | Some i \<Rightarrow> [CHR 0x0A] @ ''wrong data byte #'' @ fmt_d (int i) @ '' should be 0x'' @
             fmt_x (unat (outpack rts ! (8 + i))) @ '' but was 0x'' @ fmt_x (unat (data ! i)) @
             concat (map (dump_byte data) range))"

text \<open>
  The text after the counters were updated (lines from \<open>if (rts->opt_quiet)\<close> on), with the
  return value of \<open>gather_statistics\<close>: 1 when the caller need not end the line.
\<close>

definition reply_flags :: "ping_rts \<Rightarrow> bool \<Rightarrow> bool \<Rightarrow> bool \<Rightarrow> bool \<Rightarrow> string" where
  "reply_flags rts dupflag csfailed multi wrong_source =
     (if dupflag \<and> (\<not> multi \<or> opt_verbose (opts rts)) then '' (DUP!)'' else []) @
     (if csfailed then '' (BAD CHECKSUM!)'' else []) @
     (if wrong_source then '' (DIFFERENT ADDRESS!)'' else [])"

definition reply_line ::
    "timeval \<Rightarrow> ping_rts \<Rightarrow> u8 list \<Rightarrow> int \<Rightarrow> int \<Rightarrow> bool \<Rightarrow> string \<Rightarrow> (ping_rts \<Rightarrow> ping_rts result) \<Rightarrow>
     bool \<Rightarrow> bool \<Rightarrow> bool \<Rightarrow> int \<Rightarrow> (ping_rts \<times> int) result" where
  "reply_line now rts data cc hops csfailed from pr_reply multi wrong_source dupflag triptime =
     and_then (print_timestamp now rts) (\<lambda>rts.
     and_then (ping_print_int rts (\<lambda>i. fmt_d i @ '' bytes '') ''bytes'' cc) (\<lambda>rts.
     and_then (ping_print_str rts (\<lambda>s. ''from '' @ s @ '':'') ''host'' from) (\<lambda>rts.
     and_then (pr_reply rts) (\<lambda>rts.
     and_then (if opt_verbose (opts rts) \<and> ident rts \<noteq> - 1
               then ping_print_int rts (\<lambda>i. '' ident='' @ fmt_d i) ''ident'' (uint (ntohs (to_u16 (ident rts))))
               else ret rts) (\<lambda>rts.
     and_then (if hops \<ge> 0 then ping_print_int rts (\<lambda>i. '' ttl='' @ fmt_d i) ''ttl'' hops else ret rts) (\<lambda>rts.
     if cc < datalen rts + 8 then and_then (ping_print_truncated rts) (\<lambda>rts. ret (rts, 1))
     else and_then (if timing rts
                    then ping_print_str rts (\<lambda>s. '' time='' @ s @ '' ms'') ''time''
                           (outtime (opt_rtt_precision (opts rts)) triptime)
                    else ret rts) (\<lambda>rts.
          if length data < nat (datalen rts) then stop_with Undefined
          else print (reply_flags rts dupflag csfailed multi wrong_source @ check_data rts data)
                 (ret (rts, 0)))))))))"

text \<open>
  \<open>gather_statistics\<close> in its three parts: the counter, the window and the time of the reply;
  duplicate accounting; output.
\<close>

definition timed :: "ping_rts \<Rightarrow> int \<Rightarrow> bool" where
  "timed rts cc \<longleftrightarrow> timing rts \<and> cc \<ge> 8 + int SIZEOF_TIMEVAL"

definition gather_trip ::
    "timeval \<Rightarrow> ping_rts \<Rightarrow> u8 list \<Rightarrow> int \<Rightarrow> u16 \<Rightarrow> bool \<Rightarrow> timeval \<Rightarrow> (ping_rts \<times> int) result" where
  "gather_trip now rts data cc seq csfailed tv =
     (let rts = rts\<lparr>nreceived := nreceived rts + 1\<rparr>;
          rts = (if csfailed then rts else acknowledge rts seq)
      in if timed rts cc
         then and_then (trip_time now rts tv (read_timeval data))
                (\<lambda>(rts, t). ret (if csfailed then rts else record_trip rts t, t))
         else ret (rts, 0))"

definition gather_output ::
    "timeval \<Rightarrow> ping_rts \<Rightarrow> u8 list \<Rightarrow> int \<Rightarrow> int \<Rightarrow> bool \<Rightarrow> string \<Rightarrow> (ping_rts \<Rightarrow> ping_rts result) \<Rightarrow>
     bool \<Rightarrow> bool \<Rightarrow> bool \<Rightarrow> int \<Rightarrow> (ping_rts \<times> int) result" where
  "gather_output now rts data cc hops csfailed from pr_reply multi wrong_source dupflag triptime =
     (if opt_quiet (opts rts) then ret (rts, 1)
      else if opt_flood (opts rts)
      then print (if \<not> csfailed then [CHR 0x08, CHR '' '', CHR 0x08] else [CHR 0x08, CHR ''C'']) (ret (rts, 0))
      else reply_line now rts data cc hops csfailed from pr_reply multi wrong_source dupflag triptime)"

definition gather_statistics ::
    "timeval \<Rightarrow> timeval \<Rightarrow> ping_rts \<Rightarrow> u8 list \<Rightarrow> int \<Rightarrow> u16 \<Rightarrow> int \<Rightarrow> bool \<Rightarrow> timeval \<Rightarrow> string \<Rightarrow>
     (ping_rts \<Rightarrow> ping_rts result) \<Rightarrow> bool \<Rightarrow> bool \<Rightarrow> (ping_rts \<times> int) result" where
  "gather_statistics now now' rts data cc seq hops csfailed tv from pr_reply multi wrong_source =
     and_then (gather_trip now rts data cc seq csfailed tv) (\<lambda>(rts, triptime).
       let (rts, dupflag) = count_reply rts csfailed seq;
           rts = rts\<lparr>confirm := confirm_flag rts\<rparr>
       in gather_output now' rts data cc hops csfailed from pr_reply multi wrong_source dupflag triptime)"

subsection \<open>The summary on request, and intervals as text\<close>

definition status :: "ping_rts \<Rightarrow> ping_rts result" where
  "status rts =
     (let loss = (if ntransmitted rts \<noteq> 0
                  then to_int32 (((ntransmitted rts - nreceived rts) * 100) sdiv ntransmitted rts) else 0);
          tavg = d_to_int (d_div (tsum rts) (d_of_int (nreceived rts + nrepeats rts)))
      in emit [Err ([CHR 0x0D] @ fmt_d (nreceived rts) @ ''/'' @ fmt_d (ntransmitted rts) @ '' packets, '' @
           fmt_d loss @ ''% loss'' @
           (if nreceived rts \<noteq> 0 \<and> timing rts
            then '', min/avg/ewma/max = '' @ fmt_ms (tmin rts) @ ''/'' @
                 fmt_ms_u tavg @ ''/'' @
                 fmt_d (to_int32 (uint (rtt rts div 8000))) @ ''.'' @
                 fmt_0d 3 (to_int32 (uint (rtt rts div 8 mod 1000))) @ ''/'' @ fmt_ms (tmax rts) @ '' ms''
            else []) @ [CHR 0x0A])]
         (ret (rts\<lparr>status_snapshot := False\<rparr>)))"

definition str_interval :: "int \<Rightarrow> string" where
  "str_interval iv =
     snprintf_text 14 (if iv smod 1000 \<noteq> 0 then fmt_d (iv sdiv 1000) @ ''.'' @ fmt_0d 3 (iv smod 1000)
                       else fmt_d (iv sdiv 1000))"

subsection \<open>What a reply leaves unchanged\<close>

lemma acknowledge_sel [simp]:
  "nreceived (acknowledge rts s) = nreceived rts" "nrepeats (acknowledge rts s) = nrepeats rts"
  "nchecksum (acknowledge rts s) = nchecksum rts" "rcvd_tbl (acknowledge rts s) = rcvd_tbl rts"
  "opts (acknowledge rts s) = opts rts" "datalen (acknowledge rts s) = datalen rts"
  "timing (acknowledge rts s) = timing rts" "tmin (acknowledge rts s) = tmin rts"
  "tmax (acknowledge rts s) = tmax rts" "tsum (acknowledge rts s) = tsum rts"
  "rtt (acknowledge rts s) = rtt rts" "json_packet (acknowledge rts s) = json_packet rts"
  "outpack (acknowledge rts s) = outpack rts" "ident (acknowledge rts s) = ident rts"
  by (simp_all add: acknowledge_def Let_def)

lemma update_interval_sel [simp]:
  "nreceived (update_interval rts) = nreceived rts" "nrepeats (update_interval rts) = nrepeats rts"
  "nchecksum (update_interval rts) = nchecksum rts" "rcvd_tbl (update_interval rts) = rcvd_tbl rts"
  "opts (update_interval rts) = opts rts" "datalen (update_interval rts) = datalen rts"
  "timing (update_interval rts) = timing rts" "tmin (update_interval rts) = tmin rts"
  "tmax (update_interval rts) = tmax rts" "tsum (update_interval rts) = tsum rts"
  "rtt (update_interval rts) = rtt rts" "outpack (update_interval rts) = outpack rts"
  "ident (update_interval rts) = ident rts"
  by (simp_all add: update_interval_def Let_def)

lemma record_trip_sel [simp]:
  "nreceived (record_trip rts t) = nreceived rts" "nrepeats (record_trip rts t) = nrepeats rts"
  "nchecksum (record_trip rts t) = nchecksum rts" "rcvd_tbl (record_trip rts t) = rcvd_tbl rts"
  "opts (record_trip rts t) = opts rts" "datalen (record_trip rts t) = datalen rts"
  "timing (record_trip rts t) = timing rts" "tmin (record_trip rts t) = min t (tmin rts)"
  "tmax (record_trip rts t) = max t (tmax rts)" "tsum (record_trip rts t) = d_add (tsum rts) (d_of_int t)"
  "outpack (record_trip rts t) = outpack rts" "ident (record_trip rts t) = ident rts"
  "rtt (record_trip rts t) = (if rtt rts = 0 then word_of_int t * 8
     else rtt rts + (word_of_int t - rtt rts div 8))"
  by (simp_all add: record_trip_def Let_def)

subsection \<open>The round trip time is in range\<close>

definition trip_max :: int where "trip_max = 2147999999"

text \<open>
  A time of one pass: in range, and the exact difference when the two times are ordered,
  normalised, and at most \<open>TV_SEC_MAX_VAL\<close> seconds apart.
\<close>

lemma clamp_usec_cases:
  obtains es tv' where "clamp_usec tv = emit es (ret tv')" "tv_sec tv' = tv_sec tv"
    "0 \<le> tv_usec tv'" "tv_usec tv' < 1000000"
    "0 \<le> tv_usec tv \<Longrightarrow> tv_usec tv < 1000000 \<Longrightarrow> tv' = tv"
proof -
  consider "tv_usec tv \<ge> 1000000" | "tv_usec tv < 0" | "0 \<le> tv_usec tv" "tv_usec tv < 1000000" by linarith
  then show thesis
  proof cases
    case 1
    then show ?thesis using that [of "[Diag 0 _]" "tv\<lparr>tv_usec := 999999\<rparr>"] by (simp add: clamp_usec_def)
  next
    case 2
    then show ?thesis using that [of "[Diag 0 _]" "tv\<lparr>tv_usec := 0\<rparr>"] by (simp add: clamp_usec_def)
  next
    case 3
    then show ?thesis using that [of "[]" tv] by (simp add: clamp_usec_def)
  qed
qed

abbreviation with_latency :: "ping_rts \<Rightarrow> bool \<Rightarrow> ping_rts" where
  "with_latency rts l \<equiv> rts\<lparr>opts := opts rts\<lparr>opt_latency := l\<rparr>\<rparr>"

lemma with_latency_same [simp]: "with_latency rts (opt_latency (opts rts)) = rts"
  by (cases rts) simp

lemma ping_error_text [simp]:
  "\<not> opt_json (opts rts) \<Longrightarrow> ping_error strerror rts 0 e str = emit [Diag e (snprintf_text PING_ERROR_MAX str)] (ret rts)"
  by (simp add: ping_error_def)

lemma trip_pass_returns:
  assumes "\<not> opt_json (opts rts)"
    "\<exists>t. returns (again (with_latency rts True)) (with_latency rts True, t) \<and> 0 \<le> t \<and> t \<le> trip_max"
  shows "\<exists>l t. returns (trip_pass again rts tv sent) (with_latency rts l, t) \<and> 0 \<le> t \<and> t \<le> trip_max"
proof -
  obtain es tv' where c: "clamp_usec (tvsub tv sent) = emit es (ret tv')"
    and u: "0 \<le> tv_usec tv'" "tv_usec tv' < 1000000"
    by (rule clamp_usec_cases [of "tvsub tv sent"]) blast
  consider (ok) "0 \<le> tv_sec tv'" "tv_sec tv' \<le> TV_SEC_MAX_VAL" | (big) "tv_sec tv' > TV_SEC_MAX_VAL"
    | (again) "tv_sec tv' < 0" "\<not> opt_latency (opts rts)" | (neg) "tv_sec tv' < 0" "opt_latency (opts rts)"
    by linarith
  then show ?thesis
  proof cases
    case ok
    then have "returns (trip_pass again rts tv sent)
        (with_latency rts (opt_latency (opts rts)), tv_sec tv' * 1000000 + tv_usec tv')"
      by (simp add: trip_pass_def c)
    then show ?thesis using ok u by (fastforce simp: trip_max_def TV_SEC_MAX_VAL_def)
  next
    case again
    then show ?thesis using assms by (auto simp: trip_pass_def c TV_SEC_MAX_VAL_def)
  next
    case big
    then have "returns (trip_pass again rts tv sent) (with_latency rts (opt_latency (opts rts)), 0)"
      by (simp add: trip_pass_def c)
    then show ?thesis by (fastforce simp: trip_max_def)
  next
    case neg
    then have "returns (trip_pass again rts tv sent) (with_latency rts (opt_latency (opts rts)), 0)"
      using assms(1) by (simp add: trip_pass_def c TV_SEC_MAX_VAL_def)
    then show ?thesis by (fastforce simp: trip_max_def)
  qed
qed

lemma trip_time_returns:
  assumes "\<not> opt_json (opts rts)"
  shows "\<exists>l t. returns (trip_time now rts tv sent) (with_latency rts l, t) \<and> 0 \<le> t \<and> t \<le> trip_max"
  unfolding trip_time_def
proof (rule trip_pass_returns [OF assms])
  define again where "again = (\<lambda>rts :: ping_rts. ret (rts, 0 :: int))"
  have "\<exists>l t. returns (trip_pass again (with_latency rts True) now sent)
      (with_latency (with_latency rts True) l, t) \<and> 0 \<le> t \<and> t \<le> trip_max"
    using assms by (intro trip_pass_returns) (simp_all add: again_def trip_max_def)
  moreover have "l = True" if "returns (trip_pass again (with_latency rts True) now sent)
      (with_latency (with_latency rts True) l, t)" for l t
  proof -
    have "yields (trip_pass again (with_latency rts True) now sent) (\<lambda>(r, _). opt_latency (opts r))"
      unfolding trip_pass_def using assms
      by (intro yields_and_then [where Q = "\<lambda>_. True"])
        (auto simp: yields_def again_def ping_error_def and_then_def Let_def emit_def ret_def error_c_def)
    with that show ?thesis by (auto simp: yields_def returns_def)
  qed
  ultimately show "\<exists>t. returns (trip_pass (\<lambda>rts. ret (rts, 0)) (with_latency rts True) now sent)
      (with_latency rts True, t) \<and> 0 \<le> t \<and> t \<le> trip_max"
    unfolding again_def by fastforce
qed

subsection \<open>A reply in text mode\<close>

lemma ping_print_text [simp]:
  "\<not> opt_json (opts rts) \<Longrightarrow> ping_print_int rts f k i = print (f i) (ret rts)"
  "\<not> opt_json (opts rts) \<Longrightarrow> ping_print_str rts g k s = print (g s) (ret rts)"
  "\<not> opt_json (opts rts) \<Longrightarrow> ping_print_uint rts h k w = print (h w) (ret rts)"
  by (simp_all add: ping_print_int_def ping_print_str_def ping_print_uint_def)

definition timestamp_text :: "ping_rts \<Rightarrow> timeval \<Rightarrow> string" where
  "timestamp_text rts now = stdout_of (fst (print_timestamp now rts))"

lemma print_timestamp_eq: "print_timestamp now rts = print (timestamp_text rts now) (ret rts) \<or>
    print_timestamp now rts = ret rts \<and> timestamp_text rts now = []"
  by (simp add: timestamp_text_def print_timestamp_def) (simp add: print_def)

definition reply_text ::
    "timeval \<Rightarrow> ping_rts \<Rightarrow> u8 list \<Rightarrow> int \<Rightarrow> int \<Rightarrow> bool \<Rightarrow> string \<Rightarrow> string \<Rightarrow> bool \<Rightarrow> bool \<Rightarrow> bool \<Rightarrow> int \<Rightarrow> string" where
  "reply_text now rts data cc hops csfailed from pr multi wrong_source dupflag triptime =
     timestamp_text rts now @ fmt_d cc @ '' bytes from '' @ from @ '':'' @ pr @
     (if opt_verbose (opts rts) \<and> ident rts \<noteq> - 1
      then '' ident='' @ fmt_d (uint (ntohs (to_u16 (ident rts)))) else []) @
     (if hops \<ge> 0 then '' ttl='' @ fmt_d hops else []) @
     (if cc < datalen rts + 8
      then '' (truncated)'' @ (if ni_subject_type (ni rts) = IPUTILS_NI_ICMP6_SUBJ_IPV4 then [CHR 0x0A] else [])
      else (if timing rts then '' time='' @ outtime (opt_rtt_precision (opts rts)) triptime @ '' ms'' else []) @
           reply_flags rts dupflag csfailed multi wrong_source @ check_data rts data)"

lemma reply_line_text:
  assumes "\<not> opt_json (opts rts)" "pr_reply rts = print pr (ret rts)"
    "cc < datalen rts + 8 \<or> datalen rts \<le> int (length data)"
  shows "returns (reply_line now rts data cc hops csfailed from pr_reply multi wrong_source dupflag triptime)
      (rts, if cc < datalen rts + 8 then 1 else 0)"
    and "stdout_of (fst (reply_line now rts data cc hops csfailed from pr_reply multi wrong_source dupflag triptime)) =
      reply_text now rts data cc hops csfailed from pr multi wrong_source dupflag triptime"
proof -
  have len: "\<not> length data < nat (datalen rts)" if "\<not> cc < datalen rts + 8"
    using assms(3) that by linarith
  show "returns (reply_line now rts data cc hops csfailed from pr_reply multi wrong_source dupflag triptime)
      (rts, if cc < datalen rts + 8 then 1 else 0)"
    using assms(1,2) len print_timestamp_eq [of now rts]
    by (auto simp: reply_line_def ping_print_truncated_def)
  show "stdout_of (fst (reply_line now rts data cc hops csfailed from pr_reply multi wrong_source dupflag triptime)) =
      reply_text now rts data cc hops csfailed from pr multi wrong_source dupflag triptime"
    using assms(1,2) len print_timestamp_eq [of now rts]
    by (auto simp: reply_line_def reply_text_def ping_print_truncated_def print_def)
qed

text \<open>The counters and the table after a reply.\<close>

lemma count_reply_sel:
  "nreceived (fst (count_reply rts cs seq)) = nreceived rts - (if cs \<or> rcvd_test rts seq \<noteq> 0 then 1 else 0)"
  "nrepeats (fst (count_reply rts cs seq)) = nrepeats rts + (if \<not> cs \<and> rcvd_test rts seq \<noteq> 0 then 1 else 0)"
  "nchecksum (fst (count_reply rts cs seq)) = nchecksum rts + (if cs then 1 else 0)"
  "rcvd_tbl (fst (count_reply rts cs seq)) =
     (if cs \<or> rcvd_test rts seq \<noteq> 0 then rcvd_tbl rts else tbl_set (rcvd_tbl rts) seq)"
  "opts (fst (count_reply rts cs seq)) = opts rts" "datalen (fst (count_reply rts cs seq)) = datalen rts"
  "timing (fst (count_reply rts cs seq)) = timing rts" "tmin (fst (count_reply rts cs seq)) = tmin rts"
  "tmax (fst (count_reply rts cs seq)) = tmax rts" "tsum (fst (count_reply rts cs seq)) = tsum rts"
  "rtt (fst (count_reply rts cs seq)) = rtt rts" "outpack (fst (count_reply rts cs seq)) = outpack rts"
  by (simp_all add: count_reply_def rcvd_set_def)

text \<open>
  In text mode a reply is always taken.  \<open>gathered\<close> is the state after it: the counted state,
  with the time recorded when there is one.
\<close>

definition gathered_trip :: "ping_rts \<Rightarrow> int \<Rightarrow> u16 \<Rightarrow> bool \<Rightarrow> bool \<Rightarrow> int \<Rightarrow> ping_rts" where
  "gathered_trip rts cc seq csfailed l t =
     (let rts = with_latency ((if csfailed then rts else acknowledge rts seq)\<lparr>nreceived := nreceived rts + 1\<rparr>) l
      in if timed rts cc \<and> \<not> csfailed then record_trip rts t else rts)"

definition gathered :: "ping_rts \<Rightarrow> int \<Rightarrow> u16 \<Rightarrow> bool \<Rightarrow> bool \<Rightarrow> int \<Rightarrow> ping_rts" where
  "gathered rts cc seq csfailed l t =
     (let rts = fst (count_reply (gathered_trip rts cc seq csfailed l t) csfailed seq)
      in rts\<lparr>confirm := confirm_flag rts\<rparr>)"

lemma acknowledge_nreceived [simp]:
  "acknowledge (rts\<lparr>nreceived := n\<rparr>) seq = (acknowledge rts seq)\<lparr>nreceived := n\<rparr>"
  by (simp add: acknowledge_def Let_def)

lemma timed_sel [simp]:
  "timed (rts\<lparr>nreceived := n\<rparr>) cc = timed rts cc" "timed (rts\<lparr>opts := os\<rparr>) cc = timed rts cc"
  "timed (acknowledge rts seq) cc = timed rts cc"
  by (simp_all add: timed_def)

lemma gather_trip_returns:
  assumes "\<not> opt_json (opts rts)"
  obtains l t where "returns (gather_trip now rts data cc seq cs tv) (gathered_trip rts cc seq cs l t, t)"
    "0 \<le> t" "t \<le> trip_max"
proof -
  define rts0 where "rts0 = (if cs then rts else acknowledge rts seq)\<lparr>nreceived := nreceived rts + 1\<rparr>"
  have rts0: "(if cs then rts\<lparr>nreceived := nreceived rts + 1\<rparr>
       else acknowledge (rts\<lparr>nreceived := nreceived rts + 1\<rparr>) seq) = rts0"
    by (simp add: rts0_def)
  have timed: "timed rts0 cc = timed rts cc" and "\<not> opt_json (opts rts0)"
    using assms by (simp_all add: rts0_def)
  then obtain l t where t: "returns (trip_time now rts0 tv (read_timeval data)) (with_latency rts0 l, t)"
      "0 \<le> t" "t \<le> trip_max"
    using trip_time_returns by blast
  show thesis
  proof (cases "timed rts cc")
    case True
    then have "returns (gather_trip now rts data cc seq cs tv) (gathered_trip rts cc seq cs l t, t)"
      unfolding gather_trip_def Let_def rts0 using timed t(1)
      by (auto simp: gathered_trip_def rts0_def [symmetric] intro!: returns_and_thenI)
    with t show ?thesis using that by blast
  next
    case False
    then have "returns (gather_trip now rts data cc seq cs tv)
        (gathered_trip rts cc seq cs (opt_latency (opts rts0)) 0, 0)"
      unfolding gather_trip_def Let_def rts0 using timed
      by (simp add: gathered_trip_def rts0_def [symmetric])
    then show ?thesis using that by (fastforce simp: trip_max_def)
  qed
qed

lemma gather_output_returns:
  assumes "\<not> opt_json (opts rts)" "\<And>rts. \<not> opt_json (opts rts) \<Longrightarrow> pr_reply rts = print pr (ret rts)"
    "datalen rts \<le> int (length data)"
  shows "\<exists>r. returns (gather_output now rts data cc hops cs from pr_reply multi wrong dup t) (rts, r)"
  using reply_line_text(1) [of rts pr_reply pr cc data] assms
  by (cases "opt_quiet (opts rts)"; cases "opt_flood (opts rts)") (force simp: gather_output_def)+

lemma gathered_sel:
  "opts (gathered rts cc seq cs l t) = (opts rts)\<lparr>opt_latency := l\<rparr>"
  "datalen (gathered rts cc seq cs l t) = datalen rts" "timing (gathered rts cc seq cs l t) = timing rts"
  "nreceived (gathered rts cc seq cs l t) =
     nreceived rts + (if cs \<or> rcvd_test rts seq \<noteq> 0 then 0 else 1)"
  "nrepeats (gathered rts cc seq cs l t) = nrepeats rts + (if \<not> cs \<and> rcvd_test rts seq \<noteq> 0 then 1 else 0)"
  "nchecksum (gathered rts cc seq cs l t) = nchecksum rts + (if cs then 1 else 0)"
  "rcvd_tbl (gathered rts cc seq cs l t) =
     (if cs \<or> rcvd_test rts seq \<noteq> 0 then rcvd_tbl rts else tbl_set (rcvd_tbl rts) seq)"
  by (simp_all add: gathered_def gathered_trip_def Let_def count_reply_sel rcvd_test_def)

lemma gather_statistics_returns:
  assumes "\<not> opt_json (opts rts)" "\<And>rts. \<not> opt_json (opts rts) \<Longrightarrow> pr_reply rts = print pr (ret rts)"
    "datalen rts \<le> int (length data)"
  obtains l t r where
    "returns (gather_statistics now now' rts data cc seq hops cs tv from pr_reply multi wrong)
       (gathered rts cc seq cs l t, r)" "0 \<le> t" "t \<le> trip_max"
proof -
  obtain l t where t: "returns (gather_trip now rts data cc seq cs tv) (gathered_trip rts cc seq cs l t, t)"
      "0 \<le> t" "t \<le> trip_max"
    using gather_trip_returns [OF assms(1)] by blast
  obtain rts2 dup where c: "count_reply (gathered_trip rts cc seq cs l t) cs seq = (rts2, dup)" by force
  then have g: "rts2\<lparr>confirm := confirm_flag rts2\<rparr> = gathered rts cc seq cs l t"
    by (simp add: gathered_def Let_def)
  obtain r where "returns (gather_output now' (gathered rts cc seq cs l t) data cc hops cs from pr_reply multi wrong
      dup t) (gathered rts cc seq cs l t, r)"
    using gather_output_returns [of "gathered rts cc seq cs l t" pr_reply pr data now' cc hops cs "from" multi
        wrong dup t] assms
    by (auto simp: gathered_sel)
  then have "returns (gather_statistics now now' rts data cc seq hops cs tv from pr_reply multi wrong)
      (gathered rts cc seq cs l t, r)"
    unfolding gather_statistics_def by (intro returns_and_thenI [OF t(1)]) (simp add: c g)
  with t show thesis using that by blast
qed

subsection \<open>Runs of replies\<close>

text \<open>The arguments of one call of \<open>gather_statistics\<close>, and a sequence of calls.\<close>

record reply =
  r_clock :: "timeval \<times> timeval"
  r_data :: "u8 list"
  r_cc :: int
  r_seq :: u16
  r_hops :: int
  r_bad :: bool
  r_time :: timeval
  r_from :: string
  r_text :: string
  r_multi :: bool
  r_wrong :: bool

definition gather_reply :: "ping_rts \<Rightarrow> reply \<Rightarrow> ping_rts result" where
  "gather_reply rts r =
     and_then (gather_statistics (fst (r_clock r)) (snd (r_clock r)) rts (r_data r) (r_cc r) (r_seq r)
         (r_hops r) (r_bad r) (r_time r) (r_from r) (\<lambda>rts. print (r_text r) (ret rts)) (r_multi r) (r_wrong r))
       (\<lambda>(rts, _). ret rts)"

primrec gather_replies :: "ping_rts \<Rightarrow> reply list \<Rightarrow> ping_rts result" where
  "gather_replies rts [] = ret rts"
| "gather_replies rts (r # rs) = and_then (gather_reply rts r) (\<lambda>rts. gather_replies rts rs)"

definition good_seqs :: "reply list \<Rightarrow> u16 list" where
  "good_seqs rs = map r_seq (filter (\<lambda>r. \<not> r_bad r) rs)"

lemma gather_reply_returns:
  assumes "\<not> opt_json (opts rts)" "datalen rts \<le> int (length (r_data r))"
  obtains l t where "returns (gather_reply rts r) (gathered rts (r_cc r) (r_seq r) (r_bad r) l t)"
    "0 \<le> t" "t \<le> trip_max"
proof -
  obtain l t k where "returns (gather_statistics (fst (r_clock r)) (snd (r_clock r)) rts (r_data r) (r_cc r)
      (r_seq r) (r_hops r) (r_bad r) (r_time r) (r_from r) (\<lambda>rts. print (r_text r) (ret rts)) (r_multi r)
      (r_wrong r)) (gathered rts (r_cc r) (r_seq r) (r_bad r) l t, k)" "0 \<le> t" "t \<le> trip_max"
    using gather_statistics_returns [of rts "\<lambda>rts. print (r_text r) (ret rts)" "r_text r" "r_data r"] assms
    by (metis (no_types, lifting))
  then show thesis using that by (fastforce simp: gather_reply_def returns_and_then)
qed

text \<open>
  The induction over a run: \<open>step\<close> is kept by the state after each reply, \<open>prems\<close> holds of the
  data bytes throughout because replies change neither \<open>datalen\<close> nor the output mode.
\<close>

lemma gather_replies_induct:
  assumes "\<not> opt_json (opts rts)" "\<forall>r \<in> set rs. datalen rts \<le> int (length (r_data r))" "P rs rts"
    and "\<And>rts r rs l t. P (r # rs) rts \<Longrightarrow> 0 \<le> t \<Longrightarrow> t \<le> trip_max \<Longrightarrow>
      P rs (gathered rts (r_cc r) (r_seq r) (r_bad r) l t)"
  shows "\<exists>rts'. returns (gather_replies rts rs) rts' \<and> P [] rts'"
  using assms(1-3)
proof (induction rs arbitrary: rts)
  case (Cons r rs)
  obtain l t where t: "returns (gather_reply rts r) (gathered rts (r_cc r) (r_seq r) (r_bad r) l t)"
      "0 \<le> t" "t \<le> trip_max"
    using gather_reply_returns [of rts r] Cons.prems by auto
  have "P rs (gathered rts (r_cc r) (r_seq r) (r_bad r) l t)"
    using assms(4) Cons.prems(3) t by blast
  then obtain rts' where "returns (gather_replies (gathered rts (r_cc r) (r_seq r) (r_bad r) l t) rs) rts'"
      "P [] rts'"
    using Cons.IH [of "gathered rts (r_cc r) (r_seq r) (r_bad r) l t"] Cons.prems
    by (auto simp: gathered_sel)
  with t(1) show ?case by (auto intro: returns_and_thenI)
qed auto

text \<open>
  C1: whatever replies arrive, in any order and multiplicity, \<open>nreceived\<close> grows by the number of
  distinct new sequence numbers among the replies with a good checksum, \<open>nrepeats\<close> by the
  remaining good replies and \<open>nchecksum\<close> by the bad ones; the run of replies always returns.
\<close>

theorem replies_counted:
  assumes "\<not> opt_json (opts rts)" "\<forall>r \<in> set rs. datalen rts \<le> int (length (r_data r))"
    and "tbl_inv (rcvd_tbl rts)"
  shows "\<exists>rts'. returns (gather_replies rts rs) rts' \<and>
    nreceived rts' = nreceived rts + int (card (set (good_seqs rs) - {s. rcvd_test rts s \<noteq> 0})) \<and>
    nreceived rts' + nrepeats rts' = nreceived rts + nrepeats rts + int (length (good_seqs rs)) \<and>
    nchecksum rts' = nchecksum rts + (int (length rs) - int (length (good_seqs rs)))"
proof -
  define fresh where "fresh ss t = int (count_fresh tbl_set (\<lambda>t s. tbl_test t s \<noteq> 0) t ss)" for ss t
  define P where "P qs r \<longleftrightarrow> tbl_inv (rcvd_tbl r) \<and>
      nreceived r + fresh (good_seqs qs) (rcvd_tbl r) = nreceived rts + fresh (good_seqs rs) (rcvd_tbl rts) \<and>
      nreceived r + nrepeats r + int (length (good_seqs qs)) =
        nreceived rts + nrepeats rts + int (length (good_seqs rs)) \<and>
      nchecksum r + (int (length qs) - int (length (good_seqs qs))) =
        nchecksum rts + (int (length rs) - int (length (good_seqs rs)))" for qs and r :: ping_rts
  have "P qs (gathered r1 (r_cc q) (r_seq q) (r_bad q) l t)" if "P (q # qs) r1" for r1 q qs l t
    using that
    by (auto simp: P_def gathered_sel fresh_def good_seqs_def rcvd_test_def split: if_splits)
  moreover have "P rs rts" using assms(3) by (simp add: P_def)
  ultimately obtain rts' where "returns (gather_replies rts rs) rts'" "P [] rts'"
    using gather_replies_induct [of rts rs P] assms by blast
  moreover have "fresh (good_seqs rs) (rcvd_tbl rts) =
      int (card (set (good_seqs rs) - {s. rcvd_test rts s \<noteq> 0}))"
    using rcvd.count_fresh_card [OF assms(3)] by (simp add: fresh_def rcvd_test_def)
  ultimately show ?thesis by (auto simp: P_def fresh_def good_seqs_def)
qed

definition sample_reply :: "u16 \<Rightarrow> bool \<Rightarrow> reply" where
  "sample_reply seq bad = \<lparr>r_clock = (\<lparr>tv_sec = 0, tv_usec = 0\<rparr>, \<lparr>tv_sec = 0, tv_usec = 0\<rparr>),
     r_data = zeros 56, r_cc = 64, r_seq = seq, r_hops = 64, r_bad = bad,
     r_time = \<lparr>tv_sec = 0, tv_usec = 300\<rparr>, r_from = ''::1'', r_text = '' icmp_seq=1'',
     r_multi = False, r_wrong = False\<rparr>"

lemma initial_rts_sel [simp]:
  "opts initial_rts = no_opts" "datalen initial_rts = 56" "rcvd_tbl initial_rts = zeros 1024"
  "nreceived initial_rts = 0" "nrepeats initial_rts = 0" "nchecksum initial_rts = 0"
  "ntransmitted initial_rts = 0" "nerrors initial_rts = 0" "timing initial_rts = False"
  by (simp_all add: initial_rts_def rts_with_def)

lemma initial_tbl [simp]: "tbl_inv (zeros 1024)" "tbl_test (zeros 1024) s = 0"
proof -
  show "tbl_inv (zeros 1024)" by (simp add: tbl_inv_def MAX_DUP_CHK_def BITMAP_SHIFT_def)
  have "A_index (seq_bit s) < 1024"
    using A_index_less [of s] by (simp add: MAX_DUP_CHK_def BITMAP_SHIFT_def)
  then show "tbl_test (zeros 1024) s = 0" by (simp add: tbl_test_def Let_def)
qed

definition sample_run :: "reply list" where
  "sample_run = [sample_reply 1 False, sample_reply 2 False, sample_reply 1 False, sample_reply 3 True]"

lemma sample_run_sel:
  "\<forall>r \<in> set sample_run. length (r_data r) = 56 \<and> r_cc r = 64" "good_seqs sample_run = [1, 2, 1]"
  "length sample_run = 4" "card {1, 2, 1 :: u16} = 2"
proof -
  have "{1, 2, 1 :: u16} = {1, 2}" by auto
  then show "card {1, 2, 1 :: u16} = 2" by simp
qed (simp_all add: sample_run_def sample_reply_def good_seqs_def)

theorem replies_counted_witness:
  "\<exists>rts'. returns (gather_replies initial_rts sample_run) rts' \<and>
    nreceived rts' = 2 \<and> nrepeats rts' = 1 \<and> nchecksum rts' = 1"
  using replies_counted [of initial_rts sample_run] sample_run_sel by (auto simp: no_opts_def rcvd_test_def)

subsection \<open>Averages\<close>

text \<open>
  The moving average in units of an eighth: \<open>rtt\<close> stays between eight times the smallest and
  eight times the largest round trip time, and never wraps.
\<close>

definition ewma :: "u64 \<Rightarrow> int \<Rightarrow> u64" where
  "ewma w t = (if w = 0 then word_of_int t * 8 else w + (word_of_int t - w div 8))"

lemma uint_ewma:
  assumes "0 \<le> t" "t \<le> trip_max" "uint w \<le> 8 * trip_max"
  shows "uint (ewma w t) = (if uint w = 0 then 8 * t else uint w - uint w div 8 + t)"
proof -
  have small: "uint (word_of_int x :: u64) = x" if "0 \<le> x" "x \<le> 16 * trip_max" for x
    using that by (simp add: trip_max_def unsigned_of_int take_bit_int_eq_self)
  define x where "x = (if uint w = 0 then 8 * t else uint w - uint w div 8 + t)"
  have "ewma w t = word_of_int x"
    by (simp add: x_def ewma_def word_div_def uint_0_iff mult.commute)
  moreover have w: "0 \<le> uint w" "0 \<le> uint w div 8" by (simp_all add: pos_imp_zdiv_nonneg_iff)
  then have "uint w div 8 \<le> uint w" by linarith
  with w have "0 \<le> x" "x \<le> 16 * trip_max"
    using assms by (simp_all add: x_def)
  ultimately show ?thesis using small unfolding x_def [symmetric] by simp
qed

lemma ewma_between:
  assumes "0 \<le> m" "m \<le> t" "t \<le> M" "M \<le> trip_max" "8 * m \<le> uint w" "uint w \<le> 8 * M"
  shows "8 * m \<le> uint (ewma w t) \<and> uint (ewma w t) \<le> 8 * M"
proof -
  have "uint (ewma w t) = (if uint w = 0 then 8 * t else uint w - uint w div 8 + t)"
    using assms by (intro uint_ewma) simp_all
  then show ?thesis using assms by simp linarith
qed

definition times_ok :: "int \<Rightarrow> int \<Rightarrow> int \<Rightarrow> rat \<Rightarrow> u64 \<Rightarrow> bool" where
  "times_ok n lo hi tot w \<longleftrightarrow> (\<exists>S. tot = of_int S \<and>
     (if n = 0 then S = 0 \<and> lo = long_max \<and> hi = 0 \<and> w = 0
      else 0 < n \<and> 0 \<le> lo \<and> lo \<le> hi \<and> hi \<le> trip_max \<and> n * lo \<le> S \<and> S \<le> n * hi \<and>
           8 * lo \<le> uint w \<and> uint w \<le> 8 * hi))"

definition timing_inv :: "ping_rts \<Rightarrow> bool" where
  "timing_inv rts \<longleftrightarrow> timing rts \<and> times_ok (stat_total rts) (tmin rts) (tmax rts) (tsum rts) (rtt rts)"

lemma times_ok_first:
  assumes t: "0 \<le> t" "t \<le> trip_max" and "times_ok 0 lo hi tot w"
  shows "times_ok 1 (min t lo) (max t hi) (d_add tot (d_of_int t)) (ewma w t)"
proof -
  have 0: "lo = long_max" "hi = 0" "tot = 0" "w = 0" using assms(3) by (simp_all add: times_ok_def)
  have "d_add tot (d_of_int t) = of_int t"
    using t d_add_exact [of 0 t] by (simp add: 0 trip_max_def)
  moreover have "uint (ewma w t) = 8 * t" using uint_ewma [of t w] t by (simp add: 0 trip_max_def)
  ultimately show ?thesis using t by (simp add: times_ok_def 0 long_max_def trip_max_def)
qed

lemma times_ok_next:
  assumes t: "0 \<le> t" "t \<le> trip_max" and ok: "times_ok n lo hi tot w" and n: "n \<noteq> 0" "n < 4000000"
  shows "times_ok (n + 1) (min t lo) (max t hi) (d_add tot (d_of_int t)) (ewma w t)"
proof -
  define m M where "m = min t lo" and "M = max t hi"
  obtain S where S: "tot = of_int S" and I: "0 < n" "0 \<le> lo" "lo \<le> hi" "hi \<le> trip_max"
      "n * lo \<le> S" "S \<le> n * hi" "8 * lo \<le> uint w" "uint w \<le> 8 * hi"
    using ok n by (auto simp: times_ok_def)
  have "n * m \<le> n * lo" "n * hi \<le> n * M"
    using I(1) by (simp_all add: m_def M_def mult_left_mono)
  moreover have "m \<le> t" "t \<le> M" by (simp_all add: m_def M_def)
  ultimately have S': "(n + 1) * m \<le> S + t" "S + t \<le> (n + 1) * M"
    using I(5,6) by (simp_all add: distrib_right)
  have "(n + 1) * M \<le> 4000000 * trip_max"
    using I t n by (intro mult_mono) (simp_all add: M_def trip_max_def)
  moreover have "0 \<le> (n + 1) * m" using I t by (simp add: m_def)
  ultimately have "0 \<le> S + t" "S + t < 2 ^ 53" using S' by (simp_all add: trip_max_def)
  then have "d_add tot (d_of_int t) = of_int (S + t)"
    using S t d_add_exact [of S t] by (simp add: trip_max_def)
  moreover have "8 * m \<le> uint (ewma w t) \<and> uint (ewma w t) \<le> 8 * M"
    using I t by (intro ewma_between) (simp_all add: m_def M_def)
  ultimately show ?thesis
    using S' I t unfolding times_ok_def m_def [symmetric] M_def [symmetric]
    by (auto simp: m_def M_def intro!: exI [of _ "S + t"])
qed

lemma gathered_times:
  assumes "timed rts cc"
  shows "tmin (gathered rts cc seq cs l t) = (if cs then tmin rts else min t (tmin rts))"
    "tmax (gathered rts cc seq cs l t) = (if cs then tmax rts else max t (tmax rts))"
    "tsum (gathered rts cc seq cs l t) = (if cs then tsum rts else d_add (tsum rts) (d_of_int t))"
    "rtt (gathered rts cc seq cs l t) = (if cs then rtt rts else ewma (rtt rts) t)"
    "stat_total (gathered rts cc seq cs l t) = stat_total rts + (if cs then 0 else 1)"
  using assms by (simp_all add: gathered_def gathered_trip_def Let_def count_reply_sel ewma_def stat_total_def)

lemma timing_inv_step:
  assumes inv: "timing_inv rts" and cc: "8 + int SIZEOF_TIMEVAL \<le> cc" and t: "0 \<le> t" "t \<le> trip_max"
    and n: "stat_total rts < 4000000"
  shows "timing_inv (gathered rts cc seq cs l t)"
proof -
  have "timed rts cc" using inv cc by (simp add: timing_inv_def timed_def)
  note sel = gathered_times [OF this] gathered_sel
  show ?thesis
    using inv t n times_ok_first [OF t] times_ok_next [OF t]
    by (cases "stat_total rts = 0") (simp_all add: timing_inv_def sel)
qed

lemma timing_inv_average:
  assumes "timing_inv rts" "stat_total rts \<noteq> 0" "stat_total rts \<le> 4000000"
  shows "0 \<le> tmin rts \<and> tmin rts \<le> stat_avg rts \<and> stat_avg rts \<le> tmax rts \<and> tmax rts \<le> trip_max \<and>
    8 * tmin rts \<le> uint (rtt rts) \<and> uint (rtt rts) \<le> 8 * tmax rts"
proof -
  define n where "n = stat_total rts"
  obtain S where S: "tsum rts = of_int S" and I: "0 < n" "0 \<le> tmin rts" "tmin rts \<le> tmax rts"
      "tmax rts \<le> trip_max" "n * tmin rts \<le> S" "S \<le> n * tmax rts"
      "8 * tmin rts \<le> uint (rtt rts)" "uint (rtt rts) \<le> 8 * tmax rts"
    using assms by (auto simp: timing_inv_def times_ok_def n_def)
  define q :: rat where "q = of_int S / of_int n"
  have "(of_int (n * tmin rts) :: rat) \<le> of_int S" "(of_int S :: rat) \<le> of_int (n * tmax rts)"
    using I by (simp_all only: of_int_le_iff)
  then have q: "of_int (tmin rts) \<le> q" "q \<le> of_int (tmax rts)"
    using I(1) by (simp_all add: q_def le_divide_eq divide_le_eq mult.commute)
  have "(of_int (tmax rts) :: rat) \<le> of_int trip_max" "(0 :: rat) \<le> of_int (tmin rts)"
    using I by (simp_all only: of_int_le_iff of_int_0_le_iff)
  then have q0: "0 \<le> q" "q < 2 ^ 53"
    using q by (simp_all add: trip_max_def)
  have "stat_avg rts = d_to_int (rnd q)"
    using assms(3) I(1) by (simp add: stat_avg_def S q_def d_div_def n_def)
  then show ?thesis
    using rnd_ge [OF q0 q(1)] rnd_le [OF q0 q(2)] d_to_int_ge [of "tmin rts" "rnd q"]
      d_to_int_le [of "rnd q" "tmax rts"] rnd_ge [OF q0, of 0] q0 I by simp
qed

text \<open>
  C2: in a run that times every reply, the smallest, average and largest round trip times are
  ordered and the moving average lies between the extremes, for up to four million replies
  (so that the \<open>double\<close> sum of microseconds is exact); no time is negative or above the
  maximum that the clock checks allow, however the sender's and receiver's clocks behave.
\<close>

theorem times_ordered:
  assumes "\<not> opt_json (opts rts)" "timing_inv rts" "tbl_inv (rcvd_tbl rts)"
    and "\<forall>r \<in> set rs. datalen rts \<le> int (length (r_data r)) \<and> 8 + int SIZEOF_TIMEVAL \<le> r_cc r"
    and "0 < stat_total rts + int (length (good_seqs rs))"
    and "stat_total rts + int (length (good_seqs rs)) \<le> 4000000"
  shows "\<exists>rts'. returns (gather_replies rts rs) rts' \<and>
    0 \<le> tmin rts' \<and> tmin rts' \<le> stat_avg rts' \<and> stat_avg rts' \<le> tmax rts' \<and> tmax rts' \<le> trip_max \<and>
    8 * tmin rts' \<le> uint (rtt rts') \<and> uint (rtt rts') \<le> 8 * tmax rts'"
proof -
  define P where "P qs r \<longleftrightarrow> timing_inv r \<and> (\<forall>q \<in> set qs. 8 + int SIZEOF_TIMEVAL \<le> r_cc q) \<and>
      stat_total r + int (length (good_seqs qs)) = stat_total rts + int (length (good_seqs rs))"
    for qs and r :: ping_rts
  have "P qs (gathered r1 (r_cc q) (r_seq q) (r_bad q) l t)"
    if P: "P (q # qs) r1" and t: "0 \<le> t" "t \<le> trip_max" for r1 q qs l t
  proof -
    have "timed r1 (r_cc q)" using P by (simp add: P_def timed_def timing_inv_def)
    moreover have "timing_inv (gathered r1 (r_cc q) (r_seq q) (r_bad q) l t)"
    proof (cases "r_bad q")
      case True
      with P show ?thesis
        by (auto simp: P_def timing_inv_def gathered_times(1-5) gathered_sel timed_def)
    next
      case False
      with P assms(6) show ?thesis
        by (intro timing_inv_step t) (auto simp: P_def good_seqs_def)
    qed
    ultimately show ?thesis using P by (auto simp: P_def gathered_times good_seqs_def)
  qed
  moreover have "P rs rts" using assms by (simp add: P_def)
  ultimately obtain rts' where "returns (gather_replies rts rs) rts'" "P [] rts'"
    using gather_replies_induct [of rts rs P] assms by blast
  then show ?thesis
    using timing_inv_average [of rts'] assms(5,6) by (auto simp: P_def good_seqs_def)
qed

theorem times_ordered_witness:
  "\<exists>rts'. returns (gather_replies (initial_rts\<lparr>timing := True\<rparr>) sample_run) rts' \<and>
    tmin rts' \<le> stat_avg rts' \<and> stat_avg rts' \<le> tmax rts'"
proof -
  have "timing_inv (initial_rts\<lparr>timing := True\<rparr>)"
    by (simp add: timing_inv_def times_ok_def stat_total_def) (simp add: initial_rts_def rts_with_def)
  then show ?thesis
    using times_ordered [of "initial_rts\<lparr>timing := True\<rparr>" sample_run] sample_run_sel
    by (auto simp: no_opts_def stat_total_def SIZEOF_TIMEVAL_def)
qed

end
