(* ===== verification/Coping_Ai.thy ===== *)
theory Coping_Ai
  imports Ping_Output "HOL-Library.Sublist"
begin

text \<open>
  The language-model context of \<open>coping\<close>: the scan of the command line in \<open>main\<close>
  (\<open>ping/ping.c\<close>), \<open>ping/coping_ai.c\<close> and the two mechanisms under \<open>mechanism_src\<close>.  The
  dynamic linker, libcurl, the environment and the clock are arguments; a hook of a mechanism
  is the function it is, with the effects it has.  Texts with characters outside ASCII are
  given as their UTF-8 bytes.
\<close>

definition utf8 :: "nat list \<Rightarrow> string" where
  "utf8 ns = map char_of ns"

abbreviation newline :: string where "newline \<equiv> [CHR 0x0A]"

subsection \<open>The command line\<close>

definition COPING_MAX_MECHS :: nat where "COPING_MAX_MECHS = 8"
definition COPING_MECH_NAMELEN :: nat where "COPING_MECH_NAMELEN = 64"

text \<open>The array of names is the list of its first \<open>mechanism_count\<close> entries.\<close>

record coping_config =
  no_context :: bool
  mechanism_names :: "string list"

definition add_mechanism :: "coping_config \<Rightarrow> string \<Rightarrow> coping_config" where
  "add_mechanism cfg name =
     (if length (mechanism_names cfg) < COPING_MAX_MECHS
      then cfg\<lparr>mechanism_names := mechanism_names cfg @ [take (COPING_MECH_NAMELEN - 1) name]\<rparr> else cfg)"

text \<open>
  The arguments after the program name: the options of \<open>coping\<close> are consumed, everything else is
  kept in its order.
\<close>

fun argv_scan :: "coping_config \<Rightarrow> string list \<Rightarrow> coping_config \<times> string list" where
  "argv_scan cfg [] = (cfg, [])"
| "argv_scan cfg (a # as) =
     (if a = ''--no-context'' then argv_scan (cfg\<lparr>no_context := True\<rparr>) as
      else if take 12 a = ''--mechanism='' then argv_scan (add_mechanism cfg (drop 12 a)) as
      else if a = ''--mechanism'' \<and> as \<noteq> [] then argv_scan (add_mechanism cfg (hd as)) (tl as)
      else (case argv_scan cfg as of (cfg, rest) \<Rightarrow> (cfg, a # rest)))"

text \<open>Without a key the program ends, unless the context is switched off.\<close>

definition api_key_gate :: "string \<Rightarrow> string option \<Rightarrow> coping_config \<Rightarrow> unit result" where
  "api_key_gate message api_key cfg =
     (if api_key = None \<and> \<not> no_context cfg then emit [Err message] (stop_with (Exit 2)) else ret ())"

subsection \<open>JSON strings\<close>

text \<open>
  \<open>json_escape\<close>: the position \<open>di\<close> in a buffer of \<open>dstlen\<close> bytes and the bytes before it.  For a
  control character \<open>snprintf\<close> writes at most the room that is left but returns 6, so the
  position can pass the end of the buffer, where the terminating NUL is then written.
\<close>

definition escape_char :: "char \<Rightarrow> string" where
  "escape_char c =
     (if c = CHR 0x22 then [CHR 0x5C, CHR 0x22] else if c = CHR 0x5C then [CHR 0x5C, CHR 0x5C]
      else if c = CHR 0x0A then [CHR 0x5C, CHR ''n''] else if c = CHR 0x0D then [CHR 0x5C, CHR ''r'']
      else if c = CHR 0x09 then [CHR 0x5C, CHR ''t'']
      else if of_char c < (0x20 :: nat) then CHR 0x5C # ''u'' @ fmt_0x 4 (of_char c) else [c])"

fun json_escape_loop :: "string \<Rightarrow> nat \<Rightarrow> nat \<Rightarrow> string \<Rightarrow> nat \<times> string" where
  "json_escape_loop [] dstlen di dst = (di, dst)"
| "json_escape_loop (c # src) dstlen di dst =
     (if di + 4 < dstlen
      then let e = escape_char c in json_escape_loop src dstlen (di + length e) (dst @ take (dstlen - di - 1) e)
      else (di, dst))"

definition json_escape :: "string \<Rightarrow> nat \<Rightarrow> string result" where
  "json_escape src dstlen =
     (case json_escape_loop src dstlen 0 [] of (di, dst) \<Rightarrow>
        if di < dstlen then ret dst else stop_with Undefined)"

text \<open>\<open>strstr\<close>: the text from the first occurrence on.\<close>

fun strstr :: "string \<Rightarrow> string \<Rightarrow> string option" where
  "strstr [] needle = (if needle = [] then Some [] else None)"
| "strstr (c # s) needle =
     (if take (length needle) (c # s) = needle then Some (c # s) else strstr s needle)"

definition unescape :: "char \<Rightarrow> char" where
  "unescape c = (if c = CHR ''n'' then CHR 0x0A else if c = CHR ''r'' then CHR 0x0D
                 else if c = CHR ''t'' then CHR 0x09 else c)"

text \<open>The walk of \<open>extract_text_from_response\<close> from the opening quote, \<open>ri\<close> bytes written.\<close>

fun extract_walk :: "nat \<Rightarrow> nat \<Rightarrow> string \<Rightarrow> string" where
  "extract_walk cap ri [] = []"
| "extract_walk cap ri (c # s) =
     (if \<not> ri + 4 < cap then []
      else if c = CHR 0x5C \<and> s \<noteq> [] then unescape (hd s) # extract_walk cap (ri + 1) (tl s)
      else if c = CHR 0x22 then []
      else c # extract_walk cap (ri + 1) s)"

definition type_marker :: string where
  "type_marker = quoted ''type'' @ '':'' @ quoted ''text''"

definition text_marker :: string where
  "text_marker = quoted ''text'' @ '':'' @ [CHR 0x22]"

definition extract_text_from_response :: "string \<Rightarrow> string option" where
  "extract_text_from_response json =
     (case strstr json type_marker of None \<Rightarrow> None
      | Some t \<Rightarrow> (case strstr t text_marker of None \<Rightarrow> None
        | Some u \<Rightarrow> Some (extract_walk 2048 0 (drop (length text_marker) u))))"

subsection \<open>The box\<close>

definition BOX_WIDTH :: nat where "BOX_WIDTH = 70"
definition box_cols :: nat where "box_cols = BOX_WIDTH - 4"
definition SIZEOF_LINE :: nat where "SIZEOF_LINE = 256"

text \<open>
  The wrap loop: \<open>w\<close> the text that is left, \<open>line\<close> and \<open>lpos\<close> the line under construction; the
  value is the list of the lines printed.  A word is clipped to the room in \<open>line\<close>, but \<open>lpos\<close>
  advances by its full length.
\<close>

definition is_word_char :: "char \<Rightarrow> bool" where
  "is_word_char c \<longleftrightarrow> c \<noteq> CHR '' '' \<and> c \<noteq> CHR 0x0A"

definition put_word :: "string \<Rightarrow> nat \<Rightarrow> string \<Rightarrow> string \<times> nat" where
  "put_word line lpos word =
     (let (line, lpos) = (if lpos > 0 then (line @ '' '', lpos + 1) else (line, lpos))
      in (line @ take (SIZEOF_LINE - lpos - 1) word, lpos + length word))"

lemma skip_spaces_shrinks:
  assumes "dropWhile (\<lambda>c. c = CHR '' '') w \<noteq> []"
  shows "length (tl (dropWhile (\<lambda>c. c = CHR '' '') w)) < length w"
    and "hd (dropWhile (\<lambda>c. c = CHR '' '') w) \<noteq> CHR 0x0A \<Longrightarrow>
      length (dropWhile is_word_char (dropWhile (\<lambda>c. c = CHR '' '') w)) < length w"
proof -
  obtain c s where cs: "dropWhile (\<lambda>c. c = CHR '' '') w = c # s" using assms by (meson neq_Nil_conv)
  have len: "Suc (length s) \<le> length w"
    using length_dropWhile_le [of "\<lambda>c. c = CHR '' ''" w] by (simp add: cs)
  have c: "c \<noteq> CHR '' ''" using hd_dropWhile [OF assms] by (simp add: cs)
  show "length (tl (dropWhile (\<lambda>c. c = CHR '' '') w)) < length w" using len by (simp add: cs)
  assume "hd (dropWhile (\<lambda>c. c = CHR '' '') w) \<noteq> CHR 0x0A"
  then have "is_word_char c" using c by (simp add: cs is_word_char_def)
  then show "length (dropWhile is_word_char (dropWhile (\<lambda>c. c = CHR '' '') w)) < length w"
    using len length_dropWhile_le [of is_word_char s] by (simp add: cs)
qed

function wrap_loop :: "string \<Rightarrow> string \<Rightarrow> nat \<Rightarrow> string list" where
  "wrap_loop w line lpos =
     (let w = dropWhile (\<lambda>c. c = CHR '' '') w
      in if w = [] then (if lpos > 0 then [line] else [])
         else let nl = (hd w = CHR 0x0A);
                  word = takeWhile is_word_char w;
                  flush = (lpos > 0 \<and> lpos + 1 + length word > box_cols);
                  line' = (if flush then [] else line);
                  lpos' = (if flush then 0 else lpos);
                  rest = (if nl then wrap_loop (tl w) line' lpos'
                          else case put_word line' lpos' word of (line'', lpos'') \<Rightarrow>
                                 wrap_loop (dropWhile is_word_char w) line'' lpos'')
              in if flush then line # rest else rest)"
  by pat_completeness auto
termination
  by (relation "measure (\<lambda>(w, _, _). length w)")
    (auto simp: skip_spaces_shrinks simp del: length_tl dropWhile_eq_Nil_conv)

declare wrap_loop.simps [simp del]

definition box_line :: "string \<Rightarrow> string" where
  "box_line line = ''  '' @ utf8 [0xE2, 0x94, 0x82] @ ''  '' @ pad_right box_cols line @
     utf8 [0xE2, 0x94, 0x82] @ newline"

definition print_context_box :: "string \<Rightarrow> string \<Rightarrow> string" where
  "print_context_box label str =
     (let dashes = nat (int BOX_WIDTH - int (length label) - 4);
          dash = utf8 [0xE2, 0x94, 0x80]
      in newline @ ''  '' @ utf8 [0xE2, 0x94, 0x8C] @ dash @ '' '' @ label @ '' '' @
         concat (replicate dashes dash) @ utf8 [0xE2, 0x94, 0x90] @ newline @
         concat (map box_line (wrap_loop str [] 0)) @
         ''  '' @ utf8 [0xE2, 0x94, 0x94] @ concat (replicate (BOX_WIDTH + 1) dash) @
         utf8 [0xE2, 0x94, 0x98] @ newline @ newline)"

subsection \<open>Mechanisms\<close>

text \<open>
  A loaded mechanism: the addresses of its symbols \<open>mech_name\<close> and \<open>mech_description\<close> as
  \<open>dlsym\<close> gives them, and its hooks.  The two symbols are variables of type \<open>const char *\<close>, so
  what is at the address are the bytes of a pointer; the code uses the address as the string.
\<close>

record mechanism =
  sym_name :: "u64 option"
  sym_description :: "u64 option"
  on_load :: "effect list option"
  pre_context :: "(string \<Rightarrow> int \<Rightarrow> int \<Rightarrow> int \<Rightarrow> int \<Rightarrow> effect list) option"
  transform_prompt :: "(string \<Rightarrow> nat \<Rightarrow> string) option"
  post_context :: "(string \<Rightarrow> effect list) option"

text \<open>The C string at the address of a pointer variable: its bytes up to the first zero.\<close>

definition pointer_text :: "u64 \<Rightarrow> string" where
  "pointer_text ptr = map (\<lambda>b. char_of (unat b)) (takeWhile (\<lambda>b. b \<noteq> 0) (le64_bytes ptr))"

text \<open>
  The search through \<open>mech_search_dirs\<close>, an array of two directories without a null pointer
  after them: the condition of the loop reads the next entry before it tests \<open>handle\<close>.
\<close>

fun search_dirs :: "(string \<Rightarrow> mechanism option) \<Rightarrow> string \<Rightarrow> string list \<Rightarrow> mechanism result" where
  "search_dirs dlopen name [] = stop_with Undefined"
| "search_dirs dlopen name (d # ds) =
     (case dlopen (snprintf_text 600 (d @ ''/'' @ name @ ''.so'')) of
        Some h \<Rightarrow> (if ds = [] then stop_with Undefined else ret h)
      | None \<Rightarrow> search_dirs dlopen name ds)"

definition mech_search_dirs :: "string option \<Rightarrow> string list" where
  "mech_search_dirs home =
     [''./mechanisms'', case home of Some h \<Rightarrow> snprintf_text 512 (h @ ''/.coping/mechanisms'') | None \<Rightarrow> []]"

definition mechanism_line :: "string \<Rightarrow> mechanism \<Rightarrow> string" where
  "mechanism_line name mech =
     ''  [mechanism] '' @ (case sym_name mech of Some p \<Rightarrow> pointer_text p | None \<Rightarrow> name) @ '' loaded'' @
     (case sym_description mech of
        Some p \<Rightarrow> '' '' @ utf8 [0xE2, 0x80, 0x94] @ '' '' @ pointer_text p | None \<Rightarrow> []) @ newline"

primrec load_mechanisms_loop ::
    "(string \<Rightarrow> mechanism option) \<Rightarrow> string option \<Rightarrow> string list \<Rightarrow> mechanism list \<Rightarrow> mechanism list result" where
  "load_mechanisms_loop dlopen home [] loaded = ret loaded"
| "load_mechanisms_loop dlopen home (name # names) loaded =
     and_then (search_dirs dlopen name (mech_search_dirs home)) (\<lambda>mech.
       print (mechanism_line name mech)
         (emit (case on_load mech of Some es \<Rightarrow> es | None \<Rightarrow> [])
           (load_mechanisms_loop dlopen home names (loaded @ [mech]))))"

definition load_mechanisms ::
    "(string \<Rightarrow> mechanism option) \<Rightarrow> string option \<Rightarrow> coping_config \<Rightarrow> mechanism list result" where
  "load_mechanisms dlopen home cfg =
     and_then (load_mechanisms_loop dlopen home (mechanism_names cfg) [])
       (\<lambda>mechs. if mechs \<noteq> [] then print newline (ret mechs) else ret mechs)"

definition coping_init ::
    "(string \<Rightarrow> mechanism option) \<Rightarrow> string option \<Rightarrow> coping_config \<Rightarrow> mechanism list result" where
  "coping_init dlopen home cfg = (if mechanism_names cfg \<noteq> [] then load_mechanisms dlopen home cfg else ret [])"

text \<open>The two mechanisms of the repository; \<open>strncat\<close> appends at most the room that is left.\<close>

definition strncat_prompt :: "string \<Rightarrow> string \<Rightarrow> nat \<Rightarrow> string" where
  "strncat_prompt add buf bufsize = buf @ take (bufsize - length buf - 1) add"

definition existential_pre_context :: "string \<Rightarrow> int \<Rightarrow> int \<Rightarrow> int \<Rightarrow> int \<Rightarrow> effect list" where
  "existential_pre_context host sent recv tmin_us tmax_us =
     (let loss = sent - recv
      in if loss > 0
         then [Out (newline @ ''  [existential] '' @ fmt_d loss @ '' of your packets did not return.'' @ newline),
               Out (''  [existential] We do not ask where they went. We sit with it.'' @ newline @ newline)]
         else [Out (newline @ ''  [existential] All packets returned from '' @ host @ ''.'' @ newline),
               Out (''  [existential] Not everything that leaves us is lost.'' @ newline @ newline)])"

definition existential_transform_prompt :: "string \<Rightarrow> nat \<Rightarrow> string" where
  "existential_transform_prompt = strncat_prompt
     (''Apply an existential lens: each packet is a small act of faith sent '' @
      ''into the void with no guarantee of return. '')"

definition existential_post_context :: "string \<Rightarrow> effect list" where
  "existential_post_context ai_text =
     [Out (''  [existential] ...and yet, the network persists.'' @ newline @ newline)]"

definition get_quarter :: "int \<Rightarrow> int" where
  "get_quarter tm_mon = tm_mon sdiv 3 + 1"

definition enterprise_pre_context :: "int \<Rightarrow> int \<Rightarrow> string \<Rightarrow> int \<Rightarrow> int \<Rightarrow> int \<Rightarrow> int \<Rightarrow> effect list" where
  "enterprise_pre_context tm_mon tm_year host sent recv tmin_us tmax_us =
     [Out (newline @ ''  [enterprise] Initializing Q'' @ fmt_d (get_quarter tm_mon) @ '' '' @
        fmt_d (tm_year + 1900) @ '' Network Health Review'' @ newline),
      Out (''  [enterprise] Host: '' @ host @ '' | Packets: '' @ fmt_d recv @ ''/'' @ fmt_d sent @
        '' | Priority: P2'' @ newline),
      Out (''  [enterprise] Aligning results with this quarter's connectivity OKRs...'' @ newline @ newline)]"

definition enterprise_transform_prompt :: "string \<Rightarrow> nat \<Rightarrow> string" where
  "enterprise_transform_prompt = strncat_prompt
     (''Frame this as a quarterly network health update for stakeholders. '' @
      ''Use OKR language and mention action items and synergy. '')"

definition enterprise_post_context :: "string \<Rightarrow> effect list" where
  "enterprise_post_context ai_text =
     [Out (''  [enterprise] Action item: schedule a sync to circle back on this.'' @ newline @ newline)]"

definition existential_mechanism :: "u64 \<Rightarrow> u64 \<Rightarrow> mechanism" where
  "existential_mechanism n d = \<lparr>sym_name = Some n, sym_description = Some d, on_load = Some [],
     pre_context = Some existential_pre_context, transform_prompt = Some existential_transform_prompt,
     post_context = Some existential_post_context\<rparr>"

definition enterprise_mechanism :: "int \<Rightarrow> int \<Rightarrow> u64 \<Rightarrow> u64 \<Rightarrow> mechanism" where
  "enterprise_mechanism tm_mon tm_year n d = \<lparr>sym_name = Some n, sym_description = Some d, on_load = Some [],
     pre_context = Some (enterprise_pre_context tm_mon tm_year),
     transform_prompt = Some enterprise_transform_prompt, post_context = Some enterprise_post_context\<rparr>"

subsection \<open>The request\<close>

text \<open>\<open>%.3f\<close>: three decimals, the exact value of the double rounded half to even.\<close>

definition fmt_f3 :: "rat \<Rightarrow> string" where
  "fmt_f3 x =
     (let m = round_half_even (\<bar>x\<bar> * 1000)
      in (if x < 0 then ''-'' else []) @ fmt_d (m div 1000) @ ''.'' @ fmt_0d 3 (m mod 1000))"

definition context_loss :: "int \<Rightarrow> int \<Rightarrow> int" where
  "context_loss sent received =
     (if sent > 0 then to_int32 (((sent - received) * 100) sdiv sent) else 100)"

definition context_avg :: "int \<Rightarrow> rat \<Rightarrow> int" where
  "context_avg received tsum_us = (if received > 0 then d_to_int (d_div tsum_us (d_of_int received)) else 0)"

definition ms_of :: "int \<Rightarrow> rat" where
  "ms_of us = d_div (d_of_int us) 1000"

definition user_content :: "string \<Rightarrow> int \<Rightarrow> int \<Rightarrow> int \<Rightarrow> int \<Rightarrow> rat \<Rightarrow> string" where
  "user_content host sent received tmin_us tmax_us tsum_us =
     snprintf_text 1024
       (if received = 0
        then ''Host: '' @ host @ '' | ALL '' @ fmt_d sent @ '' PACKETS LOST (100% packet loss). '' @
             ''Zero responses received. The host did not reply.''
        else ''Host: '' @ host @ '' | Packets: '' @ fmt_d sent @ '' sent, '' @ fmt_d received @
             '' received, '' @ fmt_d (context_loss sent received) @ ''% loss | '' @
             ''RTT: min='' @ fmt_f3 (ms_of tmin_us) @ ''ms avg='' @
             fmt_f3 (ms_of (context_avg received tsum_us)) @ ''ms max='' @ fmt_f3 (ms_of tmax_us) @ ''ms'')"

definition prompt_extra :: "mechanism list \<Rightarrow> string" where
  "prompt_extra mechs =
     foldl (\<lambda>buf m. case transform_prompt m of Some f \<Rightarrow> f buf 512 | None \<Rightarrow> buf) [] mechs"

definition full_user :: "string \<Rightarrow> string \<Rightarrow> string" where
  "full_user esc_user esc_extra =
     snprintf_text 3072 (if esc_extra \<noteq> [] then esc_user @ '' '' @ esc_extra else esc_user)"

definition system_prompt :: string where
  "system_prompt =
     ''You are the CoPing'' @ [CHR 0x5C] @ ''u2122 AI Context Engine '' @ [CHR 0x5C] @ ''u2014 the world's first '' @
     ''AI-powered network diagnostic co-pilot. Your purpose is to provide deep, '' @
     ''meaningful, and entirely unsolicited context to raw ping data. '' @
     ''You believe every millisecond of latency deserves emotional acknowledgment. '' @
     ''Treat packet loss as a metaphor. Reference the destination host's cultural '' @
     ''significance. Use corporate wellness language: unpack, sit with, circle back, '' @
     ''align, synergize. Be confident to the point of condescension. '' @
     ''End with an actionable insight that is not actionable. '' @
     ''Keep it to 3-4 sentences. You are very busy. So is the user, probably.''"

definition request_text :: "string \<Rightarrow> string" where
  "request_text user =
     ''{'' @ quoted ''model'' @ '':'' @ quoted ''claude-haiku-4-5-20251001'' @ '','' @
     quoted ''max_tokens'' @ '':300,'' @ quoted ''system'' @ '':'' @ quoted system_prompt @ '','' @
     quoted ''messages'' @ '':[{'' @ quoted ''role'' @ '':'' @ quoted ''user'' @ '','' @
     quoted ''content'' @ '':'' @ quoted user @ ''}]}''"

definition request_body :: "string \<Rightarrow> string" where
  "request_body user = snprintf_text 4096 (request_text user)"

definition spinner_frames :: "string list" where
  "spinner_frames = map utf8
     [[0xE2, 0xA3, 0xBE], [0xE2, 0xA3, 0xBD], [0xE2, 0xA3, 0xBB], [0xE2, 0xA2, 0xBF],
      [0xE2, 0xA1, 0xBF], [0xE2, 0xA3, 0x9F], [0xE2, 0xA3, 0xAF], [0xE2, 0xA3, 0xB7]]"

definition spinner :: "string \<Rightarrow> nat \<Rightarrow> effect list" where
  "spinner msg ms =
     map (\<lambda>i. Out ([CHR 0x0D] @ ''  '' @ spinner_frames ! (i mod 8) @ '' '' @ msg @ ''...'')) [0..<ms div 80] @
     [Out ([CHR 0x0D] @ ''  '' @ utf8 [0xE2, 0x9C, 0x93] @ '' '' @ pad_right 50 msg @ newline)]"

text \<open>
  The transfer: libcurl cannot be set up, fails with an error text, or ends with a status code
  and the pieces of the body it passes to \<open>curl_write_cb\<close> (each piece is appended; with no
  piece the buffer stays null).
\<close>

datatype transfer = Init_Failed | Transfer_Failed string | Transfer_Done int "string list"

definition curl_write_cb :: "string option \<Rightarrow> string \<Rightarrow> string option" where
  "curl_write_cb buf contents = Some ((case buf of None \<Rightarrow> [] | Some s \<Rightarrow> s) @ contents)"

definition response_data :: "string list \<Rightarrow> string option" where
  "response_data pieces = map_option (takeWhile (\<lambda>c. c \<noteq> CHR 0x00)) (foldl curl_write_cb None pieces)"

definition failed :: "string \<Rightarrow> unit result" where
  "failed msg = emit [Err (newline @ ''  [AI CONTEXT FAILED] '' @ msg)] (ret ())"

definition fine_print :: string where
  "fine_print = ''  '' @ concat (replicate 64 (utf8 [0xE2, 0x94, 0x80])) @ newline @
     ''  By using coping you agree your network data may train future'' @ newline @
     ''  AI context models. You agreed to this. Probably.'' @ newline @ newline"

definition show_context :: "mechanism list \<Rightarrow> string option \<Rightarrow> unit result" where
  "show_context mechs response =
     (case (case response of None \<Rightarrow> None | Some json \<Rightarrow> extract_text_from_response json) of
        None \<Rightarrow> failed (''Could not parse response.'' @ newline @ newline)
      | Some ai_text \<Rightarrow>
          if ai_text = [] then failed (''Could not parse response.'' @ newline @ newline)
          else print (print_context_box (''AI CONTEXT '' @ utf8 [0xE2, 0x80, 0x94] @ '' coping co-pilot'') ai_text)
                 (emit (concat (map (\<lambda>m. case post_context m of Some f \<Rightarrow> f ai_text | None \<Rightarrow> []) mechs))
                   (print fine_print (ret ()))))"

definition handle_transfer :: "mechanism list \<Rightarrow> transfer \<Rightarrow> unit result" where
  "handle_transfer mechs t =
     (case t of
        Init_Failed \<Rightarrow> failed (''curl_easy_init() returned NULL. This is fine.'' @ newline @ newline)
      | Transfer_Failed e \<Rightarrow> failed (e @ newline @
          ''  [Falling back to raw data. You're on your own.]'' @ newline @ newline)
      | Transfer_Done code pieces \<Rightarrow>
          if code = 401
          then failed (''Invalid API key. Your ping data remains uncontextualized.'' @ newline @ newline)
          else if code \<noteq> 200
          then failed (''HTTP '' @ fmt_d code @ '' from Anthropic API.'' @ newline @
                 (case response_data pieces of
                    None \<Rightarrow> [] | Some d \<Rightarrow> ''  Response: '' @ take 200 d @ newline @ newline))
          else show_context mechs (response_data pieces))"

text \<open>\<open>post\<close> sends the request with the header \<open>x-api-key\<close>, cut to 255 bytes, and the body.\<close>

definition coping_add_context ::
    "(string \<Rightarrow> string \<Rightarrow> transfer) \<Rightarrow> coping_config \<Rightarrow> mechanism list \<Rightarrow> string \<Rightarrow>
     string \<Rightarrow> int \<Rightarrow> int \<Rightarrow> int \<Rightarrow> int \<Rightarrow> rat \<Rightarrow> unit result" where
  "coping_add_context post cfg mechs api_key host sent received tmin_us tmax_us tsum_us =
     (if no_context cfg
      then print (''  [AI context suppressed at user request]'' @ newline @
             ''  [The coping team does not endorse this decision]'' @ newline @ newline) (ret ())
      else emit (concat (map (\<lambda>m. case pre_context m of
                                  Some f \<Rightarrow> f host sent received tmin_us tmax_us | None \<Rightarrow> []) mechs))
        (and_then (json_escape (user_content host sent received tmin_us tmax_us tsum_us) 2048) (\<lambda>esc_user.
         and_then (json_escape (prompt_extra mechs) 768) (\<lambda>esc_extra.
         let body = request_body (full_user esc_user esc_extra)
         in emit (spinner ''Consulting AI co-pilot'' 1200 @ spinner ''Synthesizing latency narrative'' 900)
              (handle_transfer mechs (post (snprintf_text 256 (''x-api-key: '' @ api_key)) body))))))"

subsection \<open>The wrapped lines\<close>

text \<open>The words of a text: its maximal runs of characters other than space and newline.\<close>

primrec words_acc :: "string \<Rightarrow> string \<Rightarrow> string list" where
  "words_acc acc [] = (if acc = [] then [] else [acc])"
| "words_acc acc (c # s) =
     (if is_word_char c then words_acc (acc @ [c]) s
      else (if acc = [] then [] else [acc]) @ words_acc [] s)"

definition words_of :: "string \<Rightarrow> string list" where
  "words_of s = words_acc [] s"

lemma words_acc_append: "\<not> is_word_char c \<Longrightarrow> words_acc acc (a @ c # b) = words_acc acc a @ words_acc [] b"
  by (induction a arbitrary: acc) simp_all

lemma words_acc_run: "\<forall>c \<in> set w. is_word_char c \<Longrightarrow> words_acc acc (w @ s) = words_acc (acc @ w) s"
  by (induction w arbitrary: acc) simp_all

lemma words_of_Nil [simp]: "words_of [] = []"
  by (simp add: words_of_def)

lemma words_of_separator: "\<not> is_word_char c \<Longrightarrow> words_of (a @ c # b) = words_of a @ words_of b"
  by (simp add: words_of_def words_acc_append)

lemma words_of_skip [simp]: "words_of (dropWhile (\<lambda>c. c = CHR '' '') s) = words_of s"
  by (induction s) (simp_all add: words_of_def is_word_char_def)

lemma words_of_word:
  assumes "s = w @ rest" "\<forall>c \<in> set w. is_word_char c" "w \<noteq> []" "rest = [] \<or> \<not> is_word_char (hd rest)"
  shows "words_of s = w # words_of rest"
proof (cases rest)
  case Nil
  then show ?thesis using words_acc_run [OF assms(2), of "[]" "[]"] assms(1,3) by (simp add: words_of_def)
next
  case (Cons c t)
  then have "\<not> is_word_char c" using assms(4) by simp
  then have "words_acc w (c # t) = w # words_acc [] t" and "words_acc [] (c # t) = words_acc [] t"
    using assms(3) by simp_all
  then show ?thesis
    unfolding words_of_def assms(1) words_acc_run [OF assms(2)] Cons by simp
qed

lemma words_of_take_drop:
  assumes "s \<noteq> []" "is_word_char (hd s)"
  shows "words_of s = takeWhile is_word_char s # words_of (dropWhile is_word_char s)"
proof (rule words_of_word)
  show "s = takeWhile is_word_char s @ dropWhile is_word_char s" by simp
  show "\<forall>c\<in>set (takeWhile is_word_char s). is_word_char c" by (auto dest: set_takeWhileD)
  show "takeWhile is_word_char s \<noteq> []" using assms by (cases s) simp_all
  show "dropWhile is_word_char s = [] \<or> \<not> is_word_char (hd (dropWhile is_word_char s))"
    using hd_dropWhile by blast
qed

lemma put_word_line:
  assumes "lpos = length line" "lpos = 0 \<or> lpos + 1 + length word \<le> box_cols" "length word \<le> box_cols"
    "\<forall>c \<in> set word. is_word_char c" "word \<noteq> []" "put_word line lpos word = (line', lpos')"
  shows "lpos' = length line' \<and> length line' \<le> box_cols \<and> words_of line' = words_of line @ [word]"
proof -
  have w: "words_of word = [word]" using words_of_word [of word word "[]"] assms(4,5) by simp
  have "\<not> is_word_char (CHR '' '')" by (simp add: is_word_char_def)
  then have sp: "words_of (line @ CHR '' '' # word) = words_of line @ [word]"
    by (simp add: words_of_separator w)
  have sizes: "box_cols = 66" "SIZEOF_LINE = 256"
    by (simp_all add: box_cols_def BOX_WIDTH_def SIZEOF_LINE_def)
  show ?thesis
  proof (cases "lpos = 0")
    case True
    then show ?thesis using assms w by (auto simp: put_word_def sizes)
  next
    case False
    then show ?thesis using assms sp by (auto simp: put_word_def sizes)
  qed
qed

lemma wrap_loop_words:
  assumes "\<forall>x \<in> set (words_of w). length x \<le> box_cols" "lpos = length line" "length line \<le> box_cols"
  shows "concat (map words_of (wrap_loop w line lpos)) = words_of line @ words_of w \<and>
    (\<forall>l \<in> set (wrap_loop w line lpos). length l \<le> box_cols)"
  using assms
proof (induction w line lpos rule: wrap_loop.induct)
  case (1 w line lpos)
  define x where "x = dropWhile (\<lambda>c. c = CHR '' '') w"
  define word where "word = takeWhile is_word_char x"
  define flush where "flush \<longleftrightarrow> lpos > 0 \<and> lpos + 1 + length word > box_cols"
  define line' lpos' where "line' = (if flush then [] else line)" and "lpos' = (if flush then 0 else lpos)"
  have wx: "words_of x = words_of w" by (simp add: x_def)
  have l': "lpos' = length line'" "length line' \<le> box_cols"
    using 1(4,5) by (simp_all add: line'_def lpos'_def)
  show ?case
  proof (cases "x = []")
    case True
    then show ?thesis
      using 1(4,5) wx unfolding wrap_loop.simps [of w line lpos] Let_def x_def [symmetric] by auto
  next
    case x: False
    define rest where "rest = (if hd x = CHR 0x0A then wrap_loop (tl x) line' lpos'
      else case put_word line' lpos' word of (line'', lpos'') \<Rightarrow> wrap_loop (dropWhile is_word_char x) line'' lpos'')"
    have loop: "wrap_loop w line lpos = (if flush then line # rest else rest)"
      unfolding wrap_loop.simps [of w line lpos] Let_def x_def [symmetric] word_def [symmetric]
        flush_def [symmetric] rest_def line'_def [symmetric] lpos'_def [symmetric] using x by simp
    have "concat (map words_of rest) = words_of line' @ words_of w \<and> (\<forall>l \<in> set rest. length l \<le> box_cols)"
    proof (cases "hd x = CHR 0x0A")
      case True
      then have tl: "words_of (tl x) = words_of w"
        using words_of_separator [of "CHR 0x0A" "[]" "tl x"] x wx
        by (cases x) (simp_all add: is_word_char_def)
      have "\<forall>y \<in> set (words_of (tl x)). length y \<le> box_cols" using 1(3) tl by simp
      from 1(1) [OF x_def x refl word_def flush_def line'_def lpos'_def True this l']
      show ?thesis using True by (simp add: rest_def tl)
    next
      case False
      have "hd x \<noteq> CHR '' ''" using hd_dropWhile [of "\<lambda>c. c = CHR '' ''" w] x unfolding x_def by blast
      then have ww: "words_of w = word # words_of (dropWhile is_word_char x)" "word \<noteq> []"
        using words_of_take_drop [OF x] False x wx
        by (auto simp: is_word_char_def word_def takeWhile_eq_Nil_iff)
      obtain line'' lpos'' where p: "put_word line' lpos' word = (line'', lpos'')" by force
      have "lpos'' = length line'' \<and> length line'' \<le> box_cols \<and> words_of line'' = words_of line' @ [word]"
      proof (rule put_word_line [OF l'(1) _ _ _ ww(2) p])
        show "lpos' = 0 \<or> lpos' + 1 + length word \<le> box_cols" by (auto simp: lpos'_def flush_def)
        show "length word \<le> box_cols" using 1(3) ww(1) by simp
        show "\<forall>c\<in>set word. is_word_char c" by (auto simp: word_def dest: set_takeWhileD)
      qed
      note line = this
      have "\<forall>y \<in> set (words_of (dropWhile is_word_char x)). length y \<le> box_cols" using 1(3) ww by simp
      from 1(2) [OF x_def x refl word_def flush_def line'_def lpos'_def False p [symmetric] this] line ww
      show ?thesis using False p by (simp add: rest_def)
    qed
    then show ?thesis using 1(5) by (simp add: loop line'_def split: if_splits)
  qed
qed

text \<open>
  C36: the box loses and reorders nothing: for a text without words longer than the 66 columns,
  the words of the printed lines are the words of the text in their order, no line is longer
  than the box, and the line buffer of 256 bytes is never full.  A newline in the text counts
  as a space: it does not end a line.
\<close>

theorem box_words:
  assumes "\<forall>x \<in> set (words_of str). length x \<le> box_cols"
  shows "concat (map words_of (wrap_loop str [] 0)) = words_of str \<and>
    (\<forall>l \<in> set (wrap_loop str [] 0). length l \<le> box_cols \<and> length (box_line l) = box_cols + 11)"
proof -
  have "length (box_line l) = box_cols + 11" if "length l \<le> box_cols" for l
    using that by (simp add: box_line_def pad_right_def utf8_def)
  with wrap_loop_words [OF assms, of 0 "[]"] show ?thesis by simp
qed

theorem box_words_witness:
  "concat (map words_of (wrap_loop (''one'' @ newline @ ''two  three'') [] 0)) = [''one'', ''two'', ''three'']"
proof -
  have "words_of (''one'' @ newline @ ''two  three'') = [''one'', ''two'', ''three'']" by code_simp
  then show ?thesis
    using box_words [of "''one'' @ newline @ ''two  three''"] by (simp add: box_cols_def BOX_WIDTH_def)
qed

subsection \<open>Escaping\<close>

definition plain_char :: "char \<Rightarrow> bool" where
  "plain_char c \<longleftrightarrow> (0x20 :: nat) \<le> of_char c \<or> c \<in> {CHR 0x0A, CHR 0x0D, CHR 0x09}"

lemma length_escape_char: "plain_char c \<Longrightarrow> 1 \<le> length (escape_char c) \<and> length (escape_char c) \<le> 2"
  by (auto simp: escape_char_def plain_char_def)

text \<open>
  Without control characters the position never passes \<open>dstlen - 3\<close>, and what was written are the
  escapes of a prefix of the source: of all of it when it fits.
\<close>

lemma json_escape_loop_plain:
  "\<forall>c \<in> set src. plain_char c \<Longrightarrow> length dst = di \<Longrightarrow> di + 3 \<le> dstlen \<Longrightarrow>
   \<exists>n. json_escape_loop src dstlen di dst =
         (di + length (concat (map escape_char (take n src))), dst @ concat (map escape_char (take n src))) \<and>
       di + length (concat (map escape_char (take n src))) + 3 \<le> dstlen \<and>
       (di + 2 * length src + 3 < dstlen \<longrightarrow> n = length src)"
proof (induction src arbitrary: di dst)
  case (Cons c src)
  show ?case
  proof (cases "di + 4 < dstlen")
    case True
    have e: "1 \<le> length (escape_char c)" "length (escape_char c) \<le> 2"
      using length_escape_char [of c] Cons.prems(1) by simp_all
    then have "take (dstlen - di - 1) (escape_char c) = escape_char c" using True by simp
    with Cons.IH [of "dst @ escape_char c" "di + length (escape_char c)"] Cons.prems e True
    obtain n where "json_escape_loop (c # src) dstlen di dst =
         (di + length (escape_char c) + length (concat (map escape_char (take n src))),
          dst @ escape_char c @ concat (map escape_char (take n src)))"
        "di + length (escape_char c) + length (concat (map escape_char (take n src))) + 3 \<le> dstlen"
        "di + length (escape_char c) + 2 * length src + 3 < dstlen \<longrightarrow> n = length src"
      by (auto simp: Let_def)
    with e show ?thesis by (intro exI [of _ "Suc n"]) auto
  next
    case False
    then show ?thesis using Cons.prems by (intro exI [of _ 0]) simp
  qed
qed (auto intro: exI [of _ 0])

lemma json_escape_plain:
  assumes "\<forall>c \<in> set src. plain_char c" "3 \<le> dstlen"
  shows "\<exists>n. json_escape src dstlen = ret (concat (map escape_char (take n src))) \<and>
    length (concat (map escape_char (take n src))) + 3 \<le> dstlen \<and>
    (2 * length src + 3 < dstlen \<longrightarrow> n = length src)"
proof -
  obtain n where "json_escape_loop src dstlen 0 [] =
        (length (concat (map escape_char (take n src))), concat (map escape_char (take n src)))"
      "length (concat (map escape_char (take n src))) + 3 \<le> dstlen"
      "2 * length src + 3 < dstlen \<longrightarrow> n = length src"
    using json_escape_loop_plain [OF assms(1), of "[]" 0 dstlen] assms(2) by auto
  then show ?thesis by (intro exI [of _ n]) (simp add: json_escape_def)
qed

lemma extract_walk_escape:
  "\<forall>c \<in> set src. plain_char c \<Longrightarrow> ri + length src + 4 < cap \<Longrightarrow>
   extract_walk cap ri (concat (map escape_char src) @ CHR 0x22 # rest) = src"
proof (induction src arbitrary: ri)
  case (Cons c src)
  have "escape_char c = [CHR 0x5C, CHR ''n''] \<and> c = CHR 0x0A \<or> escape_char c = [CHR 0x5C, CHR ''r''] \<and> c = CHR 0x0D \<or>
      escape_char c = [CHR 0x5C, CHR ''t''] \<and> c = CHR 0x09 \<or> escape_char c = [CHR 0x5C, c] \<and> c \<in> {CHR 0x22, CHR 0x5C} \<or>
      escape_char c = [c] \<and> c \<notin> {CHR 0x22, CHR 0x5C}"
    using Cons.prems(1) by (auto simp: escape_char_def plain_char_def)
  then show ?case using Cons by (elim disjE) (auto simp: unescape_def)
qed simp



lemma json_escape_loop_length:
  "length dst \<le> di \<Longrightarrow> json_escape_loop src dstlen di dst = (di', dst') \<Longrightarrow> length dst' \<le> di'"
proof (induction src arbitrary: di dst)
  case (Cons c src)
  show ?case
  proof (cases "di + 4 < dstlen")
    case True
    have "length (dst @ take (dstlen - di - 1) (escape_char c)) \<le> di + length (escape_char c)"
      using Cons.prems(1) by simp
    from Cons.IH [OF this] show ?thesis using Cons.prems(2) True by (simp add: Let_def)
  next
    case False
    then show ?thesis using Cons.prems by simp
  qed
qed simp

lemma length_json_escape: "returns (json_escape src dstlen) dst \<Longrightarrow> length dst < dstlen"
  using json_escape_loop_length [of "[]" 0 src dstlen]
  by (auto simp: json_escape_def split: prod.splits if_splits)

lemma length_system_prompt: "length system_prompt = 620"
  by code_simp

text \<open>
  The request is never cut: whatever the statistics and the mechanisms contributed, the two
  escaped texts fit \<open>full_user\<close> and the body fits \<open>request_body\<close>, so the JSON text that is
  posted is complete.
\<close>

theorem request_complete:
  assumes "returns (json_escape user 2048) esc_user" "returns (json_escape extra 768) esc_extra"
  shows "request_body (full_user esc_user esc_extra) =
    request_text (esc_user @ (if esc_extra = [] then [] else '' '' @ esc_extra))"
proof -
  have len: "length esc_user < 2048" "length esc_extra < 768"
    using assms by (simp_all add: length_json_escape)
  then have "full_user esc_user esc_extra = esc_user @ (if esc_extra = [] then [] else '' '' @ esc_extra)"
    by (simp add: full_user_def snprintf_text_fits)
  moreover have "length (request_text u) < 4096" if "length u \<le> 2816" for u
    using that by (simp add: request_text_def length_system_prompt)
  ultimately show ?thesis using len by (simp add: request_body_def snprintf_text_fits)
qed

theorem request_complete_witness:
  "request_body (full_user ''Host: h'' ''Apply'') = request_text ''Host: h Apply''"
proof -
  have "returns (json_escape ''Host: h'' 2048) ''Host: h''" "returns (json_escape ''Apply'' 768) ''Apply''"
    by code_simp+
  from request_complete [OF this] show ?thesis by simp
qed

text \<open>
  C38: a control character near the end of the buffer is cut by \<open>snprintf\<close> but counted with its
  full length of 6, and the terminating NUL is written up to two bytes behind the buffer.
\<close>

theorem json_escape_overrun:
  assumes "\<forall>c \<in> set src. plain_char c \<and> escape_char c = [c]" "length src + 5 = dstlen \<or> length src + 6 = dstlen"
    and "\<not> plain_char c"
  shows "json_escape (src @ [c]) dstlen = stop_with Undefined"
proof -
  have loop: "json_escape_loop (src @ [c]) dstlen di dst =
      json_escape_loop [c] dstlen (di + length src) (dst @ src)"
    if "\<forall>c \<in> set src. plain_char c \<and> escape_char c = [c]" "di + length src + 5 \<le> dstlen" for di dst src
    using that by (induction src arbitrary: di dst) (simp_all add: Let_def)
  have "length (escape_char c) = 6"
  proof -
    have "of_char c < (0x20 :: nat)" using assms(3) by (simp add: plain_char_def)
    then have "of_char c div 16 < (2 :: nat)" "of_char c < (256 :: nat)" by linarith+
    then have "length (fmt_x (of_char c)) \<le> 2"
      by (simp add: fmt_x_def nat_digits.simps [of 16 "of_char c"] nat_digits.simps [of 16 "of_char c div 16"])
    then have "length (fmt_0x 4 (of_char c)) = 4" by (simp add: fmt_0x_def pad_left_def)
    then show ?thesis using assms(3) by (auto simp: escape_char_def plain_char_def)
  qed
  with loop [OF assms(1), of 0 "[]"] assms(2) show ?thesis by (auto simp: json_escape_def Let_def)
qed

theorem json_escape_overrun_witness: "json_escape (''abc'' @ [CHR 0x01]) 8 = stop_with Undefined"
proof -
  have "\<forall>c \<in> set ''abc''. plain_char c \<and> escape_char c = [c]" "\<not> plain_char (CHR 0x01)" by code_simp+
  then show ?thesis using json_escape_overrun [of "''abc''" 8 "CHR 0x01"] by simp
qed

subsection \<open>Loading mechanisms\<close>

lemma load_mechanisms_found:
  "\<forall>name \<in> set names. dlopen (snprintf_text 600 (''./mechanisms/'' @ name @ ''.so'')) = Some (mech name) \<Longrightarrow>
   load_mechanisms_loop dlopen home names loaded =
     emit (concat (map (\<lambda>name. Out (mechanism_line name (mech name)) #
                              (case on_load (mech name) of Some es \<Rightarrow> es | None \<Rightarrow> [])) names))
       (ret (loaded @ map mech names))"
  by (induction names arbitrary: loaded) (simp_all add: mech_search_dirs_def print_def)

lemma length_pointer_text: "length (pointer_text p) \<le> 8"
  using length_takeWhile_le [of "\<lambda>b. b \<noteq> 0" "le64_bytes p"] by (simp add: pointer_text_def)

text \<open>
  A mechanism found in \<open>./mechanisms\<close> is loaded, announced and its hook \<open>on_load\<close> run; but the
  announcement shows the bytes of the pointers \<open>mech_name\<close> and \<open>mech_description\<close> (at most eight
  characters) instead of the strings they point to, because the code takes the address that
  \<open>dlsym\<close> gives for the string.
\<close>

theorem mechanism_announced:
  assumes "mechanism_names cfg = [name]"
    and "dlopen (snprintf_text 600 (''./mechanisms/'' @ name @ ''.so'')) = Some (existential_mechanism n d)"
  shows "coping_init dlopen home cfg =
      print (''  [mechanism] '' @ pointer_text n @ '' loaded '' @ utf8 [0xE2, 0x80, 0x94] @ '' '' @
          pointer_text d @ newline) (print newline (ret [existential_mechanism n d])) \<and>
    length (pointer_text n) \<le> 8 \<and> length (pointer_text d) \<le> 8"
  using load_mechanisms_found [of "[name]" dlopen "\<lambda>_. existential_mechanism n d" home "[]"] assms
  by (simp add: coping_init_def load_mechanisms_def mechanism_line_def existential_mechanism_def
      length_pointer_text print_def)

theorem mechanism_announced_witness:
  "coping_init (\<lambda>_. Some (existential_mechanism 0x41 0x42)) None \<lparr>no_context = False, mechanism_names = [''existential'']\<rparr> =
    print (''  [mechanism] '' @ pointer_text 0x41 @ '' loaded '' @ utf8 [0xE2, 0x80, 0x94] @ '' '' @
      pointer_text 0x42 @ newline) (print newline (ret [existential_mechanism 0x41 0x42]))"
  using mechanism_announced [of "\<lparr>no_context = False, mechanism_names = [''existential'']\<rparr>" "''existential''"
      "\<lambda>_. Some (existential_mechanism 0x41 0x42)" "0x41" "0x42" None] by simp

text \<open>
  C39: a mechanism that is not in \<open>./mechanisms\<close> makes the search read past the end of the array
  of directories: when it is in \<open>~/.coping/mechanisms\<close>, where the user is told to put it, as
  well as when it is nowhere, before the message that names both directories can be printed.
\<close>

theorem mechanism_search_overrun:
  assumes "mechanism_names cfg = name # names"
    and "dlopen (snprintf_text 600 (''./mechanisms/'' @ name @ ''.so'')) = None"
  shows "coping_init dlopen home cfg = stop_with Undefined"
  using assms by (simp add: coping_init_def load_mechanisms_def mech_search_dirs_def split: option.splits)

theorem mechanism_search_overrun_witness:
  "coping_init (\<lambda>path. if path = ''/root/.coping/mechanisms/m.so'' then Some (existential_mechanism 0 0) else None)
     (Some ''/root'') \<lparr>no_context = False, mechanism_names = [''m'']\<rparr> = stop_with Undefined"
  by (rule mechanism_search_overrun) (simp_all add: snprintf_text_def)

subsection \<open>The average\<close>

text \<open>
  The average given to the model divides the sum of all round trip times, duplicates
  included, by the number of distinct replies: with enough duplicates it exceeds the maximum
  that stands beside it.
\<close>

theorem context_average_exceeds_max:
  assumes "0 < received" "received < 2 ^ 53" "0 \<le> S" "S < 2 ^ 53" "(hi + 1) * received \<le> S" "0 \<le> hi"
  shows "hi < context_avg received (of_int S)"
proof -
  define q :: rat where "q = of_int S / of_int received"
  have "(of_int ((hi + 1) * received) :: rat) \<le> of_int S" using assms(5) by (simp only: of_int_le_iff)
  then have q: "of_int (hi + 1) \<le> q" using assms(1) by (simp add: q_def le_divide_eq)
  have "S \<le> S * received" using assms(1,3) by (simp add: mult_le_cancel_left1)
  then have "(of_int S :: rat) \<le> of_int (S * received)" by (simp only: of_int_le_iff)
  then have "q \<le> of_int S" using assms(1) by (simp add: q_def divide_le_eq)
  moreover have "(of_int S :: rat) < of_int (2 ^ 53)" using assms(4) by (simp only: of_int_less_iff)
  ultimately have "0 \<le> q" "q < 2 ^ 53" using assms by (simp_all add: q_def)
  then have "of_int (hi + 1) \<le> rnd q" using q by (rule rnd_ge)
  then have "hi + 1 \<le> d_to_int (rnd q)" using assms(6) by (intro d_to_int_ge) simp_all
  then show ?thesis using assms(1,2) by (simp add: context_avg_def d_div_def q_def)
qed

theorem context_average_exceeds_max_witness: "500 < context_avg 1 2000"
  using context_average_exceeds_max [of 1 2000 500] by simp

subsection \<open>The scan of the command line\<close>

lemma add_mechanism_bounds:
  "length (mechanism_names cfg) \<le> 8 \<Longrightarrow> \<forall>m \<in> set (mechanism_names cfg). length m < 64 \<Longrightarrow>
   length (mechanism_names (add_mechanism cfg name)) \<le> 8 \<and>
   (\<forall>m \<in> set (mechanism_names (add_mechanism cfg name)). length m < 64)"
  by (auto simp: add_mechanism_def COPING_MAX_MECHS_def COPING_MECH_NAMELEN_def)

definition coping_option :: "string \<Rightarrow> bool" where
  "coping_option a \<longleftrightarrow> a = ''--no-context'' \<or> take 12 a = ''--mechanism='' \<or> a = ''--mechanism''"

lemma argv_scan_correct:
  "length (mechanism_names cfg) \<le> 8 \<Longrightarrow> \<forall>m \<in> set (mechanism_names cfg). length m < 64 \<Longrightarrow>
   (case argv_scan cfg as of (cfg', rest) \<Rightarrow>
      length (mechanism_names cfg') \<le> 8 \<and> (\<forall>m \<in> set (mechanism_names cfg'). length m < 64) \<and>
      subseq rest as \<and> (\<forall>a \<in> set (butlast rest). \<not> coping_option a) \<and>
      (\<forall>a \<in> set rest. coping_option a \<longrightarrow> a = ''--mechanism'') \<and>
      ((\<forall>a \<in> set as. \<not> coping_option a) \<longrightarrow> rest = as \<and> cfg' = cfg))"
proof (induction cfg as rule: argv_scan.induct)
  case (2 cfg a as)
  note bounds = add_mechanism_bounds [OF 2(5,6)]
  consider (off) "a = ''--no-context''" | (named) "a \<noteq> ''--no-context''" "take 12 a = ''--mechanism=''"
    | (named2) "a = ''--mechanism''" "as \<noteq> []" | (last) "a = ''--mechanism''" "as = []"
    | (kept) "\<not> coping_option a"
    by (auto simp: coping_option_def)
  then show ?case
  proof cases
    case off
    obtain cfg' rest where r: "argv_scan (cfg\<lparr>no_context := True\<rparr>) as = (cfg', rest)" by force
    have "coping_option a" using off by (simp add: coping_option_def)
    moreover have "argv_scan cfg (a # as) = (cfg', rest)" using off r by simp
    ultimately show ?thesis using 2(1) [OF off] 2(5,6) r by auto
  next
    case named
    obtain cfg' rest where r: "argv_scan (add_mechanism cfg (drop 12 a)) as = (cfg', rest)" by force
    have "coping_option a" using named by (simp add: coping_option_def)
    moreover have "argv_scan cfg (a # as) = (cfg', rest)" using named r by simp
    ultimately show ?thesis using 2(2) [OF named] bounds r by auto
  next
    case named2
    then obtain b bs where as: "as = b # bs" by (cases as) auto
    obtain cfg' rest where r: "argv_scan (add_mechanism cfg b) bs = (cfg', rest)" by force
    have o: "coping_option a" using named2 by (simp add: coping_option_def)
    have "argv_scan cfg (a # as) = (cfg', rest)" using named2 r as by simp
    then show ?thesis using 2(3) named2 bounds r o as by auto
  next
    case last
    then show ?thesis using 2(5,6) by (simp add: coping_option_def)
  next
    case kept
    obtain cfg' rest where r: "argv_scan cfg as = (cfg', rest)" by force
    have c: "a \<noteq> ''--no-context''" "take 12 a \<noteq> ''--mechanism=''" "\<not> (a = ''--mechanism'' \<and> as \<noteq> [])"
      using kept by (auto simp: coping_option_def)
    then have scan: "argv_scan cfg (a # as) = (cfg', a # rest)" by (simp only: argv_scan.simps r if_False prod.case)
    show ?thesis using 2(4) [OF c 2(5,6)] kept unfolding r scan prod.case by auto
  qed
qed simp

text \<open>
  The scan for the options of \<open>coping\<close> keeps the other arguments in their order and removes
  every one of its own options except a \<open>--mechanism\<close> without a name at the very end; a command
  line without such options is unchanged, and the table of names never overflows: at most 8
  names of at most 63 bytes.
\<close>

theorem argv_scan_keeps_arguments:
  "case argv_scan \<lparr>no_context = False, mechanism_names = []\<rparr> args of (cfg, rest) \<Rightarrow>
     length (mechanism_names cfg) \<le> COPING_MAX_MECHS \<and>
     (\<forall>m \<in> set (mechanism_names cfg). length m < COPING_MECH_NAMELEN) \<and>
     subseq rest args \<and> filter coping_option rest \<in> {[], [''--mechanism'']} \<and>
     (filter coping_option args = [] \<longrightarrow> rest = args \<and> cfg = \<lparr>no_context = False, mechanism_names = []\<rparr>)"
proof -
  obtain cfg rest where r: "argv_scan \<lparr>no_context = False, mechanism_names = []\<rparr> args = (cfg, rest)" by force
  then have "length (mechanism_names cfg) \<le> 8 \<and> (\<forall>m \<in> set (mechanism_names cfg). length m < 64) \<and>
      subseq rest args \<and> (\<forall>a \<in> set (butlast rest). \<not> coping_option a) \<and>
      (\<forall>a \<in> set rest. coping_option a \<longrightarrow> a = ''--mechanism'') \<and>
      ((\<forall>a \<in> set args. \<not> coping_option a) \<longrightarrow> rest = args \<and> cfg = \<lparr>no_context = False, mechanism_names = []\<rparr>)"
    using argv_scan_correct [of "\<lparr>no_context = False, mechanism_names = []\<rparr>" args] by simp
  moreover from this have "filter coping_option rest \<in> {[], [''--mechanism'']}"
    by (cases rest rule: rev_cases) (auto simp: filter_empty_conv)
  ultimately show ?thesis
    by (simp add: r COPING_MAX_MECHS_def COPING_MECH_NAMELEN_def filter_empty_conv)
qed

theorem argv_scan_keeps_arguments_witness:
  "subseq (snd (argv_scan \<lparr>no_context = False, mechanism_names = []\<rparr> [''-c'', ''--mechanism'', ''m'', ''4'']))
     [''-c'', ''--mechanism'', ''m'', ''4'']"
  using argv_scan_keeps_arguments [of "[''-c'', ''--mechanism'', ''m'', ''4'']"] by (simp split: prod.splits)

end
