(* ===== verification/Iputils.thy ===== *)
theory Iputils
  imports Seq_Window
begin

text \<open>
  The routines that the programs of the suite share, from \<open>iputils_common.c\<close>: reading integer
  arguments, closing the standard streams at exit, seeding \<open>rand\<close>, subtraction of times and the
  line of build options.  \<open>strtol\<close> and \<open>strtoul\<close> are modelled as the C standard and the GNU C
  library define them for base 10 in the C locale.  A C string is the list of its characters
  without the terminating NUL.
\<close>

text \<open>The error numbers of Linux that the programs test.\<close>

definition ENOMEM :: int where "ENOMEM = 12"
definition EAGAIN :: int where "EAGAIN = 11"
definition EINTR :: int where "EINTR = 4"
definition EPERM :: int where "EPERM = 1"
definition EINVAL :: int where "EINVAL = 22"
definition EMSGSIZE :: int where "EMSGSIZE = 90"
definition ENOBUFS :: int where "ENOBUFS = 105"
definition EHOSTUNREACH :: int where "EHOSTUNREACH = 113"
definition EACCES :: int where "EACCES = 13"
definition ERANGE :: int where "ERANGE = 34"
definition EPIPE :: int where "EPIPE = 32"
definition EBADF :: int where "EBADF = 9"
definition EXIT_FAILURE :: int where "EXIT_FAILURE = 1"

definition LONG_MIN :: int where "LONG_MIN = - 9223372036854775808"
definition ULONG_MAX :: int where "ULONG_MAX = 18446744073709551615"

text \<open>
  The kernel's report of a network error, \<open>struct sock_extended_err\<close> with the address of the
  offender behind it, and the origins it distinguishes.
\<close>

record extended_err =
  ee_origin :: int
  ee_errno :: int
  ee_type :: u8
  ee_code :: u8
  ee_info :: u32
  ee_offender :: "u8 list"

definition SO_EE_ORIGIN_LOCAL :: int where "SO_EE_ORIGIN_LOCAL = 1"
definition SO_EE_ORIGIN_ICMP :: int where "SO_EE_ORIGIN_ICMP = 2"
definition SO_EE_ORIGIN_ICMP6 :: int where "SO_EE_ORIGIN_ICMP6 = 3"

subsection \<open>Numerals\<close>

definition is_blank :: "char \<Rightarrow> bool" where
  "is_blank c \<longleftrightarrow> c = CHR '' '' \<or> (9 \<le> (of_char c :: nat) \<and> of_char c \<le> (13 :: nat))"

definition is_digit :: "char \<Rightarrow> bool" where
  "is_digit c \<longleftrightarrow> 48 \<le> (of_char c :: nat) \<and> of_char c \<le> (57 :: nat)"

text \<open>The sign, the digits and what is behind them; the digits are empty when there is no numeral.\<close>

definition scan_sign :: "string \<Rightarrow> bool \<times> string" where
  "scan_sign s =
     (case s of c # cs \<Rightarrow> if c = CHR ''-'' then (True, cs) else if c = CHR ''+'' then (False, cs) else (False, s)
      | [] \<Rightarrow> (False, []))"

definition scan_numeral :: "string \<Rightarrow> bool \<times> string \<times> string" where
  "scan_numeral s =
     (case scan_sign (dropWhile is_blank s) of (neg, t) \<Rightarrow> (neg, takeWhile is_digit t, dropWhile is_digit t))"

text \<open>The value, the rest of the string behind the numeral, and \<open>errno\<close>.\<close>

definition strtol :: "string \<Rightarrow> int \<times> string \<times> int" where
  "strtol s =
     (case scan_numeral s of (neg, ds, rest) \<Rightarrow>
        if ds = [] then (0, s, 0)
        else let v = (if neg then - int (read_dec ds) else int (read_dec ds))
             in if v < LONG_MIN then (LONG_MIN, rest, ERANGE)
                else if long_max < v then (long_max, rest, ERANGE)
                else (v, rest, 0))"

definition strtoul :: "string \<Rightarrow> int \<times> string \<times> int" where
  "strtoul s =
     (case scan_numeral s of (neg, ds, rest) \<Rightarrow>
        if ds = [] then (0, s, 0)
        else let v = int (read_dec ds)
             in if ULONG_MAX < v then (ULONG_MAX, rest, ERANGE)
                else (if neg then (- v) mod (ULONG_MAX + 1) else v, rest, 0))"

subsection \<open>\<open>strtol_or_err\<close> and \<open>strtoul_or_err\<close>\<close>

text \<open>
  \<open>error\<close> with \<open>EXIT_FAILURE\<close> does not return, so the \<open>abort\<close> behind it is not reached.  The
  numeral is accepted only when it is the whole string; \<open>str == end\<close> is the case of no numeral.
\<close>

definition show_arg :: "string option \<Rightarrow> string" where
  "show_arg s = (case s of Some t \<Rightarrow> t | None \<Rightarrow> ''(null)'')"

definition number_or_err ::
  "(string \<Rightarrow> int \<times> string \<times> int) \<Rightarrow> string option \<Rightarrow> string \<Rightarrow> int \<Rightarrow> int \<Rightarrow> int result" where
  "number_or_err conv str errmesg lo hi =
     (let bad = (\<lambda>e. error_c EXIT_FAILURE e (errmesg @ '': '' @ [CHR 0x27] @ show_arg str @ [CHR 0x27])
                       (stop_with Abort))
      in case str of None \<Rightarrow> bad 0
         | Some s \<Rightarrow>
             if s = [] then bad 0
             else case conv s of (num, rest, err) \<Rightarrow>
               if err \<noteq> 0 \<or> rest = s \<or> rest \<noteq> [] then bad err
               else if num < lo \<or> hi < num
               then error_c EXIT_FAILURE 0
                      (errmesg @ '': '' @ [CHR 0x27] @ s @ [CHR 0x27] @ '': out of range: '' @ fmt_d lo
                       @ '' <= value <= '' @ fmt_d hi) (ret num)
               else ret num)"

definition strtol_or_err :: "string option \<Rightarrow> string \<Rightarrow> int \<Rightarrow> int \<Rightarrow> int result" where
  "strtol_or_err = number_or_err strtol"

definition strtoul_or_err :: "string option \<Rightarrow> string \<Rightarrow> int \<Rightarrow> int \<Rightarrow> int result" where
  "strtoul_or_err = number_or_err strtoul"

text \<open>The message the programs give it; and a call that failed, with \<open>error\<close>.\<close>

definition invalid_argument :: string where "invalid_argument = ''invalid argument''"

definition or_error :: "int \<Rightarrow> int \<Rightarrow> string \<Rightarrow> 'a result \<Rightarrow> 'a result" where
  "or_error st e msg m = (if e \<noteq> 0 then error_c st e msg m else m)"

lemma yields_or_error [simp]: "yields m P \<Longrightarrow> yields (or_error st e msg m) P"
  by (simp add: or_error_def error_c_def)

lemma number_or_err_range: "yields (number_or_err conv str m lo hi) (\<lambda>n. lo \<le> n \<and> n \<le> hi)"
  by (auto simp: number_or_err_def error_c_def EXIT_FAILURE_def Let_def split: option.splits prod.splits)

lemmas strtol_range = number_or_err_range [of strtol, folded strtol_or_err_def]
  and strtoul_range = number_or_err_range [of strtoul, folded strtoul_or_err_def]

subsection \<open>Closing the standard streams\<close>

text \<open>
  What the C library says of a stream when it is closed: the results of \<open>fflush\<close> and \<open>fclose\<close>
  (true for a failure), whether output was pending, whether an error was noted before, and
  \<open>errno\<close> after the three calls.  \<open>pending\<close> is \<open>None\<close> where the build has no \<open>__fpending\<close>.
\<close>

record stream_end =
  flush_status :: bool
  some_pending :: "bool option"
  prev_fail :: bool
  fclose_fail :: bool
  close_errno :: int

text \<open>True for \<open>EOF\<close>, with \<open>errno\<close>.\<close>

definition close_stream :: "stream_end \<Rightarrow> bool \<times> int" where
  "close_stream st =
     (if flush_status st \<or> prev_fail st
         \<or> (fclose_fail st \<and> (some_pending st = Some True \<or> close_errno st \<noteq> EBADF))
      then (True, if \<not> fclose_fail st \<and> close_errno st \<noteq> EPIPE then 0 else close_errno st)
      else (False, close_errno st))"

definition close_stdout :: "stream_end \<Rightarrow> stream_end \<Rightarrow> unit result" where
  "close_stdout out err =
     (case close_stream out of (failed, e) \<Rightarrow>
        if failed \<and> e \<noteq> EPIPE
        then error_c 0 e ''write error'' (stop_with (Exit EXIT_FAILURE))
        else if fst (close_stream err) then stop_with (Exit EXIT_FAILURE) else ret ())"

subsection \<open>Seeding\<close>

text \<open>
  The fallback seed from the process, the user and the time; and the rounds of
  \<open>iputils_srand\<close>: the results of \<open>getrandom\<close> are given in order, each with the number of bytes
  it returned, the bytes of \<open>i\<close> and \<open>errno\<close>.  The value is \<open>None\<close> when the list ends before the
  loop does.
\<close>

definition iputil_srand_fallback :: "int \<Rightarrow> int \<Rightarrow> timespec \<Rightarrow> u32" where
  "iputil_srand_fallback pid user t =
     word_of_int (push_bit 16 pid XOR user XOR ts_sec t XOR ts_nsec t)"

fun srand_seed :: "u32 \<Rightarrow> (int \<times> u32 \<times> int) list \<Rightarrow> u32 option" where
  "srand_seed fallback ((n, i, e) # rs) =
     (if e = 0 \<or> e = EINTR then if n = 4 then Some i else srand_seed fallback rs else Some fallback)"
| "srand_seed fallback [] = None"

text \<open>\<open>rand\<close> is a function on its state; up to 31 numbers are consumed after the first.\<close>

primrec consume :: "('s \<Rightarrow> int \<times> 's) \<Rightarrow> nat \<Rightarrow> 's \<Rightarrow> 's" where
  "consume rnd 0 s = s"
| "consume rnd (Suc n) s = consume rnd n (snd (rnd s))"

definition iputils_srand ::
  "(u32 \<Rightarrow> 's) \<Rightarrow> ('s \<Rightarrow> int \<times> 's) \<Rightarrow> u32 \<Rightarrow> (int \<times> u32 \<times> int) list option \<Rightarrow> 's option" where
  "iputils_srand seed rnd fallback getrandom =
     map_option (\<lambda>i. case rnd (seed i) of (r, s) \<Rightarrow> consume rnd (nat (r AND 0x1F)) s)
       (case getrandom of Some rs \<Rightarrow> srand_seed fallback rs | None \<Rightarrow> Some fallback)"

subsection \<open>Times and build options\<close>

definition timespecsub :: "timespec \<Rightarrow> timespec \<Rightarrow> timespec" where
  "timespecsub a b =
     (let s = ts_sec a - ts_sec b; n = ts_nsec a - ts_nsec b
      in if n < 0 then \<lparr>ts_sec = s - 1, ts_nsec = n + 1000000000\<rparr> else \<lparr>ts_sec = s, ts_nsec = n\<rparr>)"

record build_config =
  have_libcap :: bool
  use_idn :: bool
  enable_nls :: bool
  have_error_h :: bool
  have_getrandom :: bool
  have_fpending :: bool

definition yes_no :: "bool \<Rightarrow> string" where
  "yes_no b = (if b then ''yes'' else ''no'')"

definition print_config :: "build_config \<Rightarrow> unit result" where
  "print_config c =
     print (''libcap: '' @ yes_no (have_libcap c) @ '', IDN: '' @ yes_no (use_idn c)
            @ '', NLS: '' @ yes_no (enable_nls c) @ '', error.h: '' @ yes_no (have_error_h c)
            @ '', getrandom(): '' @ yes_no (have_getrandom c)
            @ '', __fpending(): '' @ yes_no (have_fpending c) @ [CHR 0x0A]) (ret ())"

lemma nsecs_timespecsub: "nsecs (timespecsub a b) = nsecs a - nsecs b"
  by (simp add: nsecs_def timespecsub_def Let_def)

lemma timespecsub_tssub: "timespecsub a b = tssub a b"
  by (cases a; cases b) (simp add: timespecsub_def tssub_def Let_def)

subsection \<open>What an accepted argument is\<close>

lemma is_digit_chars: "\<not> is_digit (CHR '' '')" "\<not> is_digit (CHR ''-'')" "\<not> is_digit (CHR ''+'')"
  "\<not> is_blank (CHR ''-'')" "\<not> is_blank (CHR ''+'')"
  by (simp_all add: is_digit_def is_blank_def)

lemma digit_not_blank: "is_digit c \<Longrightarrow> \<not> is_blank c"
  by (auto simp: is_digit_def is_blank_def)

lemma digit_not_sign: "is_digit c \<Longrightarrow> c \<noteq> CHR ''-'' \<and> c \<noteq> CHR ''+''"
  using is_digit_chars by auto

text \<open>A numeral that is the whole string, as the code's documentation of the arguments has it.\<close>

definition numeral_parts :: "string \<Rightarrow> bool \<Rightarrow> string \<Rightarrow> bool" where
  "numeral_parts s neg ds \<longleftrightarrow>
     (\<exists>ws sgn. s = ws @ sgn @ ds \<and> (\<forall>c\<in>set ws. is_blank c) \<and> ds \<noteq> [] \<and> (\<forall>c\<in>set ds. is_digit c)
        \<and> (if neg then sgn = ''-'' else sgn = [] \<or> sgn = ''+''))"

lemma scan_sign_split:
  "scan_sign t = (neg, u) \<Longrightarrow> \<exists>sgn. t = sgn @ u \<and> (if neg then sgn = ''-'' else sgn = [] \<or> sgn = ''+'')"
  by (cases t) (auto simp: scan_sign_def split: if_splits)

lemma scan_whole:
  "scan_numeral s = (neg, ds, []) \<and> ds \<noteq> [] \<longleftrightarrow> numeral_parts s neg ds"
proof
  assume a: "scan_numeral s = (neg, ds, []) \<and> ds \<noteq> []"
  obtain u where u: "scan_sign (dropWhile is_blank s) = (neg, u)" "ds = takeWhile is_digit u"
      "dropWhile is_digit u = []"
    using a by (auto simp: scan_numeral_def split: prod.splits)
  then have ds: "ds = u" "\<forall>c\<in>set u. is_digit c"
    by (metis append_Nil2 takeWhile_dropWhile_id) (use u in \<open>simp add: dropWhile_eq_Nil_conv\<close>)
  obtain sgn where sgn: "dropWhile is_blank s = sgn @ u" "if neg then sgn = ''-'' else sgn = [] \<or> sgn = ''+''"
    using scan_sign_split [OF u(1)] by auto
  have "s = takeWhile is_blank s @ sgn @ ds" by (metis sgn(1) ds(1) takeWhile_dropWhile_id)
  then show "numeral_parts s neg ds"
    unfolding numeral_parts_def using sgn(2) ds a set_takeWhileD by metis
next
  assume "numeral_parts s neg ds"
  then obtain ws sgn where s: "s = ws @ sgn @ ds" "\<forall>c\<in>set ws. is_blank c" "ds \<noteq> []"
      "\<forall>c\<in>set ds. is_digit c" "if neg then sgn = ''-'' else sgn = [] \<or> sgn = ''+''"
    unfolding numeral_parts_def by blast
  obtain d e where d: "ds = d # e" using s(3) by (cases ds) auto
  then have dd: "is_digit d" using s(4) by simp
  have drop: "dropWhile is_blank s = sgn @ ds"
    using s d dd digit_not_blank [of d] is_digit_chars by (cases neg) auto
  have "scan_sign (sgn @ ds) = (neg, ds)"
    using s(5) d digit_not_sign [OF dd] by (auto simp: scan_sign_def split: if_splits)
  then show "scan_numeral s = (neg, ds, []) \<and> ds \<noteq> []"
    unfolding scan_numeral_def drop
    using s by (simp add: takeWhile_eq_all_conv [THEN iffD2] dropWhile_eq_Nil_conv [THEN iffD2])
qed

lemma scan_rest: "scan_numeral s = (neg, ds, rest) \<Longrightarrow> ds \<noteq> [] \<Longrightarrow> length rest < length s"
proof -
  assume a: "scan_numeral s = (neg, ds, rest)" "ds \<noteq> []"
  then obtain u where u: "scan_sign (dropWhile is_blank s) = (neg, u)" "ds = takeWhile is_digit u"
      "rest = dropWhile is_digit u"
    by (auto simp: scan_numeral_def split: prod.splits)
  obtain sgn where sgn: "dropWhile is_blank s = sgn @ u" using scan_sign_split [OF u(1)] by auto
  have "length u \<le> length s" using length_dropWhile_le [of is_blank s] by (simp add: sgn)
  moreover have "length ds + length rest = length u"
    unfolding u(2,3) by (metis length_append takeWhile_dropWhile_id)
  ultimately show ?thesis using a(2) by (cases ds) auto
qed

lemma number_or_err_stops: "\<not> returns (number_or_err conv s m lo hi) n \<Longrightarrow>
   (\<exists>k. returns (number_or_err conv s m lo hi) k) \<or> snd (number_or_err conv s m lo hi) = Inl (Exit EXIT_FAILURE)"
  by (auto simp: number_or_err_def Let_def error_c_def EXIT_FAILURE_def returns_def
      split: option.splits prod.splits if_splits)

text \<open>
  C26: \<open>strtol_or_err\<close> returns a number exactly for a string that is, behind blanks, an optionally
  signed decimal numeral and nothing else, whose value lies between the two bounds; then it
  returns that value.  For every other argument the process exits with status 1.
\<close>

theorem strtol_or_err_accepts:
  assumes "LONG_MIN \<le> lo" "hi \<le> long_max"
  shows "(\<forall>n. returns (strtol_or_err (Some s) m lo hi) n \<longleftrightarrow>
            (\<exists>neg ds. numeral_parts s neg ds \<and> lo \<le> n \<and> n \<le> hi \<and>
               n = (if neg then - int (read_dec ds) else int (read_dec ds))))
       \<and> ((\<nexists>n. returns (strtol_or_err (Some s) m lo hi) n) \<longrightarrow>
            snd (strtol_or_err (Some s) m lo hi) = Inl (Exit EXIT_FAILURE))"
proof -
  obtain neg ds rest where sc: "scan_numeral s = (neg, ds, rest)" by (metis prod_cases3)
  define v where "v = (if neg then - int (read_dec ds) else int (read_dec ds))"
  have parts: "numeral_parts s mi d \<longleftrightarrow> mi = neg \<and> d = ds \<and> rest = [] \<and> ds \<noteq> []" for mi d
    using scan_whole [of s mi d] sc by auto
  have "s = [] \<Longrightarrow> ds = []" using sc by (auto simp: scan_numeral_def scan_sign_def)
  moreover have "ds \<noteq> [] \<Longrightarrow> rest \<noteq> s" using scan_rest [OF sc] by auto
  ultimately have "returns (strtol_or_err (Some s) m lo hi) n \<longleftrightarrow> ds \<noteq> [] \<and> rest = [] \<and> lo \<le> v \<and> v \<le> hi \<and> n = v" for n
    using assms
    by (auto simp: strtol_or_err_def number_or_err_def strtol_def sc v_def [symmetric] Let_def error_c_def
        EXIT_FAILURE_def ERANGE_def split: if_splits)
  then have "returns (strtol_or_err (Some s) m lo hi) n \<longleftrightarrow>
       (\<exists>neg ds. numeral_parts s neg ds \<and> lo \<le> n \<and> n \<le> hi \<and>
          n = (if neg then - int (read_dec ds) else int (read_dec ds)))" for n
    unfolding parts v_def by auto
  moreover have "(\<nexists>n. returns (strtol_or_err (Some s) m lo hi) n) \<longrightarrow>
      snd (strtol_or_err (Some s) m lo hi) = Inl (Exit EXIT_FAILURE)"
    using number_or_err_stops unfolding strtol_or_err_def by blast
  ultimately show ?thesis by blast
qed

theorem strtol_or_err_accepts_witness:
  "returns (strtol_or_err (Some '' -42'') ''invalid argument'' (- 100) 100) (- 42)
   \<and> snd (strtol_or_err (Some ''12x'') ''invalid argument'' 0 100) = Inl (Exit EXIT_FAILURE)"
proof
  have "numeral_parts '' -42'' True ''42''" "read_dec ''42'' = 42"
    unfolding numeral_parts_def read_dec_def
    by (auto simp: is_blank_def is_digit_def digit_val_def intro!: exI [of _ "'' ''"])
  then show "returns (strtol_or_err (Some '' -42'') ''invalid argument'' (- 100) 100) (- 42)"
    by (subst strtol_or_err_accepts [THEN conjunct1, THEN spec])
       (auto simp: LONG_MIN_def long_max_def intro!: exI [of _ True] exI [of _ "''42''"])
  show "snd (strtol_or_err (Some ''12x'') ''invalid argument'' 0 100) = Inl (Exit EXIT_FAILURE)"
    by code_simp
qed

text \<open>The number of probes a run has sent.\<close>

definition probes_sent :: "effect list \<Rightarrow> nat" where
  "probes_sent es = length (filter (\<lambda>e. case e of Sys c _ \<Rightarrow> c = ''sendto'' | _ \<Rightarrow> False) es)"

lemma probes_sent_simps [simp]:
  "probes_sent [] = 0" "probes_sent (Sys c as # es) = (if c = ''sendto'' then 1 else 0) + probes_sent es"
  "probes_sent (Out s # es) = probes_sent es" "probes_sent (Err s # es) = probes_sent es"
  "probes_sent (Diag n s # es) = probes_sent es" "probes_sent (es @ fs) = probes_sent es + probes_sent fs"
  by (simp_all add: probes_sent_def)

end
