(* ===== verification/Capabilities.thy ===== *)
theory Capabilities
  imports Ping_Output Iputils
begin

text \<open>
  The privileges of \<open>ping\<close>, from \<open>ping/ping_common.c\<close> built with \<open>libcap\<close>: what is kept at the start,
  the two capabilities raised around the calls that need them, and the end of all of them.
\<close>

definition CAP_NET_ADMIN :: int where "CAP_NET_ADMIN = 12"
definition CAP_NET_RAW :: int where "CAP_NET_RAW = 13"

text \<open>
  The system: the permitted capabilities and the error numbers of the calls, 0 for success.
\<close>

record cap_env =
  ce_permitted :: "int \<Rightarrow> bool"
  ce_get :: int
  ce_init :: int
  ce_set :: int
  ce_keepcaps :: int
  ce_setuid :: int
  ce_unkeep :: int
  ce_uid :: int

definition may_fail :: "(int \<Rightarrow> string) \<Rightarrow> int \<Rightarrow> string \<Rightarrow> ping_rts \<Rightarrow> ping_rts result" where
  "may_fail strerror e call rts = (if e \<noteq> 0 then ping_error strerror rts (- 1) e call else ret rts)"

text \<open>The set handed to \<open>cap_set_proc\<close> is shown as \<open>''cap_permit''\<close>, a change of one effective capability as \<open>''cap_effective''\<close>.\<close>

definition kept_caps :: "cap_env \<Rightarrow> int list" where
  "kept_caps env = filter (ce_permitted env) [CAP_NET_ADMIN, CAP_NET_RAW]"

definition limit_capabilities :: "(int \<Rightarrow> string) \<Rightarrow> cap_env \<Rightarrow> ping_rts \<Rightarrow> ping_rts result" where
  "limit_capabilities strerror env rts =
     and_then (may_fail strerror (ce_get env) ''cap_get_proc'' rts) (\<lambda>rts.
     and_then (may_fail strerror (ce_init env) ''cap_init'' rts) (\<lambda>rts.
     emit [Sys ''cap_permit'' (kept_caps env)]
       (and_then (may_fail strerror (ce_set env) ''cap_set_proc'' rts) (\<lambda>rts.
        emit [Sys ''PR_SET_KEEPCAPS'' [1]]
          (and_then (may_fail strerror (ce_keepcaps env) ''prctl'' rts) (\<lambda>rts.
           emit [Sys ''setuid'' [ce_uid env]]
             (and_then (may_fail strerror (ce_setuid env) ''setuid'' rts) (\<lambda>rts.
              emit [Sys ''PR_SET_KEEPCAPS'' [0]]
                (and_then (may_fail strerror (ce_unkeep env) ''prctl'' rts) (\<lambda>rts.
                 ret (rts\<lparr>uid := ce_uid env\<rparr>)))))))))))"

definition modify_capability :: "cap_env \<Rightarrow> int \<Rightarrow> bool \<Rightarrow> int result" where
  "modify_capability env cap on =
     (if ce_get env \<noteq> 0 then error_c 0 (ce_get env) ''cap_get_proc'' (ret (- 1))
      else if \<not> ce_permitted env cap then ret (if on then - 1 else 0)
      else emit [Sys ''cap_effective'' [cap, if on then 1 else 0]]
        (if ce_set env \<noteq> 0 then error_c 0 (ce_set env) ''cap_set_proc'' (ret (- 1)) else ret 0))"

text \<open>The callers do not use the value.\<close>

definition enable_capability_raw :: "cap_env \<Rightarrow> 'a result \<Rightarrow> 'a result" where
  "enable_capability_raw env m = and_then (modify_capability env CAP_NET_RAW True) (\<lambda>_. m)"

definition disable_capability_raw :: "cap_env \<Rightarrow> 'a result \<Rightarrow> 'a result" where
  "disable_capability_raw env m = and_then (modify_capability env CAP_NET_RAW False) (\<lambda>_. m)"

definition enable_capability_admin :: "cap_env \<Rightarrow> 'a result \<Rightarrow> 'a result" where
  "enable_capability_admin env m = and_then (modify_capability env CAP_NET_ADMIN True) (\<lambda>_. m)"

definition disable_capability_admin :: "cap_env \<Rightarrow> 'a result \<Rightarrow> 'a result" where
  "disable_capability_admin env m = and_then (modify_capability env CAP_NET_ADMIN False) (\<lambda>_. m)"

definition drop_capabilities :: "cap_env \<Rightarrow> 'a result \<Rightarrow> 'a result" where
  "drop_capabilities env m =
     emit [Sys ''cap_permit'' []] (if ce_set env \<noteq> 0 then error_c (- 1) (ce_set env) ''cap_set_proc'' m else m)"

text \<open>\<open>modify_capability\<close> always returns, so it is output before what follows.\<close>

lemma modify_capability_returns:
  "\<exists>v. modify_capability env cap on = emit (fst (modify_capability env cap on)) (ret v)"
  by (auto simp: modify_capability_def emit_def ret_def error_c_def)

lemma capability_emits:
  "enable_capability_raw env m = emit (fst (modify_capability env CAP_NET_RAW True)) m"
  "disable_capability_raw env m = emit (fst (modify_capability env CAP_NET_RAW False)) m"
  "enable_capability_admin env m = emit (fst (modify_capability env CAP_NET_ADMIN True)) m"
  "disable_capability_admin env m = emit (fst (modify_capability env CAP_NET_ADMIN False)) m"
  unfolding enable_capability_raw_def disable_capability_raw_def enable_capability_admin_def
    disable_capability_admin_def
  by (metis and_then_emit and_then_ret modify_capability_returns)+

text \<open>
  The effective and the permitted capabilities after a run of effects: permitting sets them anew
  with nothing effective.
\<close>

type_synonym caps = "int set \<times> int set"

fun cap_step :: "caps \<Rightarrow> effect \<Rightarrow> caps" where
  "cap_step (per, eff) (Sys c as) =
     (if c = ''cap_permit'' then (per \<inter> set as, {})
      else if c = ''cap_effective''
      then (per, if as ! 1 = 1 then insert (as ! 0) eff else eff - {as ! 0})
      else (per, eff))"
| "cap_step s e = s"

definition caps_after :: "effect list \<Rightarrow> caps \<Rightarrow> caps" where
  "caps_after es s = foldl cap_step s es"

lemma caps_after_append [simp]: "caps_after (es @ fs) s = caps_after fs (caps_after es s)"
  by (simp add: caps_after_def)

lemma caps_after_simps [simp]:
  "caps_after [] s = s" "caps_after (Diag n d # es) s = caps_after es s"
  "caps_after (Out d # es) s = caps_after es s" "caps_after (Err d # es) s = caps_after es s"
  "caps_after (Sys c as # es) s = caps_after es (cap_step s (Sys c as))"
  by (cases s; simp add: caps_after_def)+

end
