(* ===== verification/Md5.thy ===== *)
theory Md5
  imports Ping_State
begin

text \<open>
  The digest of \<open>md5.c\<close>.  A context is the four words of the state, the two halves of the bit count
  and the 64 bytes of the block being filled; the host is little-endian, so \<open>byteReverse\<close> is nothing.
  The digest is shown to be that of RFC 1321, for a message given in any pieces.
\<close>

record IPUTILS_MD5Context =
  md_buf :: "u32 list"
  md_bits0 :: u32
  md_bits1 :: u32
  md_in :: "u8 list"

definition IPUTILS_MD5LENGTH :: nat where "IPUTILS_MD5LENGTH = 16"

subsection \<open>\<open>iputils_MD5Transform\<close>\<close>

definition F1 :: "u32 \<Rightarrow> u32 \<Rightarrow> u32 \<Rightarrow> u32" where
  "F1 x y z = z XOR (x AND (y XOR z))"

definition F2 :: "u32 \<Rightarrow> u32 \<Rightarrow> u32 \<Rightarrow> u32" where
  "F2 x y z = F1 z x y"

definition F3 :: "u32 \<Rightarrow> u32 \<Rightarrow> u32 \<Rightarrow> u32" where
  "F3 x y z = x XOR y XOR z"

definition F4 :: "u32 \<Rightarrow> u32 \<Rightarrow> u32 \<Rightarrow> u32" where
  "F4 x y z = y XOR (x OR NOT z)"

text \<open>The macro \<open>MD5STEP\<close>: the new value of \<open>w\<close>.\<close>

definition md5step :: "(u32 \<Rightarrow> u32 \<Rightarrow> u32 \<Rightarrow> u32) \<Rightarrow> u32 \<Rightarrow> u32 \<Rightarrow> u32 \<Rightarrow> u32 \<Rightarrow> u32 \<Rightarrow> nat \<Rightarrow> u32" where
  "md5step f w x y z input s =
     (let w = w + (f x y z + input); w = push_bit s w OR drop_bit (32 - s) w in w + x)"

definition md5_transform :: "u32 list \<Rightarrow> u32 list \<Rightarrow> u32 list" where
  "md5_transform buf inp =
     (let a = buf ! 0; b = buf ! 1; c = buf ! 2; d = buf ! 3;
          a = md5step F1 a b c d (inp ! 0 + 0xd76aa478) 7;
          d = md5step F1 d a b c (inp ! 1 + 0xe8c7b756) 12;
          c = md5step F1 c d a b (inp ! 2 + 0x242070db) 17;
          b = md5step F1 b c d a (inp ! 3 + 0xc1bdceee) 22;
          a = md5step F1 a b c d (inp ! 4 + 0xf57c0faf) 7;
          d = md5step F1 d a b c (inp ! 5 + 0x4787c62a) 12;
          c = md5step F1 c d a b (inp ! 6 + 0xa8304613) 17;
          b = md5step F1 b c d a (inp ! 7 + 0xfd469501) 22;
          a = md5step F1 a b c d (inp ! 8 + 0x698098d8) 7;
          d = md5step F1 d a b c (inp ! 9 + 0x8b44f7af) 12;
          c = md5step F1 c d a b (inp ! 10 + 0xffff5bb1) 17;
          b = md5step F1 b c d a (inp ! 11 + 0x895cd7be) 22;
          a = md5step F1 a b c d (inp ! 12 + 0x6b901122) 7;
          d = md5step F1 d a b c (inp ! 13 + 0xfd987193) 12;
          c = md5step F1 c d a b (inp ! 14 + 0xa679438e) 17;
          b = md5step F1 b c d a (inp ! 15 + 0x49b40821) 22;
          a = md5step F2 a b c d (inp ! 1 + 0xf61e2562) 5;
          d = md5step F2 d a b c (inp ! 6 + 0xc040b340) 9;
          c = md5step F2 c d a b (inp ! 11 + 0x265e5a51) 14;
          b = md5step F2 b c d a (inp ! 0 + 0xe9b6c7aa) 20;
          a = md5step F2 a b c d (inp ! 5 + 0xd62f105d) 5;
          d = md5step F2 d a b c (inp ! 10 + 0x02441453) 9;
          c = md5step F2 c d a b (inp ! 15 + 0xd8a1e681) 14;
          b = md5step F2 b c d a (inp ! 4 + 0xe7d3fbc8) 20;
          a = md5step F2 a b c d (inp ! 9 + 0x21e1cde6) 5;
          d = md5step F2 d a b c (inp ! 14 + 0xc33707d6) 9;
          c = md5step F2 c d a b (inp ! 3 + 0xf4d50d87) 14;
          b = md5step F2 b c d a (inp ! 8 + 0x455a14ed) 20;
          a = md5step F2 a b c d (inp ! 13 + 0xa9e3e905) 5;
          d = md5step F2 d a b c (inp ! 2 + 0xfcefa3f8) 9;
          c = md5step F2 c d a b (inp ! 7 + 0x676f02d9) 14;
          b = md5step F2 b c d a (inp ! 12 + 0x8d2a4c8a) 20;
          a = md5step F3 a b c d (inp ! 5 + 0xfffa3942) 4;
          d = md5step F3 d a b c (inp ! 8 + 0x8771f681) 11;
          c = md5step F3 c d a b (inp ! 11 + 0x6d9d6122) 16;
          b = md5step F3 b c d a (inp ! 14 + 0xfde5380c) 23;
          a = md5step F3 a b c d (inp ! 1 + 0xa4beea44) 4;
          d = md5step F3 d a b c (inp ! 4 + 0x4bdecfa9) 11;
          c = md5step F3 c d a b (inp ! 7 + 0xf6bb4b60) 16;
          b = md5step F3 b c d a (inp ! 10 + 0xbebfbc70) 23;
          a = md5step F3 a b c d (inp ! 13 + 0x289b7ec6) 4;
          d = md5step F3 d a b c (inp ! 0 + 0xeaa127fa) 11;
          c = md5step F3 c d a b (inp ! 3 + 0xd4ef3085) 16;
          b = md5step F3 b c d a (inp ! 6 + 0x04881d05) 23;
          a = md5step F3 a b c d (inp ! 9 + 0xd9d4d039) 4;
          d = md5step F3 d a b c (inp ! 12 + 0xe6db99e5) 11;
          c = md5step F3 c d a b (inp ! 15 + 0x1fa27cf8) 16;
          b = md5step F3 b c d a (inp ! 2 + 0xc4ac5665) 23;
          a = md5step F4 a b c d (inp ! 0 + 0xf4292244) 6;
          d = md5step F4 d a b c (inp ! 7 + 0x432aff97) 10;
          c = md5step F4 c d a b (inp ! 14 + 0xab9423a7) 15;
          b = md5step F4 b c d a (inp ! 5 + 0xfc93a039) 21;
          a = md5step F4 a b c d (inp ! 12 + 0x655b59c3) 6;
          d = md5step F4 d a b c (inp ! 3 + 0x8f0ccc92) 10;
          c = md5step F4 c d a b (inp ! 10 + 0xffeff47d) 15;
          b = md5step F4 b c d a (inp ! 1 + 0x85845dd1) 21;
          a = md5step F4 a b c d (inp ! 8 + 0x6fa87e4f) 6;
          d = md5step F4 d a b c (inp ! 15 + 0xfe2ce6e0) 10;
          c = md5step F4 c d a b (inp ! 6 + 0xa3014314) 15;
          b = md5step F4 b c d a (inp ! 13 + 0x4e0811a1) 21;
          a = md5step F4 a b c d (inp ! 4 + 0xf7537e82) 6;
          d = md5step F4 d a b c (inp ! 11 + 0xbd3af235) 10;
          c = md5step F4 c d a b (inp ! 2 + 0x2ad7d2bb) 15;
          b = md5step F4 b c d a (inp ! 9 + 0xeb86d391) 21
      in [buf ! 0 + a, buf ! 1 + b, buf ! 2 + c, buf ! 3 + d])"


text \<open>The sixteen words of a block.\<close>

definition block_words :: "u8 list \<Rightarrow> u32 list" where
  "block_words bs = map (\<lambda>i. le32 (bs ! (4 * i)) (bs ! (4 * i + 1)) (bs ! (4 * i + 2)) (bs ! (4 * i + 3))) [0..<16]"

subsection \<open>\<open>iputils_MD5Init\<close>, \<open>iputils_MD5Update\<close>, \<open>iputils_MD5Final\<close>\<close>

text \<open>\<open>stale\<close> is what the block holds before the first update.\<close>

definition iputils_MD5Init :: "u8 list \<Rightarrow> IPUTILS_MD5Context" where
  "iputils_MD5Init stale =
     \<lparr>md_buf = [0x67452301, 0xefcdab89, 0x98badcfe, 0x10325476], md_bits0 = 0, md_bits1 = 0, md_in = stale\<rparr>"

definition md5_count :: "IPUTILS_MD5Context \<Rightarrow> u32 \<Rightarrow> IPUTILS_MD5Context" where
  "md5_count ctx len =
     (let t = md_bits0 ctx; bits0 = t + push_bit 3 len
      in ctx\<lparr>md_bits0 := bits0, md_bits1 := (if bits0 < t then md_bits1 ctx + 1 else md_bits1 ctx) + drop_bit 29 len\<rparr>)"

definition md5_fill :: "IPUTILS_MD5Context \<Rightarrow> nat \<Rightarrow> u8 list \<Rightarrow> IPUTILS_MD5Context" where
  "md5_fill ctx off bs = ctx\<lparr>md_in := splice off bs (md_in ctx)\<rparr>"

definition md5_block :: "IPUTILS_MD5Context \<Rightarrow> IPUTILS_MD5Context" where
  "md5_block ctx = ctx\<lparr>md_buf := md5_transform (md_buf ctx) (block_words (md_in ctx))\<rparr>"

function md5_chunks :: "IPUTILS_MD5Context \<Rightarrow> u8 list \<Rightarrow> IPUTILS_MD5Context" where
  "md5_chunks ctx bs =
     (if length bs \<ge> 64 then md5_chunks (md5_block (md5_fill ctx 0 (take 64 bs))) (drop 64 bs)
      else md5_fill ctx 0 bs)"
  by pat_completeness auto
termination by (relation "measure (\<lambda>(ctx, bs). length bs)") auto

declare md5_chunks.simps [simp del]

definition iputils_MD5Update :: "IPUTILS_MD5Context \<Rightarrow> u8 list \<Rightarrow> IPUTILS_MD5Context" where
  "iputils_MD5Update ctx bs =
     (let t = unat (drop_bit 3 (md_bits0 ctx) AND 0x3f); ctx = md5_count ctx (word_of_nat (length bs))
      in if t \<noteq> 0
         then let r = 64 - t
              in if length bs < r then md5_fill ctx t bs
                 else md5_chunks (md5_block (md5_fill ctx t (take r bs))) (drop r bs)
         else md5_chunks ctx bs)"

text \<open>The digest, and the context, which is cleared.\<close>

definition iputils_MD5Final :: "IPUTILS_MD5Context \<Rightarrow> u8 list \<times> IPUTILS_MD5Context" where
  "iputils_MD5Final ctx =
     (let n = unat (drop_bit 3 (md_bits0 ctx) AND 0x3f); ctx = md5_fill ctx n [0x80]; m = 64 - 1 - n;
          ctx = (if m < 8 then md5_fill (md5_block (md5_fill ctx (n + 1) (zeros m))) 0 (zeros 56)
                 else md5_fill ctx (n + 1) (zeros (m - 8)));
          ctx = md5_fill ctx 56 (le32_bytes (md_bits0 ctx)); ctx = md5_fill ctx 60 (le32_bytes (md_bits1 ctx));
          ctx = md5_block ctx
      in (concat (map le32_bytes (md_buf ctx)),
          \<lparr>md_buf = zeros 4, md_bits0 = 0, md_bits1 = 0, md_in = zeros 64\<rparr>))"

subsection \<open>The transformation of RFC 1321\<close>

text \<open>
  The RFC gives the step as one operation on the four registers, with a table of 64 constants, and
  the index of the word and the shift by the number of the step.
\<close>

definition md5_T :: "u32 list" where
  "md5_T = [
     0xd76aa478, 0xe8c7b756, 0x242070db, 0xc1bdceee, 0xf57c0faf, 0x4787c62a, 0xa8304613, 0xfd469501,
     0x698098d8, 0x8b44f7af, 0xffff5bb1, 0x895cd7be, 0x6b901122, 0xfd987193, 0xa679438e, 0x49b40821,
     0xf61e2562, 0xc040b340, 0x265e5a51, 0xe9b6c7aa, 0xd62f105d, 0x02441453, 0xd8a1e681, 0xe7d3fbc8,
     0x21e1cde6, 0xc33707d6, 0xf4d50d87, 0x455a14ed, 0xa9e3e905, 0xfcefa3f8, 0x676f02d9, 0x8d2a4c8a,
     0xfffa3942, 0x8771f681, 0x6d9d6122, 0xfde5380c, 0xa4beea44, 0x4bdecfa9, 0xf6bb4b60, 0xbebfbc70,
     0x289b7ec6, 0xeaa127fa, 0xd4ef3085, 0x04881d05, 0xd9d4d039, 0xe6db99e5, 0x1fa27cf8, 0xc4ac5665,
     0xf4292244, 0x432aff97, 0xab9423a7, 0xfc93a039, 0x655b59c3, 0x8f0ccc92, 0xffeff47d, 0x85845dd1,
     0x6fa87e4f, 0xfe2ce6e0, 0xa3014314, 0x4e0811a1, 0xf7537e82, 0xbd3af235, 0x2ad7d2bb, 0xeb86d391]"

definition md5_function :: "nat \<Rightarrow> u32 \<Rightarrow> u32 \<Rightarrow> u32 \<Rightarrow> u32" where
  "md5_function i x y z =
     (if i < 16 then (x AND y) OR (NOT x AND z) else if i < 32 then (x AND z) OR (y AND NOT z)
      else if i < 48 then x XOR y XOR z else y XOR (x OR NOT z))"

definition md5_word :: "nat \<Rightarrow> nat" where
  "md5_word i =
     (if i < 16 then i else if i < 32 then (5 * i + 1) mod 16 else if i < 48 then (3 * i + 5) mod 16 else 7 * i mod 16)"

definition md5_shift :: "nat \<Rightarrow> nat" where
  "md5_shift i = [[7, 12, 17, 22], [5, 9, 14, 20], [4, 11, 16, 23], [6, 10, 15, 21]] ! (i div 16) ! (i mod 4)"

definition md5_round :: "u32 list \<Rightarrow> nat \<Rightarrow> u32 \<times> u32 \<times> u32 \<times> u32 \<Rightarrow> u32 \<times> u32 \<times> u32 \<times> u32" where
  "md5_round inp i = (\<lambda>(a, b, c, d).
     (d, b + word_rotl (md5_shift i) (a + md5_function i b c d + inp ! md5_word i + md5_T ! i), b, c))"

definition md5_compress :: "u32 list \<Rightarrow> u32 list \<Rightarrow> u32 list" where
  "md5_compress buf inp =
     (case fold (md5_round inp) [0..<64] (buf ! 0, buf ! 1, buf ! 2, buf ! 3) of
        (a, b, c, d) \<Rightarrow> [buf ! 0 + a, buf ! 1 + b, buf ! 2 + c, buf ! 3 + d])"

text \<open>The message with its padding: a bit 1, zeros up to 56 modulo 64 bytes, and the length in bits.\<close>

definition md5_padded :: "u8 list \<Rightarrow> u8 list" where
  "md5_padded msg = msg @ 0x80 # zeros ((119 - length msg mod 64) mod 64) @ le64_bytes (word_of_nat (8 * length msg))"

function md5_blocks :: "(u32 list \<Rightarrow> u32 list \<Rightarrow> u32 list) \<Rightarrow> u32 list \<Rightarrow> u8 list \<Rightarrow> u32 list" where
  "md5_blocks f buf bs =
     (if length bs < 64 then buf else md5_blocks f (f buf (block_words (take 64 bs))) (drop 64 bs))"
  by pat_completeness auto
termination by (relation "measure (\<lambda>(f, buf, bs). length bs)") auto

declare md5_blocks.simps [simp del]

definition md5 :: "u8 list \<Rightarrow> u8 list" where
  "md5 msg = concat (map le32_bytes
     (md5_blocks md5_compress [0x67452301, 0xefcdab89, 0x98badcfe, 0x10325476] (md5_padded msg)))"

subsection \<open>The transformation is that of the RFC\<close>

lemma F1_eq: "F1 x y z = (x AND y) OR (NOT x AND z)"
  unfolding F1_def by (rule bit_word_eqI) (auto simp: bit_simps)

lemma md5_functions:
  "i < 16 \<Longrightarrow> md5_function i = F1" "16 \<le> i \<Longrightarrow> i < 32 \<Longrightarrow> md5_function i = F2"
  "32 \<le> i \<Longrightarrow> i < 48 \<Longrightarrow> md5_function i = F3" "48 \<le> i \<Longrightarrow> md5_function i = F4"
  by (simp_all add: fun_eq_iff md5_function_def F1_eq F2_def F3_def F4_def ac_simps)

lemma rotate_eq:
  assumes "0 < s" "s < 32"
  shows "word_rotl s w = push_bit s w OR drop_bit (32 - s) (w :: u32)"
proof (rule bit_word_eqI)
  fix n assume n: "n < LENGTH(32)"
  show "bit (word_rotl s w) n = bit (push_bit s w OR drop_bit (32 - s) w) n"
  proof (cases "s \<le> n")
    case True
    then have "(n + (32 - s)) mod 32 = n - s" using n assms by (simp add: mod_if)
    moreover have "\<not> bit w (32 - s + n)" using True assms by (auto dest: bit_imp_le_length)
    ultimately show ?thesis using True n assms by (simp add: bit_simps)
  next
    case False
    then have "(n + (32 - s)) mod 32 = n + (32 - s)" using n assms by (simp add: mod_if)
    then have "bit (word_rotl s w) n = bit w (n + (32 - s))" using n assms by (simp only: bit_word_rotl_iff) simp
    also have "n + (32 - s) = 32 - s + n" by (rule add.commute)
    also have "bit w (32 - s + n) = bit (push_bit s w OR drop_bit (32 - s) w) n"
      using False n by (simp add: bit_or_iff bit_push_bit_iff bit_drop_bit_eq)
    finally show ?thesis .
  qed
qed

text \<open>The steps as a list of their functions, words, shifts and constants.\<close>

primrec md5_steps ::
    "u32 list \<Rightarrow> ((u32 \<Rightarrow> u32 \<Rightarrow> u32 \<Rightarrow> u32) \<times> nat \<times> nat \<times> u32) list \<Rightarrow> u32 \<times> u32 \<times> u32 \<times> u32 \<Rightarrow>
     u32 \<times> u32 \<times> u32 \<times> u32" where
  "md5_steps inp [] q = q"
| "md5_steps inp (x # xs) q =
     md5_steps inp xs (case x of (f, k, s, t) \<Rightarrow> case q of (a, b, c, d) \<Rightarrow> (d, md5step f a b c d (inp ! k + t) s, b, c))"

lemma md5_shift_bounds: "i < 64 \<Longrightarrow> 0 < md5_shift i \<and> md5_shift i < 32"
proof -
  assume "i < 64"
  then have "i div 16 < 4" "i mod 4 < 4" by simp_all
  then have "i div 16 \<in> {0, 1, 2, 3}" "i mod 4 \<in> {0, 1, 2, 3}" by auto
  then show ?thesis unfolding md5_shift_def by auto
qed

lemma fold_rounds:
  "\<forall>i \<in> set is. i < 64 \<Longrightarrow>
   fold (md5_round inp) is q = md5_steps inp (map (\<lambda>i. (md5_function i, md5_word i, md5_shift i, md5_T ! i)) is) q"
proof (induction "is" arbitrary: q)
  case (Cons i "is")
  then show ?case using md5_shift_bounds [of i]
    by (cases q) (simp add: md5_round_def md5step_def Let_def rotate_eq ac_simps)
qed simp

lemma md5_table:
  "map (\<lambda>i. (md5_function i, md5_word i, md5_shift i, md5_T ! i)) [0..<64] =
    [(F1, 0, 7, 0xd76aa478), (F1, 1, 12, 0xe8c7b756), (F1, 2, 17, 0x242070db),
     (F1, 3, 22, 0xc1bdceee), (F1, 4, 7, 0xf57c0faf), (F1, 5, 12, 0x4787c62a),
     (F1, 6, 17, 0xa8304613), (F1, 7, 22, 0xfd469501), (F1, 8, 7, 0x698098d8),
     (F1, 9, 12, 0x8b44f7af), (F1, 10, 17, 0xffff5bb1), (F1, 11, 22, 0x895cd7be),
     (F1, 12, 7, 0x6b901122), (F1, 13, 12, 0xfd987193), (F1, 14, 17, 0xa679438e),
     (F1, 15, 22, 0x49b40821), (F2, 1, 5, 0xf61e2562), (F2, 6, 9, 0xc040b340),
     (F2, 11, 14, 0x265e5a51), (F2, 0, 20, 0xe9b6c7aa), (F2, 5, 5, 0xd62f105d),
     (F2, 10, 9, 0x02441453), (F2, 15, 14, 0xd8a1e681), (F2, 4, 20, 0xe7d3fbc8),
     (F2, 9, 5, 0x21e1cde6), (F2, 14, 9, 0xc33707d6), (F2, 3, 14, 0xf4d50d87),
     (F2, 8, 20, 0x455a14ed), (F2, 13, 5, 0xa9e3e905), (F2, 2, 9, 0xfcefa3f8),
     (F2, 7, 14, 0x676f02d9), (F2, 12, 20, 0x8d2a4c8a), (F3, 5, 4, 0xfffa3942),
     (F3, 8, 11, 0x8771f681), (F3, 11, 16, 0x6d9d6122), (F3, 14, 23, 0xfde5380c),
     (F3, 1, 4, 0xa4beea44), (F3, 4, 11, 0x4bdecfa9), (F3, 7, 16, 0xf6bb4b60),
     (F3, 10, 23, 0xbebfbc70), (F3, 13, 4, 0x289b7ec6), (F3, 0, 11, 0xeaa127fa),
     (F3, 3, 16, 0xd4ef3085), (F3, 6, 23, 0x04881d05), (F3, 9, 4, 0xd9d4d039),
     (F3, 12, 11, 0xe6db99e5), (F3, 15, 16, 0x1fa27cf8), (F3, 2, 23, 0xc4ac5665),
     (F4, 0, 6, 0xf4292244), (F4, 7, 10, 0x432aff97), (F4, 14, 15, 0xab9423a7),
     (F4, 5, 21, 0xfc93a039), (F4, 12, 6, 0x655b59c3), (F4, 3, 10, 0x8f0ccc92),
     (F4, 10, 15, 0xffeff47d), (F4, 1, 21, 0x85845dd1), (F4, 8, 6, 0x6fa87e4f),
     (F4, 15, 10, 0xfe2ce6e0), (F4, 6, 15, 0xa3014314), (F4, 13, 21, 0x4e0811a1),
     (F4, 4, 6, 0xf7537e82), (F4, 11, 10, 0xbd3af235), (F4, 2, 15, 0x2ad7d2bb),
     (F4, 9, 21, 0xeb86d391)]"
proof -
  have "[0..<64 :: nat] = [0, 1, 2, 3, 4, 5, 6, 7, 8, 9, 10, 11, 12, 13, 14, 15, 16, 17, 18, 19, 20, 21, 22, 23, 24, 25, 26, 27, 28, 29, 30, 31, 32, 33, 34, 35, 36, 37, 38, 39, 40, 41, 42, 43, 44, 45, 46, 47, 48, 49, 50, 51, 52, 53, 54, 55, 56, 57, 58, 59, 60, 61, 62, 63]"
    by code_simp
  then show ?thesis by (simp add: md5_functions md5_word_def md5_shift_def md5_T_def)
qed

lemma md5_steps_step:
  "(case md5_steps inp ((f, k, s, t) # xs) (a, b, c, d) of (a, b, c, d) \<Rightarrow> P a b c d) =
   (let w = md5step f a b c d (inp ! k + t) s in case md5_steps inp xs (d, w, b, c) of (a, b, c, d) \<Rightarrow> P a b c d)"
  "(case md5_steps inp [] (a, b, c, d) of (a, b, c, d) \<Rightarrow> P a b c d) = P a b c d"
  by (simp_all add: Let_def)

lemma md5_compress_flat: "md5_transform buf inp = md5_compress buf inp"
proof -
  have "md5_compress buf inp = (let a = buf ! 0; b = buf ! 1; c = buf ! 2; d = buf ! 3 in
      case md5_steps inp (map (\<lambda>i. (md5_function i, md5_word i, md5_shift i, md5_T ! i)) [0..<64]) (a, b, c, d) of
        (a, b, c, d) \<Rightarrow> [buf ! 0 + a, buf ! 1 + b, buf ! 2 + c, buf ! 3 + d])"
    by (simp add: md5_compress_def fold_rounds)
  also have "\<dots> = md5_transform buf inp"
    by (simp only: md5_table md5_steps_step md5_transform_def)
  finally show ?thesis by (rule sym)
qed

text \<open>
  C21: \<open>iputils_MD5Transform\<close>, which is written out as 64 statements with the registers exchanged by
  hand, is the compression function of RFC 1321: the same step 64 times on rotating registers, with
  the RFC's functions, word indices, shifts and constants.
\<close>

theorem md5_transform_rfc: "md5_transform buf inp = md5_compress buf inp"
  by (rule md5_compress_flat)

subsection \<open>A message in pieces\<close>

lemma md5_blocks_short: "length bs < 64 \<Longrightarrow> md5_blocks f buf bs = buf"
  by (simp add: md5_blocks.simps)

lemma md5_blocks_append: "64 dvd length a \<Longrightarrow> md5_blocks f buf (a @ b) = md5_blocks f (md5_blocks f buf a) b"
proof (induction "length a" arbitrary: a buf rule: less_induct)
  case less
  show ?case
  proof (cases "a = []")
    case False
    then have len: "64 \<le> length a" using less.prems by (auto dest: dvd_imp_le)
    then have "64 dvd length (drop 64 a)" using less.prems by simp
    then have "md5_blocks f (f buf (block_words (take 64 a))) (drop 64 a @ b) =
        md5_blocks f (md5_blocks f (f buf (block_words (take 64 a))) (drop 64 a)) b"
      using len by (intro less.hyps) simp_all
    moreover have "md5_blocks f buf a = md5_blocks f (f buf (block_words (take 64 a))) (drop 64 a)"
      using len by (subst md5_blocks.simps) simp
    moreover have "md5_blocks f buf (a @ b) = md5_blocks f (f buf (block_words (take 64 a))) (drop 64 a @ b)"
      using len by (subst md5_blocks.simps) simp
    ultimately show ?thesis by simp
  qed (simp add: md5_blocks_short)
qed

lemma md5_blocks_one: "length a = 64 \<Longrightarrow> md5_blocks f buf a = f buf (block_words a)"
  by (subst md5_blocks.simps) (simp add: md5_blocks_short)

lemma md5_transform_fun: "md5_transform = md5_compress"
  by (simp add: fun_eq_iff md5_compress_flat)

text \<open>The bytes of a message that do not fill a block.\<close>

definition md5_rest :: "u8 list \<Rightarrow> u8 list" where
  "md5_rest msg = drop (64 * (length msg div 64)) msg"

lemma length_md5_rest: "length (md5_rest msg) = length msg mod 64"
  by (simp add: md5_rest_def modulo_nat_def mult.commute)

lemma md5_split:
  obtains a where "msg = a @ md5_rest msg" "64 dvd length a"
  by (rule that [of "take (64 * (length msg div 64)) msg"]) (simp_all add: md5_rest_def min_absorb2)

lemma md5_rest_append: "64 dvd length a \<Longrightarrow> md5_rest (a @ b) = md5_rest b"
  by (auto simp: md5_rest_def elim!: dvdE)

definition md5_state :: "IPUTILS_MD5Context \<Rightarrow> u8 list \<Rightarrow> bool" where
  "md5_state ctx msg \<longleftrightarrow>
     md_buf ctx = md5_blocks md5_compress [0x67452301, 0xefcdab89, 0x98badcfe, 0x10325476] msg \<and>
     length (md_in ctx) = 64 \<and> take (length msg mod 64) (md_in ctx) = md5_rest msg \<and>
     md_bits0 ctx = word_of_nat (8 * length msg) \<and> md_bits1 ctx = word_of_nat (8 * length msg div 2 ^ 32)"

lemma md5_chunks_eq:
  assumes "length (md_in ctx) = 64"
  shows "\<exists>X. md5_chunks ctx bs = ctx\<lparr>md_buf := md5_blocks md5_compress (md_buf ctx) bs, md_in := X\<rparr> \<and>
    length X = 64 \<and> take (length bs mod 64) X = md5_rest bs"
  using assms
proof (induction ctx bs rule: md5_chunks.induct)
  case (1 ctx bs)
  show ?case
  proof (cases "64 \<le> length bs")
    case True
    let ?c = "md5_block (md5_fill ctx 0 (take 64 bs))"
    have c: "md_in ?c = take 64 bs" "md_buf ?c = md5_compress (md_buf ctx) (block_words (take 64 bs))"
      using 1(2) True by (simp_all add: md5_block_def md5_fill_def splice_def md5_transform_fun)
    then obtain X where X: "md5_chunks ?c (drop 64 bs) = ?c\<lparr>md_buf := md5_blocks md5_compress (md_buf ?c) (drop 64 bs), md_in := X\<rparr>"
      "length X = 64" "take (length (drop 64 bs) mod 64) X = md5_rest (drop 64 bs)"
      using 1(1) [OF True] True by auto
    have "md5_rest bs = md5_rest (drop 64 bs)"
      using md5_rest_append [of "take 64 bs" "drop 64 bs"] True by simp
    moreover have "length (drop 64 bs) mod 64 = length bs mod 64" using True by (simp add: mod_if [of "length bs"])
    moreover have "md5_blocks md5_compress (md_buf ctx) bs = md5_blocks md5_compress (md_buf ?c) (drop 64 bs)"
      using True c by (subst md5_blocks.simps) simp
    ultimately show ?thesis
      using X True by (subst md5_chunks.simps) (auto simp: md5_block_def md5_fill_def)
  next
    case False
    then show ?thesis using 1(2)
      by (subst md5_chunks.simps) (auto simp: md5_fill_def splice_def md5_blocks_short md5_rest_def)
  qed
qed

lemma bits_in_block:
  fixes n :: nat
  shows "unat (drop_bit 3 (word_of_nat (8 * n) :: u32) AND 0x3f) = n mod 64"
proof -
  have "unat (drop_bit 3 (word_of_nat k :: u32) AND mask 6) = k mod 2 ^ 32 div 8 mod 64" for k
    by (simp only: take_bit_eq_mask [symmetric] unsigned_take_bit_eq unsigned_drop_bit_eq)
      (simp add: take_bit_eq_mod drop_bit_eq_div unsigned_of_nat)
  note this [of "8 * n"]
  then have "unat (drop_bit 3 (word_of_nat (8 * n) :: u32) AND mask 6) = n mod 64"
  proof -
    have "8 * n mod 2 ^ 32 = 8 * (n mod 2 ^ 29)" using mult_mod_right [of 8 n "2 ^ 29"] by simp
    then show ?thesis using \<open>unat (drop_bit 3 (word_of_nat (8 * n) :: u32) AND mask 6) = 8 * n mod 2 ^ 32 div 8 mod 64\<close>
      by (simp only:) (simp add: mod_mod_cancel)
  qed
  then show ?thesis by (simp add: mask_eq_exp_minus_1)
qed

lemma md5_count_eq:
  fixes n l :: nat
  assumes "md_bits0 ctx = word_of_nat (8 * n)" "md_bits1 ctx = word_of_nat (8 * n div 2 ^ 32)" "l < 2 ^ 32"
  shows "md5_count ctx (word_of_nat l) =
    ctx\<lparr>md_bits0 := word_of_nat (8 * (n + l)), md_bits1 := word_of_nat (8 * (n + l) div 2 ^ 32)\<rparr>"
proof -
  let ?M = "2 ^ 32 :: nat"
  define t s where "t = (word_of_nat (8 * n) :: u32)" and "s = (word_of_nat (8 * l) :: u32)"
  have shift: "push_bit 3 (word_of_nat l :: u32) = s"
    by (simp add: s_def push_bit_eq_mult mult.commute)
  have high: "drop_bit 29 (word_of_nat l :: u32) = word_of_nat (8 * l div ?M)"
  proof -
    have "l div 2 ^ 29 < ?M" using assms(3) by (simp add: less_mult_imp_div_less)
    then have "drop_bit 29 (word_of_nat l :: u32) = word_of_nat (l div 2 ^ 29)"
      using assms(3) by (simp add: word_unat_eq_iff unsigned_drop_bit_eq unat_div unsigned_of_nat take_bit_eq_mod drop_bit_eq_div)
    then show ?thesis by simp
  qed
  define x y where "x = 8 * n mod ?M" and "y = 8 * l mod ?M"
  have small: "x < ?M" "y < ?M" by (simp_all add: t_def s_def x_def y_def)
  have u: "unat t = x" "unat s = y" "unat (t + s) = (x + y) mod ?M"
    by (simp_all add: t_def s_def x_def y_def unsigned_of_nat take_bit_eq_mod unat_word_ariths mod_mult_right_eq)
  have "t + s < t \<longleftrightarrow> ?M \<le> x + y"
    using small by (simp add: word_less_nat_alt u mod_if) linarith
  moreover have "(x + y) div ?M = of_bool (?M \<le> x + y)"
    using small by (auto simp: div_if)
  ultimately have carry: "(x + y) div ?M = of_bool (t + s < t)" by simp
  have "8 * (n + l) div ?M = 8 * n div ?M + 8 * l div ?M + (x + y) div ?M"
    using div_add1_eq [of "8 * n" "8 * l" ?M] by (simp add: x_def y_def distrib_left)
  then have "(word_of_nat (8 * (n + l) div ?M) :: u32) =
      (if t + s < t then word_of_nat (8 * n div ?M) + 1 else word_of_nat (8 * n div ?M)) + word_of_nat (8 * l div ?M)"
    unfolding carry by (cases "t + s < t") (simp_all only: of_bool_eq of_nat_add of_nat_0 of_nat_1 if_True if_False ac_simps add_0_left)
  moreover have "word_of_nat (8 * (n + l)) = t + s" by (simp add: t_def s_def distrib_left)
  ultimately show ?thesis
    by (simp only: md5_count_def Let_def shift high assms(1,2) t_def [symmetric])
qed

lemma md5_rest_more:
  "length msg mod 64 + length bs < 64 \<Longrightarrow> md5_rest (msg @ bs) = md5_rest msg @ bs \<and>
    md5_blocks f buf (msg @ bs) = md5_blocks f buf msg \<and> (length msg + length bs) mod 64 = length msg mod 64 + length bs"
proof -
  assume less: "length msg mod 64 + length bs < 64"
  obtain a where a: "msg = a @ md5_rest msg" "64 dvd length a" by (rule md5_split)
  have r: "length (md5_rest msg @ bs) < 64" using less by (simp add: length_md5_rest)
  have "md5_rest (a @ md5_rest msg @ bs) = md5_rest msg @ bs"
    using r by (simp add: md5_rest_append [OF a(2)]) (simp add: md5_rest_def length_md5_rest)
  moreover have "md5_blocks f buf (a @ md5_rest msg @ bs) = md5_blocks f buf (a @ md5_rest msg)"
    using r by (simp add: md5_blocks_append [OF a(2)] md5_blocks_short)
  moreover have "(length msg + length bs) mod 64 = length msg mod 64 + length bs"
    using less by (metis mod_add_left_eq mod_less)
  ultimately show ?thesis using a(1) by (metis append_assoc)
qed

lemma md5_update_state:
  assumes "md5_state ctx msg" "length bs < 2 ^ 32"
  shows "md5_state (iputils_MD5Update ctx bs) (msg @ bs)"
proof -
  define n where "n = length msg mod 64"
  have st: "length (md_in ctx) = 64" "take n (md_in ctx) = md5_rest msg" "length (md5_rest msg) = n" "n < 64"
    "md_buf ctx = md5_blocks md5_compress [0x67452301, 0xefcdab89, 0x98badcfe, 0x10325476] msg"
    using assms(1) by (simp_all add: md5_state_def n_def length_md5_rest)
  have t: "unat (drop_bit 3 (md_bits0 ctx) AND 0x3f) = n"
    using assms(1) bits_in_block [of "length msg"] by (simp add: md5_state_def n_def)
  define c where "c = md5_count ctx (word_of_nat (length bs))"
  have c: "c = ctx\<lparr>md_bits0 := word_of_nat (8 * length (msg @ bs)), md_bits1 := word_of_nat (8 * length (msg @ bs) div 2 ^ 32)\<rparr>"
    using md5_count_eq [of ctx "length msg" "length bs"] assms by (simp add: md5_state_def c_def)
  obtain a where a: "msg = a @ md5_rest msg" "64 dvd length a" by (rule md5_split)
  have buf: "md5_blocks md5_compress [0x67452301, 0xefcdab89, 0x98badcfe, 0x10325476] (msg @ bs) =
      md5_blocks md5_compress (md_buf ctx) (md5_rest msg @ bs)"
    using a(1) st(3,4) by (metis append_assoc md5_blocks_append [OF a(2)] md5_blocks_short st(5))
  have rest: "md5_rest (msg @ bs) = md5_rest (md5_rest msg @ bs)"
    using a(1) by (metis append_assoc md5_rest_append [OF a(2)])
  have len: "length (msg @ bs) mod 64 = length (md5_rest msg @ bs) mod 64"
    using st(3) by (simp add: n_def mod_add_left_eq)
  have chunks: "md5_state (md5_chunks c' bs') (msg @ bs)"
    if "length (md_in c') = 64" "c' = c\<lparr>md_buf := md_buf c', md_in := md_in c'\<rparr>"
      "md5_blocks md5_compress (md_buf c') bs' = md5_blocks md5_compress (md_buf ctx) (md5_rest msg @ bs)"
      "md5_rest bs' = md5_rest (md5_rest msg @ bs)" for c' bs'
  proof -
    note prems = that
    obtain X where X: "md5_chunks c' bs' = c'\<lparr>md_buf := md5_blocks md5_compress (md_buf c') bs', md_in := X\<rparr>"
      "length X = 64" "take (length bs' mod 64) X = md5_rest bs'" using md5_chunks_eq [OF prems(1)] by blast
    have "length bs' mod 64 = length (msg @ bs) mod 64"
      using length_md5_rest [of bs'] length_md5_rest [of "md5_rest msg @ bs"] prems(4) len by simp
    moreover have "md_bits0 c' = md_bits0 c" "md_bits1 c' = md_bits1 c" by (subst prems(2), simp)+
    ultimately show ?thesis
      using X prems(3,4) buf rest c by (simp add: md5_state_def)
  qed
  show ?thesis
  proof (cases "n = 0")
    case True
    then have "md5_rest msg = []" using st(3) by simp
    then have "md5_state (md5_chunks c bs) (msg @ bs)" using chunks [of c bs] st(1) c by simp
    then show ?thesis using True t by (simp add: iputils_MD5Update_def Let_def c_def)
  next
    case False
    show ?thesis
    proof (cases "length bs < 64 - n")
      case True
      then have more: "n + length bs < 64" by simp
      have "take (n + length bs) (splice n bs (md_in c)) = md5_rest msg @ bs"
        using st c more by (simp add: splice_def)
      then have "md5_state (md5_fill c n bs) (msg @ bs)"
        using md5_rest_more [of msg bs] more st c by (simp add: md5_state_def md5_fill_def n_def)
      then show ?thesis using False True t by (simp add: iputils_MD5Update_def Let_def c_def)
    next
      case longer: False
      let ?r = "64 - n"
      have full: "splice n (take ?r bs) (md_in c) = md5_rest msg @ take ?r bs"
        using st c longer by (simp add: splice_def)
      have l: "length (md5_rest msg @ take ?r bs) = 64" using st longer by simp
      have two: "md5_rest msg @ bs = (md5_rest msg @ take ?r bs) @ drop ?r bs" by simp
      have dvd: "64 dvd length (md5_rest msg @ take ?r bs)" using l by simp
      let ?c = "md5_block (md5_fill c n (take ?r bs))"
      have in_c: "md_in ?c = md5_rest msg @ take ?r bs"
        "md_buf ?c = md5_compress (md_buf ctx) (block_words (md5_rest msg @ take ?r bs))"
        using full c by (simp_all add: md5_block_def md5_fill_def md5_transform_fun)
      have "md5_state (md5_chunks ?c (drop ?r bs)) (msg @ bs)"
        by (rule chunks, use in_c l in simp, simp add: md5_block_def md5_fill_def,
            simp only: two md5_blocks_append [OF dvd] md5_blocks_one [OF l] in_c,
            simp only: two md5_rest_append [OF dvd])
      then show ?thesis using False longer t by (simp add: iputils_MD5Update_def Let_def c_def)
    qed
  qed
qed

lemma splice_after: "length a = off \<Longrightarrow> splice off b (a @ c) = a @ b @ drop (length b) c"
  by (auto simp: splice_def)

lemma splice_tail:
  assumes "take n xs = a" "length a = n" "n \<le> length xs"
  shows "splice n b xs = a @ b @ drop (n + length b) xs"
  using assms by (simp add: splice_def)

lemma le64_bytes_halves: "le64_bytes w = le32_bytes (ucast w) @ le32_bytes (ucast (drop_bit 32 w))"
proof -
  have low: "ucast (drop_bit k (ucast w :: u32)) = (ucast (drop_bit k w) :: u8)" if "k \<le> 24" for k
    by (rule bit_word_eqI) (use that in \<open>auto simp: bit_simps\<close>)
  have high: "ucast (drop_bit k (ucast (drop_bit 32 w) :: u32)) = (ucast (drop_bit (32 + k) w) :: u8)" if "k \<le> 24" for k
    by (rule bit_word_eqI) (use that in \<open>auto simp: bit_simps ac_simps\<close>)
  have "[0..<8] = [0, 1, 2, 3, 4, 5, 6, 7 :: nat]" by code_simp
  then show ?thesis
    using low [of 0] high [of 0] by (simp add: le64_bytes_def le32_bytes_def low high)
qed

lemma md5_length_bytes:
  "le64_bytes (word_of_nat n) = le32_bytes (word_of_nat n) @ le32_bytes (word_of_nat (n div 2 ^ 32))"
proof -
  have "(ucast (word_of_nat n :: u64) :: u32) = word_of_nat n"
    by (rule bit_word_eqI) (auto simp: bit_simps)
  moreover have "(ucast (drop_bit 32 (word_of_nat n :: u64)) :: u32) = word_of_nat (drop_bit 32 n)"
    by (rule bit_word_eqI) (auto simp: bit_simps ac_simps)
  then have "(ucast (drop_bit 32 (word_of_nat n :: u64)) :: u32) = word_of_nat (n div 2 ^ 32)"
    by (simp only: drop_bit_eq_div)
  ultimately show ?thesis by (simp only: le64_bytes_halves)
qed

lemma md5_final_state:
  assumes "md5_state ctx msg"
  shows "fst (iputils_MD5Final ctx) = md5 msg"
proof -
  let ?init = "[0x67452301, 0xefcdab89, 0x98badcfe, 0x10325476] :: u32 list"
  define n r where "n = length msg mod 64" and "r = md5_rest msg"
  define lenb where "lenb = le64_bytes (word_of_nat (8 * length msg))"
  have st: "length (md_in ctx) = 64" "take n (md_in ctx) = r" "length r = n" "n < 64"
    "md_buf ctx = md5_blocks md5_compress ?init msg"
    "le32_bytes (md_bits0 ctx) @ le32_bytes (md_bits1 ctx) = lenb" "length lenb = 8"
    using assms by (simp_all only: md5_state_def n_def r_def lenb_def length_md5_rest md5_length_bytes) simp_all
  have t: "unat (drop_bit 3 (md_bits0 ctx) AND 0x3f) = n"
    using assms bits_in_block [of "length msg"] by (simp add: md5_state_def n_def)
  obtain a where a: "msg = a @ r" "64 dvd length a" unfolding r_def by (rule md5_split)
  have buf: "md5_blocks md5_compress ?init (a @ b) = md5_blocks md5_compress (md_buf ctx) b" for b
    using a(1) st(3,4,5) by (metis md5_blocks_append [OF a(2)] md5_blocks_short)
  have last2: "splice 60 (le32_bytes (md_bits1 ctx)) (splice 56 (le32_bytes (md_bits0 ctx)) (b @ c)) = b @ lenb"
    if "length b = 56" "length c = 8" for b c
    using that st(6) by (simp add: splice_after [of b]) (simp add: splice_after [of "b @ le32_bytes (md_bits0 ctx)", simplified])
  have pad: "md5_padded msg = msg @ 0x80 # zeros ((119 - n) mod 64) @ lenb"
    by (simp only: md5_padded_def n_def lenb_def)
  show ?thesis
  proof (cases "n < 56")
    case True
    define blk where "blk = r @ 0x80 # zeros (55 - n) @ lenb"
    have "splice n [0x80] (md_in ctx) = (r @ [0x80]) @ drop (n + 1) (md_in ctx)"
      using st by (simp add: splice_tail [where a = r])
    then have "splice (n + 1) (zeros (55 - n)) (splice n [0x80] (md_in ctx)) =
        (r @ 0x80 # zeros (55 - n)) @ drop 56 (md_in ctx)"
      using st True by (simp only: splice_after length_append) (simp add: st splice_after [of "r @ [0x80]", simplified])
    then have "splice 60 (le32_bytes (md_bits1 ctx)) (splice 56 (le32_bytes (md_bits0 ctx))
        (splice (n + 1) (zeros (55 - n)) (splice n [0x80] (md_in ctx)))) = blk"
      using last2 [of "r @ 0x80 # zeros (55 - n)" "drop 56 (md_in ctx)"] st True by (simp add: blk_def)
    moreover have "\<not> 64 - 1 - n < 8" using True by simp
    ultimately have "fst (iputils_MD5Final ctx) = concat (map le32_bytes (md5_compress (md_buf ctx) (block_words blk)))"
      using t by (simp add: iputils_MD5Final_def Let_def md5_block_def md5_fill_def md5_transform_fun)
    moreover have "md5_padded msg = a @ blk"
    proof -
      have "119 - n = 55 - n + 64" using True by simp
      then have "(119 - n) mod 64 = 55 - n" by (simp only: mod_add_self2) simp
      then have "md5_padded msg = msg @ 0x80 # zeros (55 - n) @ lenb" by (simp only: pad)
      then show ?thesis unfolding blk_def using a(1) by (metis append_assoc)
    qed
    moreover have "length blk = 64" using st True by (simp add: blk_def)
    ultimately show ?thesis by (simp add: md5_def buf md5_blocks_one)
  next
    case False
    define blk where "blk = r @ 0x80 # zeros (63 - n)"
    have "splice n [0x80] (md_in ctx) = (r @ [0x80]) @ drop (n + 1) (md_in ctx)"
      using st by (simp add: splice_tail [where a = r])
    then have "splice (n + 1) (zeros (63 - n)) (splice n [0x80] (md_in ctx)) = blk"
      using st by (simp add: blk_def splice_after [of "r @ [0x80]", simplified])
    moreover have "splice 60 (le32_bytes (md_bits1 ctx)) (splice 56 (le32_bytes (md_bits0 ctx))
        (splice 0 (zeros 56) blk)) = zeros 56 @ lenb"
    proof -
      have "splice 0 (zeros 56) blk = zeros 56 @ drop 56 blk" by (simp add: splice_def)
      then show ?thesis using last2 [of "zeros 56" "drop 56 blk"] st False by (simp add: blk_def)
    qed
    moreover have "64 - 1 - n < 8" using False st(4) by simp
    ultimately have "fst (iputils_MD5Final ctx) = concat (map le32_bytes
        (md5_compress (md5_compress (md_buf ctx) (block_words blk)) (block_words (zeros 56 @ lenb))))"
      using t by (simp add: iputils_MD5Final_def Let_def md5_block_def md5_fill_def md5_transform_fun)
    moreover have "md5_padded msg = a @ blk @ zeros 56 @ lenb"
    proof -
      have "(119 - n) mod 64 = (63 - n) + 56" using False st(4) by simp
      then have "md5_padded msg = msg @ 0x80 # zeros (63 - n) @ zeros 56 @ lenb"
        by (simp only: pad zeros_def replicate_add append_assoc)
      then show ?thesis unfolding blk_def using a(1) by (metis append_assoc append_Cons)
    qed
    moreover have "length blk = 64" "length (zeros 56 @ lenb) = 64" using st False by (simp_all add: blk_def)
    ultimately show ?thesis by (simp add: md5_def buf md5_blocks_append md5_blocks_one)
  qed
qed

lemma md5_init_state: "length stale = 64 \<Longrightarrow> md5_state (iputils_MD5Init stale) []"
  by (simp add: md5_state_def iputils_MD5Init_def md5_blocks_short md5_rest_def)

text \<open>
  The interface of a digest: what \<open>finish\<close> gives after any sequence of updates is a function of the
  message alone.  \<open>fresh\<close> is what is asked of the memory of the context.
\<close>

locale digest_stream =
  fixes start :: "'s \<Rightarrow> 'c" and absorb :: "'c \<Rightarrow> u8 list \<Rightarrow> 'c" and finish :: "'c \<Rightarrow> u8 list"
    and digest :: "u8 list \<Rightarrow> u8 list" and fresh :: "'s \<Rightarrow> bool" and limit :: nat
  assumes streamed: "fresh s \<Longrightarrow> \<forall>b \<in> set bss. length b < limit \<Longrightarrow> finish (foldl absorb (start s) bss) = digest (concat bss)"
begin

lemma whole: "fresh s \<Longrightarrow> length b < limit \<Longrightarrow> finish (absorb (start s) b) = digest b"
  using streamed [of s "[b]"] by simp

lemma two_parts:
  "fresh s \<Longrightarrow> length a < limit \<Longrightarrow> length b < limit \<Longrightarrow> finish (absorb (absorb (start s) a) b) = digest (a @ b)"
  using streamed [of s "[a, b]"] by simp

lemma pieces_irrelevant:
  "fresh s \<Longrightarrow> fresh s' \<Longrightarrow> \<forall>b \<in> set bss \<union> set css. length b < limit \<Longrightarrow> concat bss = concat css \<Longrightarrow>
   finish (foldl absorb (start s) bss) = finish (foldl absorb (start s') css)"
  by (simp add: streamed)

end

lemma md5_updates_state:
  "md5_state ctx msg \<Longrightarrow> \<forall>b \<in> set bss. length b < 2 ^ 32 \<Longrightarrow> md5_state (foldl iputils_MD5Update ctx bss) (msg @ concat bss)"
  by (induction bss arbitrary: ctx msg) (simp_all add: md5_update_state flip: append_assoc)

interpretation md5: digest_stream iputils_MD5Init iputils_MD5Update "fst \<circ> iputils_MD5Final" md5
    "\<lambda>stale. length stale = 64" "2 ^ 32"
  using md5_updates_state [OF md5_init_state] md5_final_state by unfold_locales fastforce

text \<open>
  C20: the digest of the code is MD5: whatever the context's memory held, and in whatever pieces shorter
  than \<open>2\<^sup>3\<^sup>2\<close> bytes the message is given to \<open>iputils_MD5Update\<close>, \<open>iputils_MD5Final\<close> gives the digest that
  RFC 1321 defines for the whole message: the compression function over the blocks of the padded
  message; and the context is cleared.
\<close>

theorem md5_streamed:
  assumes "length stale = 64" "\<forall>b \<in> set bss. length b < 2 ^ 32"
  shows "iputils_MD5Final (foldl iputils_MD5Update (iputils_MD5Init stale) bss) =
    (md5 (concat bss), \<lparr>md_buf = zeros 4, md_bits0 = 0, md_bits1 = 0, md_in = zeros 64\<rparr>)"
  using md5.streamed [OF assms] by (simp add: prod_eq_iff) (simp add: iputils_MD5Final_def Let_def)

text \<open>The test vectors of the RFC for ``abc'' in two pieces.\<close>

theorem md5_streamed_witness:
  "fst (iputils_MD5Final (iputils_MD5Update (iputils_MD5Update (iputils_MD5Init (zeros 64)) [0x61]) [0x62, 0x63])) =
    [0x90, 0x01, 0x50, 0x98, 0x3c, 0xd2, 0x4f, 0xb0, 0xd6, 0x96, 0x3f, 0x7d, 0x28, 0xe1, 0x7f, 0x72]"
proof -
  have "md5 [0x61, 0x62, 0x63] = [0x90, 0x01, 0x50, 0x98, 0x3c, 0xd2, 0x4f, 0xb0, 0xd6, 0x96, 0x3f, 0x7d, 0x28, 0xe1, 0x7f, 0x72]"
    by code_simp
  then show ?thesis using md5_streamed [of "zeros 64" "[[0x61], [0x62, 0x63]]"] by simp
qed

end
