(* ===== verification/Node_Info.thy ===== *)
theory Node_Info
  imports Md5 Ping_Output
begin

text \<open>
  Node information queries, \<open>ping/node_info.c\<close>: the options of \<open>-N\<close>, and the nonces by which a reply is
  recognised.  The names of an option, the resolver (\<open>getaddrinfo\<close>), the encoding of international
  names (\<open>idn2_lookup_ul\<close>) and of names in DNS messages (\<open>dn_comp\<close>) are parameters; memory
  allocation succeeds.
\<close>

definition IPUTILS_NI_QTYPE_DNSNAME :: int where "IPUTILS_NI_QTYPE_DNSNAME = 2"
definition IPUTILS_NI_QTYPE_IPV6ADDR :: int where "IPUTILS_NI_QTYPE_IPV6ADDR = 3"
definition IPUTILS_NI_QTYPE_IPV4ADDR :: int where "IPUTILS_NI_QTYPE_IPV4ADDR = 4"
definition IPUTILS_NI_ICMP6_SUBJ_IPV6 :: int where "IPUTILS_NI_ICMP6_SUBJ_IPV6 = 0"
definition IPUTILS_NI_ICMP6_SUBJ_FQDN :: int where "IPUTILS_NI_ICMP6_SUBJ_FQDN = 1"
definition NI_NONCE_SIZE :: nat where "NI_NONCE_SIZE = 8"
definition IFNAMSIZ :: nat where "IFNAMSIZ = 16"
abbreviation SCOPE_DELIMITER :: char where "SCOPE_DELIMITER \<equiv> CHR ''%''"

subsection \<open>The options\<close>

datatype ni_handler =
    niquery_option_name_handler
  | niquery_option_ipv6_handler
  | niquery_option_ipv6_flag_handler u16
  | niquery_option_ipv4_handler
  | niquery_option_ipv4_flag_handler u16
  | niquery_option_subject_addr_handler int
  | niquery_option_subject_name_handler int
  | niquery_option_help_handler

text \<open>
  The table; the data of an entry is the argument of its handler.  The flags are constants in
  network order.
\<close>

record niquery_option =
  nio_name :: string
  nio_has_arg :: bool
  nio_handler :: ni_handler

definition ni_option :: "string \<Rightarrow> bool \<Rightarrow> ni_handler \<Rightarrow> niquery_option" where
  "ni_option n a h = \<lparr>nio_name = n, nio_has_arg = a, nio_handler = h\<rparr>"

definition niquery_options :: "niquery_option list" where
  "niquery_options =
    [ni_option ''name'' False niquery_option_name_handler,
     ni_option ''fqdn'' False niquery_option_name_handler,
     ni_option ''ipv6'' False niquery_option_ipv6_handler,
     ni_option ''ipv6-all'' False (niquery_option_ipv6_flag_handler (htons 0x0002)),
     ni_option ''ipv6-compatible'' False (niquery_option_ipv6_flag_handler (htons 0x0004)),
     ni_option ''ipv6-linklocal'' False (niquery_option_ipv6_flag_handler (htons 0x0008)),
     ni_option ''ipv6-sitelocal'' False (niquery_option_ipv6_flag_handler (htons 0x0010)),
     ni_option ''ipv6-global'' False (niquery_option_ipv6_flag_handler (htons 0x0020)),
     ni_option ''ipv4'' False niquery_option_ipv4_handler,
     ni_option ''ipv4-all'' False (niquery_option_ipv4_flag_handler (htons 0x0002)),
     ni_option ''subject-ipv6'' True (niquery_option_subject_addr_handler IPUTILS_NI_ICMP6_SUBJ_IPV6),
     ni_option ''subject-ipv4'' True (niquery_option_subject_addr_handler IPUTILS_NI_ICMP6_SUBJ_IPV4),
     ni_option ''subject-name'' True (niquery_option_subject_name_handler 0),
     ni_option ''subject-fqdn'' True (niquery_option_subject_name_handler (- 1)),
     ni_option ''help'' False niquery_option_help_handler]"

definition niquery_is_enabled :: "ping_ni \<Rightarrow> bool" where
  "niquery_is_enabled nq \<longleftrightarrow> ni_query nq \<ge> 0"

definition niquery_set_qtype :: "ping_ni \<Rightarrow> int \<Rightarrow> (ping_ni \<times> int) result" where
  "niquery_set_qtype nq type =
     (if niquery_is_enabled nq \<and> ni_query nq \<noteq> type
      then print (''Qtype conflict'' @ [CHR 0x0A]) (ret (nq, - 1)) else ret (nq\<lparr>ni_query := type\<rparr>, 0))"

definition niquery_is_subject_valid :: "ping_ni \<Rightarrow> bool" where
  "niquery_is_subject_valid nq \<longleftrightarrow> ni_subject_type nq \<ge> 0 \<and> ni_subject nq \<noteq> None"

definition niquery_set_subject_type :: "ping_ni \<Rightarrow> int \<Rightarrow> (ping_ni \<times> int) result" where
  "niquery_set_subject_type nq type =
     (if niquery_is_subject_valid nq \<and> ni_subject_type nq \<noteq> type
      then print (''Subject type conflict'' @ [CHR 0x0A]) (ret (nq, - 1)) else ret (nq\<lparr>ni_subject_type := type\<rparr>, 0))"

text \<open>A step after one that returned 0; a negative value is returned at once.\<close>

definition if_set :: "(ping_ni \<times> int) result \<Rightarrow> (ping_ni \<Rightarrow> (ping_ni \<times> int) result) \<Rightarrow> (ping_ni \<times> int) result" where
  "if_set m f = and_then m (\<lambda>(nq, r). if r < 0 then ret (nq, - 1) else f nq)"

text \<open>
  The library: \<open>ni_getaddrinfo\<close> for IPv6 (\<open>True\<close>) or IPv4 gives an error text or the addresses found,
  \<open>ni_idn2\<close> an error text or the encoded name, \<open>ni_dn_comp\<close> the name in wire format, if it is one.
\<close>

record ni_library =
  ni_getaddrinfo :: "bool \<Rightarrow> string \<Rightarrow> string + u8 list list"
  ni_idn2 :: "string \<Rightarrow> string + string"
  ni_dn_comp :: "string \<Rightarrow> u8 list option"

definition subject_addr_handler :: "ni_library \<Rightarrow> ping_ni \<Rightarrow> int \<Rightarrow> string \<Rightarrow> (ping_ni \<times> int) result" where
  "subject_addr_handler lib nq type arg =
     if_set (niquery_set_subject_type nq type) (\<lambda>nq.
       let v6 = (type = IPUTILS_NI_ICMP6_SUBJ_IPV6);
           nq = nq\<lparr>ni_subject_type := type, ni_subject_len := if v6 then 16 else 4\<rparr>
       in case ni_getaddrinfo lib v6 arg of
            Inl msg \<Rightarrow> emit [Diag 0 (arg @ '': '' @ msg)] (ret (nq, - 1))
          | Inr [] \<Rightarrow> ret (nq, 0)
          | Inr (a # as) \<Rightarrow> ret (nq\<lparr>ni_subject := Some (take (ni_subject_len nq) a)\<rparr>, 0))"

definition to_lower :: "char \<Rightarrow> char" where
  "to_lower c = (if 65 \<le> (of_char c :: nat) \<and> (of_char c :: nat) \<le> 90 then char_of ((of_char c :: nat) + 32) else c)"

text \<open>
  The group of a name: the digest of as many bytes of its wire format as its first byte says.  A
  first byte greater than 127 would be a negative \<open>char\<close>.
\<close>

definition ni_group_of :: "u8 list \<Rightarrow> u8 list \<Rightarrow> string option \<Rightarrow> string result" where
  "ni_group_of stale wire scope =
     (if wire = [] \<or> 127 < unat (wire ! 0) \<or> length wire < unat (wire ! 0) then stop_with Undefined
      else let digest = fst (iputils_MD5Final
                 (iputils_MD5Update (iputils_MD5Init stale) (take (unat (wire ! 0)) wire)))
           in ret (''ff02::2:'' @ fmt_0x 2 (unat (digest ! 0)) @ fmt_0x 2 (unat (digest ! 1)) @ '':'' @
                fmt_0x 2 (unat (digest ! 2)) @ fmt_0x 2 (unat (digest ! 3)) @
                (case scope of Some s \<Rightarrow> ''%'' @ s | None \<Rightarrow> [])))"

definition subject_name_handler ::
    "ni_library \<Rightarrow> u8 list \<Rightarrow> ping_ni \<Rightarrow> int \<Rightarrow> string \<Rightarrow> (ping_ni \<times> int) result" where
  "subject_name_handler lib stale nq fqdn name =
     if_set (niquery_set_subject_type nq IPUTILS_NI_ICMP6_SUBJ_FQDN) (\<lambda>nq.
       case ni_idn2 lib name of
         Inl msg \<Rightarrow> error_c 2 0 (''IDN encoding error: '' @ msg) (stop_with Abort)
       | Inr idn \<Rightarrow>
           let scope = (if SCOPE_DELIMITER \<in> set idn then Some (tl (dropWhile (\<lambda>c. c \<noteq> SCOPE_DELIMITER) idn)) else None);
               idn = takeWhile (\<lambda>c. c \<noteq> SCOPE_DELIMITER) idn
           in if (case scope of Some s \<Rightarrow> length s \<ge> IFNAMSIZ | None \<Rightarrow> False)
              then error_c 2 0 ''too long scope name'' (stop_with Abort)
              else let canonname = map to_lower idn;
                       fqdn = (if fqdn = 0 then (if CHR ''.'' \<in> set idn then 1 else - 1) else fqdn)
                   in case ni_dn_comp lib canonname of
                        None \<Rightarrow> emit [Diag 0 (''inappropriate subject name: '' @ canonname)] (stop_with (Exit 2))
                      | Some wire \<Rightarrow>
                          if length wire \<ge> length idn + 3 + 1
                          then emit [Diag 0 ''dn_comp() returned too long result''] (stop_with (Exit 2))
                          else and_then (ni_group_of stale wire scope) (\<lambda>group.
                            let subject = wire @ (if fqdn < 0 then [0] else [])
                            in ret (nq\<lparr>ni_group := Some group, ni_subject := Some subject,
                                 ni_subject_len := length subject\<rparr>, 0)))"

definition ni_help :: string where
  "ni_help = ''ping -6 -N <nodeinfo opt>'' @ [CHR 0x0A] @ concat (map (\<lambda>l. l @ [CHR 0x0A])
     [''Help:'', ''  help'', ''Query:'', ''  name'', ''  ipv6'', ''  ipv6-all'', ''  ipv6-compatible'',
      ''  ipv6-global'', ''  ipv6-linklocal'', ''  ipv6-sitelocal'', ''  ipv4'', ''  ipv4-all'', ''Subject:'',
      ''  subject-ipv6=addr'', ''  subject-ipv4=addr'', ''  subject-name=name'', ''  subject-fqdn=name''])"

definition help_handler :: "bool \<Rightarrow> (ping_ni \<times> int) result" where
  "help_handler asked =
     emit [if asked then Out ni_help else Err ni_help] (stop_with (Exit (if asked then 0 else 2)))"

definition ni_handle :: "ni_library \<Rightarrow> u8 list \<Rightarrow> ping_ni \<Rightarrow> ni_handler \<Rightarrow> string \<Rightarrow> (ping_ni \<times> int) result" where
  "ni_handle lib stale nq h arg =
     (case h of
        niquery_option_name_handler \<Rightarrow>
          if_set (niquery_set_qtype nq IPUTILS_NI_QTYPE_DNSNAME) (\<lambda>nq. ret (nq, 0))
      | niquery_option_ipv6_handler \<Rightarrow>
          if_set (niquery_set_qtype nq IPUTILS_NI_QTYPE_IPV6ADDR) (\<lambda>nq. ret (nq, 0))
      | niquery_option_ipv6_flag_handler d \<Rightarrow>
          if_set (niquery_set_qtype nq IPUTILS_NI_QTYPE_IPV6ADDR) (\<lambda>nq. ret (nq\<lparr>ni_flag := ni_flag nq OR d\<rparr>, 0))
      | niquery_option_ipv4_handler \<Rightarrow>
          if_set (niquery_set_qtype nq IPUTILS_NI_QTYPE_IPV4ADDR) (\<lambda>nq. ret (nq, 0))
      | niquery_option_ipv4_flag_handler d \<Rightarrow>
          if_set (niquery_set_qtype nq IPUTILS_NI_QTYPE_IPV4ADDR) (\<lambda>nq. ret (nq\<lparr>ni_flag := ni_flag nq OR d\<rparr>, 0))
      | niquery_option_subject_addr_handler d \<Rightarrow> subject_addr_handler lib nq d arg
      | niquery_option_subject_name_handler d \<Rightarrow> subject_name_handler lib stale nq d arg
      | niquery_option_help_handler \<Rightarrow> help_handler True)"

definition ni_matches :: "niquery_option \<Rightarrow> string \<Rightarrow> bool" where
  "ni_matches p opt_arg \<longleftrightarrow>
     (let n = length (nio_name p)
      in take n opt_arg = nio_name p \<and>
         (if nio_has_arg p then n < length opt_arg \<and> opt_arg ! n = CHR ''='' else length opt_arg = n))"

fun option_scan ::
    "ni_library \<Rightarrow> u8 list \<Rightarrow> niquery_option list \<Rightarrow> ping_ni \<Rightarrow> string \<Rightarrow> (ping_ni \<times> int) result" where
  "option_scan lib stale [] nq opt_arg = help_handler False"
| "option_scan lib stale (p # ps) nq opt_arg =
     (if ni_matches p opt_arg
      then and_then (ni_handle lib stale nq (nio_handler p) (drop (length (nio_name p) + 1) opt_arg)) (\<lambda>(nq, r).
             if r \<ge> 0 then ret (nq, r) else option_scan lib stale ps nq opt_arg)
      else option_scan lib stale ps nq opt_arg)"

definition niquery_option_handler :: "ni_library \<Rightarrow> u8 list \<Rightarrow> ping_ni \<Rightarrow> string \<Rightarrow> (ping_ni \<times> int) result" where
  "niquery_option_handler lib stale nq opt_arg = option_scan lib stale niquery_options nq opt_arg"

subsection \<open>Nonces\<close>

text \<open>The secret: the time and the process id, in a structure of 24 bytes.\<close>

definition niquery_init_nonce :: "timeval \<Rightarrow> u32 \<Rightarrow> ping_ni \<Rightarrow> ping_ni" where
  "niquery_init_nonce now pid nq =
     nq\<lparr>ni_secret := le64_bytes (word_of_int (tv_sec now)) @ le64_bytes (word_of_int (tv_usec now)) @
          le32_bytes pid @ drop 20 (ni_secret nq)\<rparr>"

text \<open>The static variables of \<open>niquery_nonce\<close>.\<close>

record nonce_cache =
  nc_digest :: "u8 list"
  nc_seq :: int

definition initial_nonce_cache :: nonce_cache where
  "initial_nonce_cache = \<lparr>nc_digest = zeros IPUTILS_MD5LENGTH, nc_seq = - 1\<rparr>"

definition niquery_nonce ::
    "u8 list \<Rightarrow> ping_ni \<Rightarrow> nonce_cache \<Rightarrow> u8 list \<Rightarrow> bool \<Rightarrow> nonce_cache \<times> u8 list \<times> int" where
  "niquery_nonce stale nq c nonce fill =
     (let key = uint (le16 (nonce ! 0) (nonce ! 1));
          c = (if fill \<or> nc_seq c \<noteq> key \<or> nc_seq c = - 1
               then \<lparr>nc_digest = fst (iputils_MD5Final (iputils_MD5Update
                        (iputils_MD5Update (iputils_MD5Init stale) (ni_secret nq)) (take 2 nonce))), nc_seq = key\<rparr>
               else c)
      in if fill then (c, splice 2 (take (NI_NONCE_SIZE - 2) (nc_digest c)) nonce, 0)
         else if take (NI_NONCE_SIZE - 2) (drop 2 nonce) \<noteq> take (NI_NONCE_SIZE - 2) (nc_digest c) then (c, nonce, - 1)
         else (c, nonce, uint (be16 (nonce ! 0) (nonce ! 1))))"

definition niquery_fill_nonce ::
    "u8 list \<Rightarrow> ping_ni \<Rightarrow> nonce_cache \<Rightarrow> u16 \<Rightarrow> u8 list \<Rightarrow> nonce_cache \<times> u8 list" where
  "niquery_fill_nonce stale nq c seq nonce =
     (case niquery_nonce stale nq c (splice 0 (be16_bytes seq) nonce) True of (c, nonce, r) \<Rightarrow> (c, nonce))"

definition niquery_check_nonce :: "u8 list \<Rightarrow> ping_ni \<Rightarrow> nonce_cache \<Rightarrow> u8 list \<Rightarrow> nonce_cache \<times> int" where
  "niquery_check_nonce stale nq c nonce =
     (case niquery_nonce stale nq c nonce False of (c, nonce, r) \<Rightarrow> (c, r))"

subsection \<open>What the option names select\<close>

text \<open>The name in an argument: the part before the first equals sign.\<close>

definition option_key :: "string \<Rightarrow> string" where
  "option_key opt_arg = takeWhile (\<lambda>c. c \<noteq> CHR ''='') opt_arg"

definition has_value :: "string \<Rightarrow> bool" where
  "has_value opt_arg \<longleftrightarrow> CHR ''='' \<in> set opt_arg"

lemma takeWhile_before: "x \<notin> set a \<Longrightarrow> takeWhile (\<lambda>c. c \<noteq> x) (a @ x # b) = a"
  by (induction a) auto

lemma ni_matches_iff:
  assumes "CHR ''='' \<notin> set (nio_name p)"
  shows "ni_matches p opt_arg \<longleftrightarrow> option_key opt_arg = nio_name p \<and> has_value opt_arg = nio_has_arg p"
proof (cases "has_value opt_arg")
  case True
  then obtain a b where ab: "opt_arg = a @ CHR ''='' # b" "CHR ''='' \<notin> set a"
    unfolding has_value_def by (meson split_list_first)
  then have key: "option_key opt_arg = a" by (simp add: option_key_def takeWhile_before)
  show ?thesis
  proof
    assume m: "ni_matches p opt_arg"
    then have p: "take (length (nio_name p)) opt_arg = nio_name p" by (simp add: ni_matches_def Let_def)
    have "\<not> length a < length (nio_name p)"
    proof
      assume "length a < length (nio_name p)"
      then have "CHR ''='' \<in> set (take (length (nio_name p)) opt_arg)" by (simp add: ab(1) take_Cons')
      then show False using p assms by simp
    qed
    moreover have "nio_has_arg p"
      using m True p assms unfolding has_value_def ni_matches_def Let_def by (metis order_refl take_all)
    moreover have "\<not> length (nio_name p) < length a"
      using m calculation(2) ab by (auto simp: ni_matches_def Let_def nth_append) (metis nth_mem)
    ultimately show "option_key opt_arg = nio_name p \<and> has_value opt_arg = nio_has_arg p"
      using p ab(1) key True by simp
  qed (use ab key True in \<open>simp add: ni_matches_def\<close>)
next
  case False
  then have key: "option_key opt_arg = opt_arg"
    by (auto simp: option_key_def has_value_def takeWhile_eq_all_conv)
  show ?thesis
  proof (cases "nio_has_arg p")
    case True
    then have "\<not> ni_matches p opt_arg" using False by (auto simp: ni_matches_def has_value_def Let_def in_set_conv_nth)
    then show ?thesis using True False by simp
  next
    case no_arg: False
    then show ?thesis using False key by (auto simp: ni_matches_def Let_def)
  qed
qed

lemma niquery_options_names:
  "distinct (map nio_name niquery_options)" "\<forall>p \<in> set niquery_options. CHR ''='' \<notin> set (nio_name p)"
  by (simp_all add: niquery_options_def ni_option_def)

definition option_run :: "ni_library \<Rightarrow> u8 list \<Rightarrow> niquery_option \<Rightarrow> ping_ni \<Rightarrow> string \<Rightarrow> (ping_ni \<times> int) result" where
  "option_run lib stale p nq opt_arg =
     and_then (ni_handle lib stale nq (nio_handler p) (drop (length (nio_name p) + 1) opt_arg)) (\<lambda>(nq, r).
       if r \<ge> 0 then ret (nq, r) else help_handler False)"

lemma option_scan_lookup:
  assumes "distinct (map nio_name ps)" "\<forall>p \<in> set ps. CHR ''='' \<notin> set (nio_name p)"
  shows "option_scan lib stale ps nq opt_arg =
    (case find (\<lambda>p. nio_name p = option_key opt_arg \<and> nio_has_arg p = has_value opt_arg) ps of
       None \<Rightarrow> help_handler False | Some p \<Rightarrow> option_run lib stale p nq opt_arg)"
  using assms
proof (induction ps arbitrary: nq)
  case (Cons p ps)
  have m: "ni_matches p opt_arg \<longleftrightarrow> nio_name p = option_key opt_arg \<and> nio_has_arg p = has_value opt_arg"
    using Cons.prems ni_matches_iff [of p opt_arg] by auto
  have "option_scan lib stale ps nq' opt_arg = help_handler False" if "nio_name p = option_key opt_arg" for nq'
  proof -
    have "find (\<lambda>p. nio_name p = option_key opt_arg \<and> nio_has_arg p = has_value opt_arg) ps = None"
      using Cons.prems(1) that by (auto simp: find_None_iff image_iff)
    then show ?thesis using Cons.IH [of nq'] Cons.prems by simp
  qed
  then show ?case using m Cons.IH [of nq] Cons.prems by (auto simp: option_run_def case_prod_unfold cong: if_cong)
qed simp

text \<open>
  An argument of \<open>-N\<close> is handled by the entry of the table that has exactly its name and takes
  a value just if one is given, whatever the order of the table and though names are prefixes of
  others; there is at most one such entry.  The option is then taken with the value 0 or more, or
  the program prints its help and exits with 2: no caller ever sees a negative value.
\<close>

theorem niquery_option_selects:
  "niquery_option_handler lib stale nq opt_arg =
     (case find (\<lambda>p. nio_name p = option_key opt_arg \<and> nio_has_arg p = has_value opt_arg) niquery_options of
        None \<Rightarrow> help_handler False | Some p \<Rightarrow> option_run lib stale p nq opt_arg) \<and>
   yields (niquery_option_handler lib stale nq opt_arg) (\<lambda>(nq', r). 0 \<le> r)"
proof -
  have stops: "yields (help_handler b) P" for b P by (simp add: help_handler_def)
  have "yields (option_run lib stale p nq opt_arg) (\<lambda>(nq', r). 0 \<le> r)" for p
    unfolding option_run_def by (rule yields_and_then [where Q = "\<lambda>_. True"]) (auto simp: stops yields_def [of _ "\<lambda>_. True"])
  then show ?thesis
    using option_scan_lookup [OF niquery_options_names] by (simp add: niquery_option_handler_def stops split: option.split)
qed

subsection \<open>The cache of the nonces cannot be seen\<close>

text \<open>The nonce of a sequence number: its bytes and six bytes of the digest over the secret and them.\<close>

definition nonce_of :: "ping_ni \<Rightarrow> u16 \<Rightarrow> u8 list" where
  "nonce_of nq seq = be16_bytes seq @ take 6 (md5 (ni_secret nq @ be16_bytes seq))"

text \<open>The cached digest is that of the cached number.\<close>

definition nonce_inv :: "ping_ni \<Rightarrow> nonce_cache \<Rightarrow> bool" where
  "nonce_inv nq c \<longleftrightarrow> nc_seq c = - 1 \<or>
     (\<exists>a b. nc_seq c = uint (le16 a b) \<and> nc_digest c = md5 (ni_secret nq @ [a, b]))"

datatype nonce_op = Fill_Nonce u16 "u8 list" | Check_Nonce "u8 list"

fun nonce_step :: "u8 list \<Rightarrow> ping_ni \<Rightarrow> nonce_cache \<Rightarrow> nonce_op \<Rightarrow> nonce_cache" where
  "nonce_step stale nq c (Fill_Nonce seq nonce) = fst (niquery_fill_nonce stale nq c seq nonce)"
| "nonce_step stale nq c (Check_Nonce nonce) = fst (niquery_check_nonce stale nq c nonce)"

fun nonce_op_ok :: "nonce_op \<Rightarrow> bool" where
  "nonce_op_ok (Fill_Nonce seq nonce) \<longleftrightarrow> length nonce = NI_NONCE_SIZE"
| "nonce_op_ok (Check_Nonce nonce) \<longleftrightarrow> length nonce = NI_NONCE_SIZE"

lemma le16_inject: "uint (le16 a b) = uint (le16 c d) \<longleftrightarrow> a = c \<and> b = d"
proof -
  have "uint (le16 a b) mod 256 = uint a \<and> uint (le16 a b) div 256 = uint b" for a b
    using u8_bounds [of a] by (simp add: uint_le16)
  then show ?thesis by (metis word_uint_eq_iff)
qed

lemma nonce_digest:
  assumes "length stale = 64" "length (ni_secret nq) = 24"
  shows "fst (iputils_MD5Final (iputils_MD5Update (iputils_MD5Update (iputils_MD5Init stale) (ni_secret nq)) [a, b])) =
    md5 (ni_secret nq @ [a, b])"
  using md5.two_parts [of stale "ni_secret nq" "[a, b]"] assms by simp

lemma be16_bytes_be16: "be16_bytes (be16 a b) = [a, b]"
proof -
  have "ucast (be16 a b) = b"
    unfolding be16_def by (rule bit_word_eqI) (auto simp: bit_simps)
  moreover have "ucast (drop_bit 8 (be16 a b)) = a"
    unfolding be16_def by (rule bit_word_eqI) (auto simp: bit_simps dest: bit_imp_le_length)
  ultimately show ?thesis by (simp add: be16_bytes_def)
qed

lemma md5_blocks_length: "(\<And>b w. length (f b w) = 4) \<Longrightarrow> length b = 4 \<Longrightarrow> length (md5_blocks f b bs) = 4"
  by (induction f b bs rule: md5_blocks.induct) (subst md5_blocks.simps, simp)

lemma length_md5: "length (md5 msg) = 16"
proof -
  have "length (concat (map le32_bytes ws)) = 4 * length ws" for ws by (induction ws) simp_all
  moreover have "length (md5_compress b w) = 4" for b w by (simp add: md5_compress_def split: prod.split)
  ultimately show ?thesis by (simp add: md5_def md5_blocks_length)
qed

lemma nonce_inv_initial: "nonce_inv nq initial_nonce_cache"
  by (simp add: nonce_inv_def initial_nonce_cache_def)

lemma take_2: "length xs = 8 \<Longrightarrow> take 2 xs = [xs ! 0, xs ! 1]"
  by (cases xs; cases "tl xs") auto

lemma niquery_nonce_eq:
  assumes "length stale = 64" "length (ni_secret nq) = 24" "nonce_inv nq c" "length nonce = NI_NONCE_SIZE"
  defines "d \<equiv> md5 (ni_secret nq @ take 2 nonce)"
  shows "niquery_nonce stale nq c nonce fill =
     (\<lparr>nc_digest = d, nc_seq = uint (le16 (nonce ! 0) (nonce ! 1))\<rparr>,
      if fill then take 2 nonce @ take 6 d else nonce,
      if fill then 0 else if drop 2 nonce = take 6 d then uint (be16 (nonce ! 0) (nonce ! 1)) else - 1)"
proof -
  have two: "take 2 nonce = [nonce ! 0, nonce ! 1]" using assms(4) by (simp add: take_2 NI_NONCE_SIZE_def)
  have d: "d = md5 (ni_secret nq @ [nonce ! 0, nonce ! 1])" by (simp add: d_def two)
  have "nc_digest c = d" if "nc_seq c = uint (le16 (nonce ! 0) (nonce ! 1))" "nc_seq c \<noteq> - 1"
    using assms(3) that le16_inject by (auto simp: nonce_inv_def d)
  then have upd: "(if fill \<or> nc_seq c \<noteq> uint (le16 (nonce ! 0) (nonce ! 1)) \<or> nc_seq c = - 1
       then \<lparr>nc_digest = fst (iputils_MD5Final (iputils_MD5Update
                (iputils_MD5Update (iputils_MD5Init stale) (ni_secret nq)) (take 2 nonce))),
              nc_seq = uint (le16 (nonce ! 0) (nonce ! 1))\<rparr>
       else c) = \<lparr>nc_digest = d, nc_seq = uint (le16 (nonce ! 0) (nonce ! 1))\<rparr>"
    using nonce_digest [OF assms(1,2)] by (auto simp: two d)
  have "length d = 16" by (simp add: d length_md5)
  then show ?thesis
    unfolding niquery_nonce_def Let_def upd
    using assms(4) by (simp add: NI_NONCE_SIZE_def splice_def min_absorb1)
qed

lemma nonce_inv_step: "nonce_inv nq \<lparr>nc_digest = md5 (ni_secret nq @ [a, b]), nc_seq = uint (le16 a b)\<rparr>"
  by (auto simp: nonce_inv_def)

lemma nonce_run_inv:
  assumes "length stale = 64" "length (ni_secret nq) = 24" "\<forall>op \<in> set ops. nonce_op_ok op" "nonce_inv nq c"
  shows "nonce_inv nq (foldl (nonce_step stale nq) c ops)"
  using assms(3,4)
proof (induction ops arbitrary: c)
  case (Cons op ops)
  have "nonce_inv nq (nonce_step stale nq c op)"
  proof (cases op)
    case (Fill_Nonce seq nonce)
    then have "length (splice 0 (be16_bytes seq) nonce) = NI_NONCE_SIZE"
      using Cons.prems by (simp add: NI_NONCE_SIZE_def be16_bytes_def)
    then show ?thesis
      using Fill_Nonce niquery_nonce_eq [OF assms(1,2) Cons.prems(2), of "splice 0 (be16_bytes seq) nonce"] nonce_inv_step
      by (simp add: niquery_fill_nonce_def take_2 NI_NONCE_SIZE_def)
  next
    case (Check_Nonce nonce)
    then show ?thesis
      using Cons.prems niquery_nonce_eq [OF assms(1,2) Cons.prems(2), of nonce] nonce_inv_step
      by (simp add: niquery_check_nonce_def take_2 NI_NONCE_SIZE_def)
  qed
  then show ?case using Cons by simp
qed simp

text \<open>
  C33: a nonce is recognised exactly if it is ours: after any sequence of fills and checks, whatever
  the cache of the last digest holds, \<open>niquery_fill_nonce\<close> writes the nonce of the number, and
  \<open>niquery_check_nonce\<close> gives the number of a nonce if all its eight bytes are those of that
  number's nonce, and -1 otherwise.  So what was filled in is accepted later, and nothing else is.
\<close>

theorem nonce_recognised:
  assumes "length stale = 64" "length (ni_secret nq) = 24"
    and "\<forall>op \<in> set ops. nonce_op_ok op" "length nonce = NI_NONCE_SIZE"
  defines "c \<equiv> foldl (nonce_step stale nq) initial_nonce_cache ops"
  shows "snd (niquery_fill_nonce stale nq c seq nonce) = nonce_of nq seq \<and>
    snd (niquery_check_nonce stale nq c nonce) =
      (let s = be16 (nonce ! 0) (nonce ! 1) in if nonce = nonce_of nq s then uint s else - 1)"
proof -
  have c: "nonce_inv nq c" unfolding c_def by (rule nonce_run_inv [OF assms(1-3) nonce_inv_initial])
  have len: "length (splice 0 (be16_bytes seq) nonce) = NI_NONCE_SIZE" and two: "take 2 (splice 0 (be16_bytes seq) nonce) = be16_bytes seq"
    using assms(4) by (simp_all add: NI_NONCE_SIZE_def be16_bytes_def splice_def)
  have "take 2 nonce = be16_bytes (be16 (nonce ! 0) (nonce ! 1))"
    using assms(4) be16_bytes_be16 by (simp add: take_2 NI_NONCE_SIZE_def)
  moreover have "nonce = take 2 nonce @ drop 2 nonce" by simp
  ultimately have "nonce = nonce_of nq (be16 (nonce ! 0) (nonce ! 1)) \<longleftrightarrow>
      drop 2 nonce = take 6 (md5 (ni_secret nq @ take 2 nonce))"
    unfolding nonce_of_def by (metis same_append_eq)
  then show ?thesis
    using niquery_nonce_eq [OF assms(1,2) c len, of True] niquery_nonce_eq [OF assms(1,2) c assms(4), of False]
    by (simp add: niquery_fill_nonce_def niquery_check_nonce_def two nonce_of_def Let_def)
qed

definition sample_ni :: ping_ni where
  "sample_ni = niquery_init_nonce \<lparr>tv_sec = 1700000000, tv_usec = 5\<rparr> 4711 initial_ni"

theorem nonce_recognised_witness:
  "snd (niquery_check_nonce (zeros 64) sample_ni
      (foldl (nonce_step (zeros 64) sample_ni) initial_nonce_cache [Fill_Nonce 1 (zeros 8), Check_Nonce (zeros 8)])
      (nonce_of sample_ni 1)) = 1"
proof -
  let ?n = "nonce_of sample_ni 1"
  have first: "be16 (?n ! 0) (?n ! 1) = 1" by (simp add: nonce_of_def be16_bytes_def be16_def)
  have "snd (niquery_check_nonce (zeros 64) sample_ni
      (foldl (nonce_step (zeros 64) sample_ni) initial_nonce_cache [Fill_Nonce 1 (zeros 8), Check_Nonce (zeros 8)]) ?n) =
    (let s = be16 (?n ! 0) (?n ! 1) in if ?n = nonce_of sample_ni s then uint s else - 1)"
    by (rule nonce_recognised [THEN conjunct2])
      (simp_all add: sample_ni_def niquery_init_nonce_def initial_ni_def nonce_of_def be16_bytes_def length_md5 NI_NONCE_SIZE_def)
  then show ?thesis unfolding first Let_def by simp
qed

subsection \<open>The group of a name\<close>

text \<open>
  The multicast group of a name does not depend on the last character of its first label: the
  digest is taken over as many bytes as the label has, beginning with the length byte in front of
  it, so that the label's last byte is left out.  Two names that differ there only, like \<open>ab\<close> and
  \<open>ac\<close>, are given the same group.
\<close>

theorem group_ignores_last_byte:
  assumes "length stale = 64" "length l < 63"
    and "ni_dn_comp lib (map to_lower n1) = Some (word_of_nat (length l + 1) # l @ x # r1)"
    and "ni_dn_comp lib (map to_lower n2) = Some (word_of_nat (length l + 1) # l @ y # r2)"
    and "\<And>s. s \<in> {n1, n2} \<Longrightarrow> ni_idn2 lib s = Inr s \<and> SCOPE_DELIMITER \<notin> set s"
    and "length l + 2 + length r1 < length n1 + 4" "length l + 2 + length r2 < length n2 + 4"
    and "\<not> niquery_is_subject_valid nq"
  shows "\<exists>g q1 q2. returns (subject_name_handler lib stale nq fqdn n1) (q1, 0) \<and> ni_group q1 = Some g \<and>
    returns (subject_name_handler lib stale nq fqdn n2) (q2, 0) \<and> ni_group q2 = Some g"
proof -
  define w where "w = (word_of_nat (length l + 1) :: u8)"
  have len: "unat w = length l + 1" using assms(2) unfolding w_def by (simp add: unsigned_of_nat take_bit_nat_eq_self_iff del: of_nat_add of_nat_Suc)
  define d where "d = fst (iputils_MD5Final (iputils_MD5Update (iputils_MD5Init stale) (w # l)))"
  define t where "t = ''ff02::2:'' @ fmt_0x 2 (unat (d ! 0)) @ fmt_0x 2 (unat (d ! 1)) @ '':'' @
    fmt_0x 2 (unat (d ! 2)) @ fmt_0x 2 (unat (d ! 3))"
  have grp: "ni_group_of stale (w # l @ c # r) None = ret t" for c r
    using len assms(2) by (simp add: ni_group_of_def t_def d_def Let_def del: of_nat_add of_nat_Suc)
  have scope: "takeWhile (\<lambda>c. c \<noteq> SCOPE_DELIMITER) s = s" if "SCOPE_DELIMITER \<notin> set s" for s
    using that by (auto simp: takeWhile_eq_all_conv)
  have "\<exists>q. returns (subject_name_handler lib stale nq fqdn s) (q, 0) \<and> ni_group q = Some t"
    if "ni_dn_comp lib (map to_lower s) = Some (w # l @ c # r)" "s \<in> {n1, n2}"
      "length l + 2 + length r < length s + 4" for s c r
    using that assms(5) [OF that(2)] assms(8)
    by (simp add: scope grp subject_name_handler_def niquery_set_subject_type_def if_set_def Let_def)
  then show ?thesis using assms(3,4,6,7) unfolding w_def [symmetric] by blast
qed

text \<open>A library that encodes names of one label, and knows no addresses.\<close>

definition label_library :: ni_library where
  "label_library = \<lparr>ni_getaddrinfo = (\<lambda>v6 s. Inl ''Name or service not known''), ni_idn2 = Inr,
     ni_dn_comp = (\<lambda>s. Some (word_of_nat (length s) # map (word_of_nat \<circ> of_char) s @ [0]))\<rparr>"

theorem group_ignores_last_byte_witness:
  "\<exists>g q1 q2. returns (subject_name_handler label_library (zeros 64) initial_ni 0 ''ab'') (q1, 0) \<and> ni_group q1 = Some g \<and>
    returns (subject_name_handler label_library (zeros 64) initial_ni 0 ''ac'') (q2, 0) \<and> ni_group q2 = Some g"
  by (rule group_ignores_last_byte [where l = "[0x61]" and x = "0x62" and y = "0x63" and ?r1.0 = "[0]" and ?r2.0 = "[0]"])
    (auto simp: label_library_def to_lower_def niquery_is_subject_valid_def initial_ni_def)

end
