(* ===== verification/Ping_Loop.thy ===== *)
theory Ping_Loop
  imports Ping_Stats Coping_Ai Node_Info Iputils Capabilities
begin

text \<open>
  Sending and receiving, from \<open>ping/ping_common.c\<close>: \<open>pinger\<close> with its token bucket and its
  handling of send errors, \<open>schedule_exit\<close>, \<open>sock_setbufs\<close>, \<open>sock_setmark\<close>, \<open>setup\<close>,
  \<open>main_loop\<close> and \<open>finish\<close>.  The function table \<open>ping_func_set_st\<close> is a record of functions, as in
  the code; the operating system is a record of functions on a state \<open>'w\<close> of the world.
  Signals are delivered at the head of the main loop's rounds.
\<close>


definition SCHINT :: "int \<Rightarrow> int" where
  "SCHINT a = (if a \<le> MIN_INTERVAL_MS then MIN_INTERVAL_MS else a)"

subsection \<open>The process\<close>

text \<open>
  The run-time state; the static variables of \<open>pinger\<close>, of \<open>__schedule_exit\<close>, of \<open>pr_options\<close> (the
  last recorded route), of \<open>_pr_addr\<close> (the last address and its text), of \<open>niquery_nonce\<close> (the last
  digest) and of the socket filters (\<open>once\<close>); \<open>errno\<close>; and the world.
\<close>

record 'w ping_proc =
  p_rts :: ping_rts
  oom_count :: int
  tokens :: int
  waittime :: u64
  old_rr :: "u8 list"
  last_addr :: "(u8 list \<times> string) option"
  nonces :: nonce_cache
  filtered :: bool
  p_errno :: int
  world :: 'w

text \<open>
  A received message: the packet buffer with the number of bytes received in it (bytes behind
  them are left from before), the sender's address, and the control data: time stamps, the
  \<open>ttl\<close> values, and the IP options (the memory from their data on and the \<open>cmsg_len\<close>).
\<close>

record message =
  msg_buf :: "u8 list"
  msg_cc :: int
  msg_name :: "u8 list"
  msg_stamps :: "timeval list"
  msg_ttl :: "int list"
  msg_retopts :: "(u8 list \<times> int) option"

text \<open>
  A message of the error queue: the part of the packet it is about, the address that packet was
  sent to, and the \<open>sock_extended_err\<close> with the address of the offender, if there is one.
\<close>

record error_message =
  em_data :: "u8 list"
  em_target :: "u8 list"
  em_err :: "extended_err option"

text \<open>
  The operating system and the resolver.  A failing call gives its error number, \<open>os_setsockopt\<close> 0
  for success.  \<open>os_sendto6\<close> is given the flags and the control data.  \<open>os_numeric\<close> is \<open>getnameinfo\<close> with \<open>NI_NUMERICHOST\<close>; \<open>os_getname\<close> gives the name, empty
  if there is none, and whether the exit signal interrupted the call (\<open>sigexit\<close> then jumps back
  into \<open>_pr_addr\<close>).
\<close>

record 'w os =
  os_clock :: "'w \<Rightarrow> timespec \<times> 'w"
  os_time :: "'w \<Rightarrow> timeval \<times> 'w"
  os_stamp :: "'w \<Rightarrow> timeval option \<times> 'w"
  os_poll :: "'w \<Rightarrow> int \<Rightarrow> (int \<times> bool \<times> bool) \<times> 'w"
  os_sendto :: "'w \<Rightarrow> u8 list \<Rightarrow> (int \<times> int) \<times> 'w"
  os_sendto6 :: "'w \<Rightarrow> u8 list \<Rightarrow> int \<Rightarrow> u8 list \<Rightarrow> (int \<times> int) \<times> 'w"
  os_recvmsg :: "'w \<Rightarrow> bool \<Rightarrow> (int + message) \<times> 'w"
  os_recverr :: "'w \<Rightarrow> (int + error_message) \<times> 'w"
  os_setsockopt :: "'w \<Rightarrow> string \<Rightarrow> int list \<Rightarrow> int \<times> 'w"
  os_numeric :: "u8 list \<Rightarrow> string"
  os_getname :: "'w \<Rightarrow> u8 list \<Rightarrow> (string \<times> bool) \<times> 'w"
  os_signals :: "'w \<Rightarrow> (bool \<times> bool) \<times> 'w"
  os_hz :: int

record 'w ping_func_set_st =
  send_probe :: "'w ping_proc \<Rightarrow> ('w ping_proc \<times> int) result"
  receive_error_msg :: "'w ping_proc \<Rightarrow> ('w ping_proc \<times> int) result"
  parse_reply :: "'w ping_proc \<Rightarrow> message \<Rightarrow> timeval \<Rightarrow> ('w ping_proc \<times> bool) result"
  install_filter :: "'w ping_proc \<Rightarrow> 'w ping_proc result"

text \<open>A function on the run-time state, as a step of the process.\<close>

definition on_rts :: "(ping_rts \<Rightarrow> ping_rts result) \<Rightarrow> 'w ping_proc \<Rightarrow> 'w ping_proc result" where
  "on_rts f p = and_then (f (p_rts p)) (\<lambda>rts. ret (p\<lparr>p_rts := rts\<rparr>))"

definition set_rts :: "(ping_rts \<Rightarrow> ping_rts) \<Rightarrow> 'w ping_proc \<Rightarrow> 'w ping_proc" where
  "set_rts f p = p\<lparr>p_rts := f (p_rts p)\<rparr>"

text \<open>
  \<open>gettimeofday\<close>, and \<open>print_timestamp\<close> with the time read when it is printed.
\<close>

abbreviation no_time :: timeval where "no_time \<equiv> \<lparr>tv_sec = 0, tv_usec = 0\<rparr>"

definition time_if :: "'w os \<Rightarrow> bool \<Rightarrow> 'w ping_proc \<Rightarrow> timeval \<times> 'w ping_proc" where
  "time_if os b p =
     (if b then case os_time os (world p) of (t, w) \<Rightarrow> (t, p\<lparr>world := w\<rparr>) else (no_time, p))"

definition print_timestamp_now :: "'w os \<Rightarrow> 'w ping_proc \<Rightarrow> 'w ping_proc result" where
  "print_timestamp_now os p =
     (case time_if os (opt_ptimeofday (opts (p_rts p))) p of (now, p) \<Rightarrow> on_rts (print_timestamp now) p)"

subsection \<open>\<open>pinger\<close>\<close>

definition pinger_done :: "ping_rts \<Rightarrow> bool" where
  "pinger_done rts \<longleftrightarrow>
     exiting rts \<or> (npackets rts \<noteq> 0 \<and> ntransmitted rts \<ge> npackets rts \<and> deadline rts = 0)"

text \<open>
  The check that packets are fewer than rate times time plus preload: the time to wait, if it
  is too early to send.
\<close>

definition elapsed_ms :: "timespec \<Rightarrow> timespec \<Rightarrow> int" where
  "elapsed_ms now before = (ts_sec now - ts_sec before) * 1000 + (ts_nsec now - ts_nsec before) sdiv 1000000"

definition pinger_rate :: "'w os \<Rightarrow> 'w ping_proc \<Rightarrow> 'w ping_proc \<times> int option" where
  "pinger_rate os p =
     (let rts = p_rts p; (tv, w) = os_clock os (world p); p = p\<lparr>world := w\<rparr>
      in if ts_sec (cur_time rts) = 0 \<and> ts_nsec (cur_time rts) = 0
         then (p\<lparr>p_rts := rts\<lparr>cur_time := tv\<rparr>, tokens := interval rts * (preload rts - 1)\<rparr>, None)
         else let ntokens = elapsed_ms tv (cur_time rts)
              in if interval rts = 0 \<and> ntokens < MIN_INTERVAL_MS \<and> in_flight rts \<ge> preload rts
                 then (p, Some (MIN_INTERVAL_MS - ntokens))
                 else let ntokens = min (interval rts * preload rts) (ntokens + tokens p)
                      in if ntokens < interval rts then (p, Some (interval rts - ntokens))
                         else (p\<lparr>p_rts := rts\<lparr>cur_time := tv\<rparr>, tokens := ntokens - interval rts\<rparr>, None))"

definition report_outstanding :: "'w os \<Rightarrow> 'w ping_proc \<Rightarrow> 'w ping_proc result" where
  "report_outstanding os p =
     (let rts = p_rts p
      in if opt_outstanding (opts rts) \<and> ntransmitted rts > 0 \<and> rcvd_test rts (to_u16 (ntransmitted rts)) = 0
         then and_then (print_timestamp_now os p)
                (print (''no answer yet for icmp_seq='' @ fmt_d (ntransmitted rts mod int MAX_DUP_CHK) @ newline) \<circ> ret)
         else ret p)"

definition pinger_sent :: "'w ping_proc \<Rightarrow> ('w ping_proc \<times> int) result" where
  "pinger_sent p =
     (let rts = advance_ntransmitted (p_rts p); p = p\<lparr>p_rts := rts, oom_count := 0\<rparr>
      in emit (if \<not> opt_quiet (opts rts) \<and> opt_flood (opts rts) \<and>
                  ((preload rts < screen_width rts \<and> pipesize rts < screen_width rts) \<or>
                   in_flight rts < screen_width rts)
               then [Out ''.''] else [])
           (ret (p, interval rts - tokens p)))"

definition hard_local_error :: "(int \<Rightarrow> string) \<Rightarrow> 'w ping_proc \<Rightarrow> int \<Rightarrow> ('w ping_proc \<times> int) result" where
  "hard_local_error strerror p i =
     (let p = set_rts advance_ntransmitted p; rts = p_rts p
      in and_then (if i = 0 \<and> \<not> opt_quiet (opts rts)
                   then if opt_flood (opts rts) then print ''E'' (ret p)
                        else on_rts (\<lambda>rts. ping_error strerror rts 0 (p_errno p) ''sendmsg'') p
                   else ret p)
           (\<lambda>p. ret (p\<lparr>tokens := 0\<rparr>, SCHINT (interval (p_rts p)))))"

text \<open>Device queue overflow or no memory: slow down, and give up after the linger time.\<close>

definition pinger_nobufs :: "(int \<Rightarrow> string) \<Rightarrow> 'w ping_proc \<Rightarrow> ('w ping_proc \<times> int) result" where
  "pinger_nobufs strerror p =
     (let rts = p_rts p;
          addend = (if uint (rtt rts) < 8 * 50000 then uint (rtt rts) div 8 else 50000);
          rts = rts\<lparr>rtt_addend := rtt_addend rts + addend\<rparr>;
          rts = (if opt_adaptive (opts rts) then update_interval rts else rts);
          nores = min 500 (SCHINT (interval rts sdiv 2));
          p = p\<lparr>p_rts := rts, tokens := 0, oom_count := oom_count p + 1\<rparr>
      in if (word_of_int (oom_count p * nores) :: u32) < lingertime rts div 1000 then ret (p, nores)
         else hard_local_error strerror p 0)"

fun pinger_send :: "(int \<Rightarrow> string) \<Rightarrow> 'w ping_func_set_st \<Rightarrow> nat \<Rightarrow> 'w ping_proc \<Rightarrow> ('w ping_proc \<times> int) result" where
  "pinger_send strerror fset 0 p = stop_with Out_Of_Fuel"
| "pinger_send strerror fset (Suc fuel) p =
     and_then (send_probe fset p) (\<lambda>(p, i).
       if i = 0 then pinger_sent p
       else if i > 0 then stop_with Abort
       else if p_errno p = ENOBUFS \<or> p_errno p = ENOMEM then pinger_nobufs strerror p
       else if p_errno p = EAGAIN then ret (p\<lparr>tokens := tokens p + interval (p_rts p)\<rparr>, MIN_INTERVAL_MS)
       else if p_errno p = EMSGSIZE
       then hard_local_error strerror (set_rts (\<lambda>rts. rts\<lparr>nerrors := nerrors rts + 1\<rparr>) p) 0
       else and_then (receive_error_msg fset p) (\<lambda>(p, i).
         if i > 0 then hard_local_error strerror p 0
         else let p = (if i = 0 \<and> confirm_flag (p_rts p) \<noteq> 0 \<and> p_errno p = EINVAL
                       then (set_rts (\<lambda>rts. rts\<lparr>confirm_flag := 0\<rparr>) p)\<lparr>p_errno := 0\<rparr> else p)
              in if p_errno p = 0 then pinger_send strerror fset fuel p else hard_local_error strerror p i))"

definition pinger ::
    "(int \<Rightarrow> string) \<Rightarrow> 'w os \<Rightarrow> 'w ping_func_set_st \<Rightarrow> nat \<Rightarrow> 'w ping_proc \<Rightarrow> ('w ping_proc \<times> int) result" where
  "pinger strerror os fset fuel p =
     (if pinger_done (p_rts p) then ret (p, 1000)
      else case pinger_rate os p of
             (p, Some wait) \<Rightarrow> ret (p, wait)
           | (p, None) \<Rightarrow> and_then (report_outstanding os p) (pinger_send strerror fset fuel))"

subsection \<open>\<open>schedule_exit\<close>\<close>

text \<open>
  After the last packet the alarm is set once.  \<open>2 * tmax\<close> is computed in \<open>long\<close>, and
  \<open>1000 * interval\<close> in \<open>int\<close> when it is stored.
\<close>

definition arm_exit_timer :: "'w ping_proc \<Rightarrow> int \<Rightarrow> ('w ping_proc \<times> int) result" where
  "arm_exit_timer p next =
     (if waittime p \<noteq> 0 then ret (p, next)
      else let rts = p_rts p;
               lower = 1000 * (word_of_int (interval rts) :: u64);
               use_interval = nreceived rts \<noteq> 0 \<and> 2 * word_of_int (tmax rts) < lower
           in if nreceived rts \<noteq> 0 \<and> 2 * tmax rts > long_max \<or> use_interval \<and> 1000 * interval rts > int_max
              then stop_with Undefined
              else let wt = (if nreceived rts = 0 then ucast (lingertime rts)
                             else if use_interval then word_of_int (1000 * interval rts)
                             else 2 * word_of_int (tmax rts))
                   in emit [Sys ''setitimer'' [uint (wt div 1000000), uint (wt mod 1000000)]]
                        (ret (p\<lparr>waittime := wt\<rparr>,
                              if next < 0 \<or> (word_of_int next :: u64) < wt div 1000
                              then to_int32 (uint (wt div 1000)) else next)))"

definition schedule_exit :: "'w ping_proc \<Rightarrow> int \<Rightarrow> ('w ping_proc \<times> int) result" where
  "schedule_exit p next =
     (let rts = p_rts p
      in if npackets rts \<noteq> 0 \<and> ntransmitted rts \<ge> npackets rts \<and> deadline rts = 0
         then arm_exit_timer p next else ret (p, next))"

subsection \<open>Socket buffers, marks and \<open>setup\<close>\<close>

text \<open>
  \<open>sock_setbufs\<close>: \<open>rcvbuf\<close> is what \<open>getsockopt\<close> reports afterwards, if it succeeds.
\<close>

definition sock_setbufs :: "(int \<Rightarrow> string) \<Rightarrow> int option \<Rightarrow> ping_rts \<Rightarrow> int \<Rightarrow> ping_rts result" where
  "sock_setbufs strerror rcvbuf_set rts alloc =
     (let rts = (if sndbuf rts = 0 then rts\<lparr>sndbuf := alloc\<rparr> else rts);
          overflow = alloc > int_max sdiv preload rts;
          hold = (if overflow then int_max else alloc * preload rts);
          request = (if hold < 65536 then 65536 else hold)
      in emit ([Sys ''SO_SNDBUF'' [sndbuf rts]] @
               (if overflow then [Diag 0 ''WARNING: buffer size overflow, reduce packet size or preload''] else []) @
               [Sys ''SO_RCVBUF'' [request]])
           (case rcvbuf_set of
              Some got \<Rightarrow> if got < hold
                then ping_error strerror rts 0 0 ''WARNING: probably, rcvbuf is not enough to hold preload'' else ret rts
            | None \<Rightarrow> ret rts))"

text \<open>\<open>sock_setmark\<close>: \<open>outcome\<close> is the error number of \<open>setsockopt\<close>, 0 for success.\<close>

definition sock_setmark :: "(int \<Rightarrow> string) \<Rightarrow> cap_env \<Rightarrow> int \<Rightarrow> ping_rts \<Rightarrow> ping_rts result" where
  "sock_setmark strerror caps outcome rts =
     (if \<not> opt_mark (opts rts) then ret rts
      else enable_capability_admin caps (emit [Sys ''SO_MARK'' [uint (mark rts)]] (disable_capability_admin caps
        (if outcome \<noteq> 0
         then and_then (ping_error strerror rts 0 outcome (''WARNING: failed to set mark: '' @ fmt_d (uint (mark rts)))) (\<lambda>rts.
              and_then (if outcome = EPERM
                        then ping_error strerror rts 0 0
                               ''=> missing cap_net_admin+p or cap_net_raw+p (since Linux 5.17) capability?''
                        else ret rts) (\<lambda>rts.
              ret (rts\<lparr>opts := opts rts\<lparr>opt_mark := False\<rparr>\<rparr>)))
         else ret rts))))"

text \<open>
  What \<open>setup\<close> learns from the system: whether the two socket options could be set, the outcome
  of the mark, the capabilities, the process id, the clock, and the width of the terminal if there is one.
\<close>

record setup_env =
  se_timestamp_ok :: bool
  se_rcvtimeo_ok :: bool
  se_mark :: int
  se_caps :: cap_env
  se_pid :: int
  se_clock :: timespec
  se_columns :: "int option"

definition check_interval :: "(int \<Rightarrow> string) \<Rightarrow> ping_rts \<Rightarrow> ping_rts result" where
  "check_interval strerror rts =
     (let rts = (if opt_flood (opts rts) \<and> \<not> opt_interval (opts rts) then rts\<lparr>interval := 0\<rparr> else rts)
      in and_then (if uid rts \<noteq> 0 \<and> interval rts < MIN_USER_INTERVAL_MS
                   then ping_error strerror rts 2 0 (''cannot flood, minimal interval for user must be >= '' @
                          fmt_d MIN_USER_INTERVAL_MS @ '' ms, use -i '' @ str_interval MIN_USER_INTERVAL_MS @
                          '' (or higher)'')
                   else ret rts) (\<lambda>rts.
           if interval rts \<ge> int_max sdiv preload rts
           then ping_error strerror rts 2 0 (''illegal preload and/or interval: '' @ fmt_d (interval rts))
           else ret rts))"

definition timeout_options :: "ping_rts \<Rightarrow> effect list" where
  "timeout_options rts =
     (let snd = (if interval rts < 1000 then [0, 1000 * SCHINT (interval rts)] else [1, 0])
      in [Sys ''SO_SNDTIMEO'' snd,
          Sys ''SO_RCVTIMEO'' [SCHINT (interval rts) sdiv 1000, 1000 * (SCHINT (interval rts) smod 1000)]])"

text \<open>The default contents of the data area: a counter.\<close>

definition default_fill :: "ping_rts \<Rightarrow> ping_rts" where
  "default_fill rts =
     rts\<lparr>outpack := splice 8 (map (\<lambda>i. word_of_int (int i)) [0..<nat (datalen rts)]) (outpack rts)\<rparr>"

definition setup_rts :: "(int \<Rightarrow> string) \<Rightarrow> setup_env \<Rightarrow> bool \<Rightarrow> ping_rts \<Rightarrow> ping_rts result" where
  "setup_rts strerror env sock_raw rts =
     and_then (check_interval strerror rts) (\<lambda>rts.
     and_then (emit ((if opt_so_debug (opts rts) then [Sys ''SO_DEBUG'' [1]] else []) @
                     (if opt_so_dontroute (opts rts) then [Sys ''SO_DONTROUTE'' [1]] else []))
                (if \<not> opt_latency (opts rts) \<and> \<not> se_timestamp_ok env
                 then ping_error strerror rts 0 0 ''Warning: no SO_TIMESTAMP support, falling back to SIOCGSTAMP''
                 else ret rts)) (\<lambda>rts.
     and_then (sock_setmark strerror (se_caps env) (se_mark env) rts) (\<lambda>rts.
     emit (timeout_options rts)
       (let rts = (if se_rcvtimeo_ok env then rts else rts\<lparr>opts := opts rts\<lparr>opt_flood_poll := True\<rparr>\<rparr>);
            rts = (if \<not> opt_pingfilled (opts rts) then default_fill rts else rts);
            rts = (if sock_raw \<and> ident rts = - 1
                   then rts\<lparr>ident := uint (htons (word_of_int (se_pid env)))\<rparr> else rts);
            rts = rts\<lparr>start_time := se_clock env\<rparr>;
            rts = (case se_columns env of
                     Some c \<Rightarrow> if c > 0 then rts\<lparr>screen_width := c\<rparr> else rts | None \<Rightarrow> rts)
        in emit (if deadline rts \<noteq> 0 then [Sys ''setitimer'' [deadline rts, 0]] else []) (ret rts)))))"

subsection \<open>\<open>main_loop\<close>\<close>

definition finish ::
    "(string \<Rightarrow> string \<Rightarrow> transfer) \<Rightarrow> coping_config \<Rightarrow> mechanism list \<Rightarrow> string \<Rightarrow> ping_rts \<Rightarrow> (ping_rts \<times> int) result" where
  "finish post cfg mechs api_key rts =
     and_then (ping_print_finish rts) (\<lambda>rts.
     and_then (coping_add_context post cfg mechs api_key (hostname rts) (ntransmitted rts) (nreceived rts)
                 (tmin rts) (tmax rts) (tsum rts)) (\<lambda>_.
     ret (rts, if nreceived rts = 0 \<or> (deadline rts \<noteq> 0 \<and> nreceived rts < npackets rts) then 1 else 0)))"

definition main_exit :: "ping_rts \<Rightarrow> bool" where
  "main_exit rts \<longleftrightarrow> exiting rts \<or> (npackets rts \<noteq> 0 \<and> nreceived rts + nerrors rts \<ge> npackets rts) \<or>
     (deadline rts \<noteq> 0 \<and> nerrors rts \<noteq> 0)"

definition deliver_signals :: "'w os \<Rightarrow> 'w ping_proc \<Rightarrow> 'w ping_proc" where
  "deliver_signals os p =
     (let ((ex, st), w) = os_signals os (world p); rts = p_rts p
      in p\<lparr>p_rts := rts\<lparr>exiting := exiting rts \<or> ex, status_snapshot := status_snapshot rts \<or> st\<rparr>, world := w\<rparr>)"

text \<open>Probes scheduled for this time: a loop until the next one is in the future.\<close>

fun send_phase ::
    "(int \<Rightarrow> string) \<Rightarrow> 'w os \<Rightarrow> 'w ping_func_set_st \<Rightarrow> nat \<Rightarrow> 'w ping_proc \<Rightarrow> ('w ping_proc \<times> int) result" where
  "send_phase strerror os fset 0 p = stop_with Out_Of_Fuel"
| "send_phase strerror os fset (Suc fuel) p =
     and_then (pinger strerror os fset (Suc (Suc fuel)) p) (\<lambda>(p, next).
     and_then (schedule_exit p next) (\<lambda>(p, next).
     if next \<le> 0 then send_phase strerror os fset fuel p else ret (p, next)))"

definition short_wait :: "int \<Rightarrow> int \<Rightarrow> bool" where
  "short_wait hz next \<longleftrightarrow>
     (if 1000 smod hz = 0 then next \<le> 1000 sdiv hz else next < int_max sdiv hz \<and> next * hz \<le> 1000)"

text \<open>
  The wait before receiving: \<open>None\<close> is \<open>continue\<close>, otherwise whether \<open>recvmsg\<close> must not wait, and
  whether the socket has an error.
\<close>

definition poll_phase :: "'w os \<Rightarrow> 'w ping_proc \<Rightarrow> int \<Rightarrow> 'w ping_proc result \<times> (bool \<times> bool) option" where
  "poll_phase os p next =
     (let rts = p_rts p
      in if opt_adaptive (opts rts) \<or> opt_flood_poll (opts rts) \<or> next < SCHINT (interval rts)
         then let short = short_wait (os_hz os) next; expected = in_flight rts \<noteq> 0;
                  polling = (short \<and> \<not> expected);
                  next = (if short then if expected then MIN_INTERVAL_MS else 0 else next)
              in if polling then (emit [Sys ''sched_yield'' []] (ret p), Some (True, False))
                 else if opt_adaptive (opts rts) \<or> opt_flood_poll (opts rts) \<or> interval rts \<noteq> 0
                 then let ((n, pollin, pollerr), w) = os_poll os (world p) next; p = p\<lparr>world := w\<rparr>
                      in if n < 1 \<or> \<not> (pollin \<or> pollerr) then (ret p, None) else (ret p, Some (True, pollerr))
                 else (ret p, Some (False, False))
         else (ret p, Some (False, False)))"

text \<open>The time of arrival: the last time stamp of the message, the socket's, or the time of day.\<close>

definition arrival_time :: "'w os \<Rightarrow> 'w ping_proc \<Rightarrow> message \<Rightarrow> timeval \<times> 'w ping_proc" where
  "arrival_time os p m =
     (if opt_latency (opts (p_rts p)) then time_if os True p
      else if msg_stamps m \<noteq> [] then (last (msg_stamps m), p)
      else case os_stamp os (world p) of
             (Some t, w) \<Rightarrow> (t, p\<lparr>world := w\<rparr>)
           | (None, w) \<Rightarrow> time_if os True (p\<lparr>world := w\<rparr>))"

text \<open>
  One round of the receive loop; the flag of the result is \<open>break\<close>.  \<open>after_receive\<close> is the part
  after a message or an error was handled.
\<close>

definition after_receive ::
    "'w ping_func_set_st \<Rightarrow> bool \<Rightarrow> 'w ping_proc \<Rightarrow> bool \<Rightarrow> ('w ping_proc \<times> bool) result" where
  "after_receive fset sock_raw p not_ours =
     and_then (if not_ours \<and> sock_raw then install_filter fset p else ret p)
       (\<lambda>p. ret (p, in_flight (p_rts p) = 0))"

definition recv_step ::
    "(int \<Rightarrow> string) \<Rightarrow> 'w os \<Rightarrow> 'w ping_func_set_st \<Rightarrow> bool \<Rightarrow> bool \<Rightarrow> bool \<Rightarrow> 'w ping_proc \<Rightarrow>
     (bool \<times> 'w ping_proc \<times> bool) result" where
  "recv_step strerror os fset sock_raw polling recv_error p =
     (case os_recvmsg os (world p) polling of
        (Inl e, w) \<Rightarrow>
          let p = p\<lparr>world := w, p_errno := e\<rparr>
          in if (e = EAGAIN \<and> \<not> recv_error) \<or> e = EINTR then ret (recv_error, p, True)
             else and_then (receive_error_msg fset p) (\<lambda>(p, i).
               if i = 0 \<and> p_errno p \<noteq> 0
               then and_then (on_rts (\<lambda>rts. ping_error strerror rts 0 (p_errno p) ''recvmsg'') p)
                      (\<lambda>p. ret (False, p, True))
               else and_then (after_receive fset sock_raw p (i = 0)) (\<lambda>r. ret (False, r)))
      | (Inr m, w) \<Rightarrow>
          let (t, p) = arrival_time os (p\<lparr>world := w\<rparr>) m
          in and_then (parse_reply fset p m t) (\<lambda>(p, not_ours).
             and_then (on_rts print_json_packet p) (\<lambda>p.
             and_then (after_receive fset sock_raw p not_ours) (\<lambda>r. ret (recv_error, r)))))"

fun recv_phase ::
    "(int \<Rightarrow> string) \<Rightarrow> 'w os \<Rightarrow> 'w ping_func_set_st \<Rightarrow> bool \<Rightarrow> nat \<Rightarrow> bool \<Rightarrow> bool \<Rightarrow> 'w ping_proc \<Rightarrow>
     'w ping_proc result" where
  "recv_phase strerror os fset sock_raw 0 polling recv_error p = stop_with Out_Of_Fuel"
| "recv_phase strerror os fset sock_raw (Suc fuel) polling recv_error p =
     and_then (recv_step strerror os fset sock_raw polling recv_error p) (\<lambda>(recv_error, p, brk).
       if brk then ret p else recv_phase strerror os fset sock_raw fuel True recv_error p)"

fun main_loop ::
    "(int \<Rightarrow> string) \<Rightarrow> 'w os \<Rightarrow> 'w ping_func_set_st \<Rightarrow> bool \<Rightarrow> (ping_rts \<Rightarrow> (ping_rts \<times> int) result) \<Rightarrow>
     nat \<Rightarrow> 'w ping_proc \<Rightarrow> ('w ping_proc \<times> int) result" where
  "main_loop strerror os fset sock_raw fin 0 p = stop_with Out_Of_Fuel"
| "main_loop strerror os fset sock_raw fin (Suc fuel) p =
     (let p = deliver_signals os p
      in if main_exit (p_rts p)
         then and_then (fin (p_rts p)) (\<lambda>(rts, code). ret (p\<lparr>p_rts := rts\<rparr>, code))
         else and_then (if status_snapshot (p_rts p) then on_rts status p else ret p) (\<lambda>p.
              and_then (send_phase strerror os fset fuel p) (\<lambda>(p, next).
              case poll_phase os p next of (r, how) \<Rightarrow>
                and_then r (\<lambda>p.
                  case how of
                    None \<Rightarrow> main_loop strerror os fset sock_raw fin fuel p
                  | Some (polling, recv_error) \<Rightarrow>
                      and_then (recv_phase strerror os fset sock_raw fuel polling recv_error p)
                        (main_loop strerror os fset sock_raw fin fuel)))))"

end
