(* ===== verification/Ping_Schedule.thy ===== *)
theory Ping_Schedule
  imports Ping_Loop
begin

text \<open>
  When probes are sent: the schedule of a process, which only \<open>pinger\<close> changes; the interface
  \<open>probe_engine\<close> that the loop relies on of a protocol's functions; and, proved once over that
  interface, the token bucket of \<open>pinger\<close>, the limit of the number of probes, and how \<open>main_loop\<close>
  ends.
\<close>

subsection \<open>The schedule\<close>

text \<open>
  The fields that decide when and whether the next probe is sent.  In adaptive mode the interval
  follows the round trip time and is not part of them.
\<close>

definition rts_schedule :: "ping_rts \<Rightarrow> int \<times> int \<times> int \<times> int \<times> timespec \<times> bool \<times> int" where
  "rts_schedule r = (preload r, ntransmitted r, npackets r, deadline r, cur_time r, opt_adaptive (opts r),
     if opt_adaptive (opts r) then 0 else interval r)"

abbreviation keeps_rts :: "ping_rts \<Rightarrow> ping_rts \<Rightarrow> bool" where
  "keeps_rts r s \<equiv> rts_schedule s = rts_schedule r"

abbreviation keeps :: "'w ping_proc \<Rightarrow> 'w ping_proc \<Rightarrow> bool" where
  "keeps p q \<equiv> tokens q = tokens p \<and> rts_schedule (p_rts q) = rts_schedule (p_rts p)"

lemma yields_keeps_rts: "yields m P \<Longrightarrow> (\<And>s. P s \<Longrightarrow> keeps_rts r s) \<Longrightarrow> yields m (keeps_rts r)"
  by (rule yields_mono)

lemma schedule_eqD:
  assumes "rts_schedule s = rts_schedule r"
  shows "preload s = preload r" "ntransmitted s = ntransmitted r" "npackets s = npackets r"
    "deadline s = deadline r" "cur_time s = cur_time r" "opt_adaptive (opts s) = opt_adaptive (opts r)"
    "\<not> opt_adaptive (opts r) \<Longrightarrow> interval s = interval r"
  using assms by (auto simp: rts_schedule_def split: if_splits)

text \<open>Sequences: each step keeps the schedule of the state it starts in.\<close>

lemma keeps_rts_seq:
  "yields m (keeps_rts r) \<Longrightarrow> (\<And>s. yields (f s) (keeps_rts s)) \<Longrightarrow> yields (and_then m f) (keeps_rts r)"
  by (rule yields_and_then) (auto simp: yields_def)

lemma keeps_seq:
  "yields m (keeps p) \<Longrightarrow> (\<And>q. yields (f q) (keeps q)) \<Longrightarrow> yields (and_then m f) (keeps p)"
  by (rule yields_and_then) (auto simp: yields_def)

lemma keeps_seq_pair:
  "yields m (\<lambda>(q, i). keeps p q) \<Longrightarrow> (\<And>q i. yields (f (q, i)) (\<lambda>(r, b). keeps q r)) \<Longrightarrow>
   yields (and_then m f) (\<lambda>(r, b). keeps p r)"
  by (rule yields_and_then, assumption) (fastforce simp: yields_def)

lemma keeps_then_ret:
  "yields m (keeps p) \<Longrightarrow> (\<And>q. g q = ret (q, b)) \<Longrightarrow> yields (and_then m g) (\<lambda>(r, b). keeps p r)"
  by (rule yields_and_then, assumption) simp

named_theorems keeps_intros "functions that keep the schedule"

lemma rts_schedule_updates [simp]:
  "rts_schedule (r\<lparr>json_packet := jb\<rparr>) = rts_schedule r" "rts_schedule (r\<lparr>nerrors := i\<rparr>) = rts_schedule r"
  "rts_schedule (r\<lparr>nreceived := i\<rparr>) = rts_schedule r" "rts_schedule (r\<lparr>nrepeats := i\<rparr>) = rts_schedule r"
  "rts_schedule (r\<lparr>nchecksum := i\<rparr>) = rts_schedule r" "rts_schedule (r\<lparr>exiting := b\<rparr>) = rts_schedule r"
  "rts_schedule (r\<lparr>status_snapshot := b\<rparr>) = rts_schedule r" "rts_schedule (r\<lparr>confirm := i\<rparr>) = rts_schedule r"
  "rts_schedule (r\<lparr>confirm_flag := i\<rparr>) = rts_schedule r" "rts_schedule (r\<lparr>outpack := bs\<rparr>) = rts_schedule r"
  "rts_schedule (r\<lparr>acked := w\<rparr>) = rts_schedule r" "rts_schedule (r\<lparr>pipesize := i\<rparr>) = rts_schedule r"
  "rts_schedule (r\<lparr>rtt_addend := i\<rparr>) = rts_schedule r"
  "rts_schedule (r\<lparr>opts := opts r\<lparr>opt_latency := b\<rparr>\<rparr>) = rts_schedule r"
  "rts_schedule (rcvd_set r seq) = rts_schedule r" "rts_schedule (rcvd_clear r seq) = rts_schedule r"
  "rts_schedule (acknowledge r seq) = rts_schedule r"
  by (simp_all add: rts_schedule_def rcvd_set_def rcvd_clear_def acknowledge_def Let_def)

lemma construct_json_keeps [keeps_intros]: "yields (construct_json r key v) (keeps_rts r)"
proof -
  have "yields (and_then m (\<lambda>b. and_then (json_kv b key v) (\<lambda>b. ret (r\<lparr>json_packet := b\<rparr>)))) (keeps_rts r)" for m
    by (intro yields_and_then [where Q = "\<lambda>_. True"]) (simp_all add: yields_def)
  then show ?thesis by (simp add: construct_json_def)
qed

lemma print_json_packet_keeps [keeps_intros]: "yields (print_json_packet r) (keeps_rts r)"
  by (simp add: print_json_packet_def)

lemma ping_error_keeps [keeps_intros]: "yields (ping_error strerror r st en str) (keeps_rts r)"
proof -
  have "yields (construct_json_error strerror r en m) (keeps_rts r)" for m
    unfolding construct_json_error_def json_emergency_def
    by (auto simp: error_c_def intro!: keeps_rts_seq keeps_intros split: option.splits)
  then show ?thesis
    unfolding ping_error_def Let_def by (auto simp: error_c_def intro!: keeps_rts_seq)
qed

lemma update_interval_keeps [simp]: "opt_adaptive (opts r) \<Longrightarrow> rts_schedule (update_interval r) = rts_schedule r"
  by (simp add: rts_schedule_def update_interval_def Let_def)

lemma print_timestamp_keeps [keeps_intros]: "yields (print_timestamp now r) (keeps_rts r)"
  by (simp add: print_timestamp_def)

lemma status_keeps [keeps_intros]: "yields (status r) (keeps_rts r)"
  by (simp add: status_def Let_def)

lemma on_rts_keeps: "yields (f (p_rts p)) (keeps_rts (p_rts p)) \<Longrightarrow> yields (on_rts f p) (keeps p)"
  unfolding on_rts_def by (erule yields_and_then) simp

lemma time_if_sel [simp]:
  "p_rts (snd (time_if os b p)) = p_rts p" "tokens (snd (time_if os b p)) = tokens p"
  by (simp_all add: time_if_def split: prod.splits)

lemma print_timestamp_now_keeps [keeps_intros]: "yields (print_timestamp_now os p) (keeps p)"
proof -
  have "yields (on_rts (print_timestamp (fst x)) (snd x)) (keeps p)"
    if "x = time_if os (opt_ptimeofday (opts (p_rts p))) p" for x
    using on_rts_keeps [of "print_timestamp (fst x)" "snd x"] that by (simp add: keeps_intros)
  then show ?thesis by (simp add: print_timestamp_now_def split_beta)
qed

text \<open>
  The interface of a protocol: its functions keep the schedule, which the loop alone decides on.
\<close>

locale probe_engine =
  fixes fset :: "'w ping_func_set_st"
  assumes send_keeps: "yields (send_probe fset p) (\<lambda>(q, i). keeps p q)"
    and error_keeps: "yields (receive_error_msg fset p) (\<lambda>(q, i). keeps p q)"
    and reply_keeps: "yields (parse_reply fset p m t) (\<lambda>(q, b). keeps p q)"
    and filter_keeps: "yields (install_filter fset p) (keeps p)"

subsection \<open>One call of \<open>pinger\<close>\<close>

definition ns_of :: "timespec \<Rightarrow> int" where
  "ns_of ts = 1000000000 * ts_sec ts + ts_nsec ts"

abbreviation no_clock :: "timespec \<Rightarrow> bool" where
  "no_clock ts \<equiv> ts_sec ts = 0 \<and> ts_nsec ts = 0"

text \<open>The division of the nanoseconds cuts towards zero: at most a millisecond is gained.\<close>

lemma elapsed_ms_le: "1000000 * elapsed_ms now before \<le> ns_of now - ns_of before + 999999"
proof -
  have "1000000 * (x sdiv 1000000) \<le> x + 999999" for x :: int
    unfolding signed_divide_int_def sgn_if by (cases "0 \<le> x") (simp_all, linarith+)
  from this [of "ts_nsec now - ts_nsec before"] show ?thesis
    by (simp add: elapsed_ms_def ns_of_def algebra_simps)
qed

text \<open>
  What sending changes of the schedule: at most one probe is counted, and the tokens are as before,
  taken away, or, when nothing was sent, those of one interval more.
\<close>

definition spends :: "'w ping_proc \<Rightarrow> 'w ping_proc \<Rightarrow> bool" where
  "spends p q \<longleftrightarrow>
     rts_schedule (p_rts q) = rts_schedule ((p_rts p)\<lparr>ntransmitted := ntransmitted (p_rts q)\<rparr>) \<and>
     ntransmitted (p_rts q) \<in> {ntransmitted (p_rts p), ntransmitted (p_rts p) + 1} \<and>
     (\<not> opt_adaptive (opts (p_rts p)) \<longrightarrow> tokens q \<in> {0, tokens p} \<or>
       ntransmitted (p_rts q) = ntransmitted (p_rts p) \<and> tokens q = tokens p + interval (p_rts p))"

lemma keeps_spends: "keeps p p' \<Longrightarrow> spends p' q \<Longrightarrow> spends p q"
  by (auto simp: spends_def rts_schedule_def split: if_splits)

lemma spends_keeps: "spends p q \<Longrightarrow> keeps q q' \<Longrightarrow> spends p q'"
  by (auto simp: spends_def rts_schedule_def split: if_splits)

lemma spends_seq:
  assumes "yields m (spends p)" "\<And>q. yields (f q) (\<lambda>(r, i). keeps q r)"
  shows "yields (and_then m f) (\<lambda>(r, i). spends p r)"
  using assms(1) by (rule yields_and_then) (rule yields_mono [OF assms(2)], auto intro: spends_keeps)

lemma keeps_spends_seq:
  assumes "yields m (keeps p)" "\<And>q. yields (f q) (\<lambda>(r, i). spends q r)"
  shows "yields (and_then m f) (\<lambda>(r, i). spends p r)"
  using assms(1) by (rule yields_and_then) (rule yields_mono [OF assms(2)], auto intro: keeps_spends)

lemma keeps_spends_seq_pair:
  assumes "yields m (\<lambda>(q, i). keeps p q)" "\<And>q i. yields (f (q, i)) (\<lambda>(r, j). spends q r)"
  shows "yields (and_then m f) (\<lambda>(r, i). spends p r)"
  using assms(1)
proof (rule yields_and_then, goal_cases)
  case (1 x)
  then show ?case
    by (cases x) (auto intro: yields_mono [OF assms(2)] keeps_spends)
qed

lemma advance_ntransmitted_sel [simp]:
  "ntransmitted (advance_ntransmitted r) = ntransmitted r + 1"
  "rts_schedule (advance_ntransmitted r) = rts_schedule (r\<lparr>ntransmitted := ntransmitted r + 1\<rparr>)"
  by (simp_all add: advance_ntransmitted_def Let_def rts_schedule_def)

lemma pinger_sent_spends: "yields (pinger_sent p) (\<lambda>(q, i). spends p q)"
  by (simp add: pinger_sent_def Let_def spends_def)

lemma hard_local_error_spends: "yields (hard_local_error strerror p i) (\<lambda>(q, j). spends p q \<and> tokens q = 0)"
proof -
  let ?p = "set_rts advance_ntransmitted p"
  have "yields (if i = 0 \<and> \<not> opt_quiet (opts (p_rts ?p))
      then if opt_flood (opts (p_rts ?p)) then print ''E'' (ret ?p)
           else on_rts (\<lambda>rts. ping_error strerror rts 0 (p_errno ?p) ''sendmsg'') ?p
      else ret ?p) (keeps ?p)"
    by (auto intro: on_rts_keeps keeps_intros)
  then show ?thesis unfolding hard_local_error_def Let_def
    by (rule yields_and_then) (auto simp: spends_def set_rts_def dest: schedule_eqD)
qed

lemma pinger_nobufs_spends: "yields (pinger_nobufs strerror p) (\<lambda>(q, i). spends p q)"
proof -
  let ?r = "\<lambda>a. (p_rts p)\<lparr>rtt_addend := a\<rparr>"
  have frame: "rts_schedule (if opt_adaptive (opts (p_rts p)) then update_interval (?r a) else ?r a) = rts_schedule (p_rts p)"
    "ntransmitted (if opt_adaptive (opts (p_rts p)) then update_interval (?r a) else ?r a) = ntransmitted (p_rts p)"
    "opt_adaptive (opts (if opt_adaptive (opts (p_rts p)) then update_interval (?r a) else ?r a)) = opt_adaptive (opts (p_rts p))" for a
    by (simp_all add: update_interval_def Let_def rts_schedule_def)
  define q where "q a = p\<lparr>p_rts := if opt_adaptive (opts (?r a)) then update_interval (?r a) else ?r a,
      tokens := 0, oom_count := oom_count p + 1\<rparr>" for a
  have "spends p r" if "spends (q a) r \<and> tokens r = 0" for a r
    using that frame [of a] by (auto simp: spends_def q_def rts_schedule_def split: if_splits)
  moreover have "spends p (q a)" for a
    using frame [of a] by (simp add: spends_def q_def)
  ultimately have "yields (if c then ret (q a, d) else hard_local_error strerror (q a) 0) (\<lambda>(q, i). spends p q)" for a c d
    using hard_local_error_spends [of strerror "q a" 0] by (auto simp: yields_def)
  note this [unfolded q_def]
  then show ?thesis unfolding pinger_nobufs_def Let_def .
qed

lemma yields_pair_mono:
  "yields m (\<lambda>(q, i). P q) \<Longrightarrow> (\<And>q. P q \<Longrightarrow> Q q) \<Longrightarrow> yields m (\<lambda>(q, i). Q q)"
  by (auto simp: yields_def)

context probe_engine
begin

lemma pinger_send_spends: "yields (pinger_send strerror fset fuel p) (\<lambda>(q, i). spends p q)"
proof (induction fuel arbitrary: p)
  case (Suc fuel)
  have hard: "yields (hard_local_error strerror q i) (\<lambda>(r, j). spends q r)" for q i
    by (rule yields_mono [OF hard_local_error_spends]) auto
  have upd: "spends p q" if "spends (set_rts f p) q" "\<And>r. rts_schedule (f r) = rts_schedule r" for f p q
    by (rule keeps_spends [OF _ that(1)]) (simp add: set_rts_def that(2))
  have cont: "yields (let q = (if c then (set_rts (\<lambda>rts. rts\<lparr>confirm_flag := 0\<rparr>) q)\<lparr>p_errno := 0\<rparr> else q)
      in if p_errno q = 0 then pinger_send strerror fset fuel q else hard_local_error strerror q i)
      (\<lambda>(r, j). spends q r)" for c q i
  proof -
    define q' where "q' = (if c then (set_rts (\<lambda>rts. rts\<lparr>confirm_flag := 0\<rparr>) q)\<lparr>p_errno := 0\<rparr> else q)"
    have "keeps q q'" by (simp add: q'_def set_rts_def)
    then have "spends q r" if "spends q' r" for r using that by (rule keeps_spends)
    moreover have "yields (if p_errno q' = 0 then pinger_send strerror fset fuel q' else hard_local_error strerror q' i)
        (\<lambda>(r, j). spends q' r)"
      using Suc.IH [of q'] hard [of q' i] by simp
    ultimately show ?thesis unfolding Let_def q'_def [symmetric] by (blast intro: yields_pair_mono)
  qed
  have tok: "spends q (q\<lparr>tokens := tokens q + interval (p_rts q)\<rparr>)" for q by (simp add: spends_def)
  have size: "yields (hard_local_error strerror (set_rts (\<lambda>rts. rts\<lparr>nerrors := nerrors rts + 1\<rparr>) q) 0)
      (\<lambda>(r, j). spends q r)" for q
    by (rule yields_pair_mono [OF hard]) (auto intro: upd)
  have err: "yields (and_then (receive_error_msg fset q) (\<lambda>(p, i).
      if i > 0 then hard_local_error strerror p 0
      else let p = (if i = 0 \<and> confirm_flag (p_rts p) \<noteq> 0 \<and> p_errno p = EINVAL
                    then (set_rts (\<lambda>rts. rts\<lparr>confirm_flag := 0\<rparr>) p)\<lparr>p_errno := 0\<rparr> else p)
           in if p_errno p = 0 then pinger_send strerror fset fuel p else hard_local_error strerror p i))
      (\<lambda>(r, j). spends q r)" for q
    by (rule keeps_spends_seq_pair [OF error_keeps], unfold prod.case, intro yields_if hard cont)
  show ?case unfolding pinger_send.simps
    by (rule keeps_spends_seq_pair [OF send_keeps], unfold prod.case,
        intro yields_if pinger_sent_spends pinger_nobufs_spends size err)
      (simp_all add: tok)
qed simp

end

subsection \<open>The rate of probes\<close>

text \<open>The call passes the check of the rate: an attempt to send.\<close>

definition attempts :: "'w os \<Rightarrow> 'w ping_proc \<Rightarrow> bool" where
  "attempts os p \<longleftrightarrow> \<not> pinger_done (p_rts p) \<and> snd (pinger_rate os p) = None"

lemma pinger_rate_wait: "pinger_rate os p = (q, Some w) \<Longrightarrow> keeps p q"
  by (auto simp: pinger_rate_def Let_def split: prod.splits if_splits)

lemma pinger_rate_go:
  assumes "pinger_rate os p = (q, None)"
  shows "rts_schedule (p_rts q) = rts_schedule ((p_rts p)\<lparr>cur_time := fst (os_clock os (world p))\<rparr>)"
    and "\<not> no_clock (cur_time (p_rts p)) \<Longrightarrow>
      interval (p_rts p) \<le> tokens q + interval (p_rts p) \<and>
      tokens q + interval (p_rts p) \<le> elapsed_ms (fst (os_clock os (world p))) (cur_time (p_rts p)) + tokens p"
  using assms by (auto simp: pinger_rate_def Let_def rts_schedule_def split: prod.splits if_splits)

lemma report_outstanding_keeps [keeps_intros]: "yields (report_outstanding os p) (keeps p)"
proof -
  have "yields (and_then (print_timestamp_now os p) (print s \<circ> ret)) (keeps p)" for s
    by (rule keeps_seq [OF print_timestamp_now_keeps]) simp
  then show ?thesis by (simp add: report_outstanding_def Let_def)
qed

lemma bucket_step:
  fixes x :: int
  shows "x + t' \<le> t1 + i \<Longrightarrow> 1000000 * e \<le> ns + 999999 \<Longrightarrow> t1 + i \<le> e + t \<Longrightarrow> 1000000 * (x + t' - t) \<le> ns + 999999"
  by (simp add: algebra_simps)

lemma bucket_bound:
  fixes x :: int
  shows "1000000 * (x + t' - t) \<le> now - before + g \<Longrightarrow> 0 \<le> t' \<Longrightarrow> t \<le> y \<Longrightarrow> 1000000 * x \<le> 1000000 * y + now - before + g"
  by (simp add: algebra_simps)

context probe_engine
begin

lemma pinger_step:
  "yields (pinger strerror os fset fuel p) (\<lambda>(q, i).
     if attempts os p then spends (fst (pinger_rate os p)) q else keeps p q)"
proof (cases "pinger_done (p_rts p)")
  case False
  obtain p1 w where rate: "pinger_rate os p = (p1, w)" by fastforce
  have "yields (and_then (report_outstanding os p1) (pinger_send strerror fset fuel)) (\<lambda>(q, i). spends p1 q)"
    by (rule keeps_spends_seq [OF report_outstanding_keeps pinger_send_spends])
  then show ?thesis
    using False rate pinger_rate_wait [of os p p1] by (auto simp: pinger_def attempts_def split: option.splits)
qed (simp add: pinger_def attempts_def)

text \<open>The account of one call: what was counted and what is left is paid for by the time.\<close>

lemma pinger_account:
  assumes "\<not> opt_adaptive (opts (p_rts p))" "0 \<le> interval (p_rts p)" "0 \<le> tokens p" "\<not> no_clock (cur_time (p_rts p))"
    and "\<And>w. \<not> no_clock (fst (os_clock os w))"
  shows "yields (pinger strerror os fset fuel p) (\<lambda>(q, i).
    1000000 * (interval (p_rts p) * (ntransmitted (p_rts q) - ntransmitted (p_rts p)) + tokens q - tokens p) \<le>
      ns_of (cur_time (p_rts q)) - ns_of (cur_time (p_rts p)) + 999999 * of_bool (attempts os p) \<and>
    0 \<le> tokens q \<and> \<not> no_clock (cur_time (p_rts q)) \<and>
    \<not> opt_adaptive (opts (p_rts q)) \<and> interval (p_rts q) = interval (p_rts p))"
proof (rule yields_mono [OF pinger_step], clarify)
  fix q i
  assume step: "if attempts os p then spends (fst (pinger_rate os p)) q else keeps p q"
  show "1000000 * (interval (p_rts p) * (ntransmitted (p_rts q) - ntransmitted (p_rts p)) + tokens q - tokens p) \<le>
      ns_of (cur_time (p_rts q)) - ns_of (cur_time (p_rts p)) + 999999 * of_bool (attempts os p) \<and>
    0 \<le> tokens q \<and> \<not> no_clock (cur_time (p_rts q)) \<and>
    \<not> opt_adaptive (opts (p_rts q)) \<and> interval (p_rts q) = interval (p_rts p)"
  proof (cases "attempts os p")
    case False
    then have "keeps p q" using step by simp
    with schedule_eqD [of "p_rts q" "p_rts p"] assms False show ?thesis by simp
  next
    case True
    then obtain p1 where rate: "pinger_rate os p = (p1, None)" by (cases "pinger_rate os p") (auto simp: attempts_def)
    let ?now = "fst (os_clock os (world p))" and ?r = "p_rts p"
    note go = pinger_rate_go [OF rate]
    have p1: "ntransmitted (p_rts p1) = ntransmitted ?r" "cur_time (p_rts p1) = ?now"
      "\<not> opt_adaptive (opts (p_rts p1))" "interval (p_rts p1) = interval ?r"
      using schedule_eqD [OF go(1)] assms(1) by simp_all
    have sp: "spends p1 q" using step True rate by simp
    then have q: "cur_time (p_rts q) = ?now" "\<not> opt_adaptive (opts (p_rts q))" "interval (p_rts q) = interval ?r"
      using p1 schedule_eqD [of "p_rts q" "(p_rts p1)\<lparr>ntransmitted := ntransmitted (p_rts q)\<rparr>"]
      by (simp_all add: spends_def)
    let ?d = "ntransmitted (p_rts q) - ntransmitted ?r"
    have t1: "0 \<le> tokens p1" "tokens p1 + interval ?r \<le> elapsed_ms ?now (cur_time ?r) + tokens p"
      using go(2) assms(4) by simp_all
    have "interval ?r * ?d + tokens q \<le> tokens p1 + interval ?r" "0 \<le> tokens q"
      using sp p1 t1(1) assms(2) by (auto simp: spends_def)
    moreover have "1000000 * elapsed_ms ?now (cur_time ?r) \<le> ns_of ?now - ns_of (cur_time ?r) + 999999"
      by (rule elapsed_ms_le)
    ultimately have "1000000 * (interval ?r * ?d + tokens q - tokens p) \<le> ns_of ?now - ns_of (cur_time ?r) + 999999"
      using t1(2) by (intro bucket_step)
    then show ?thesis using True q \<open>0 \<le> tokens q\<close> assms(5) [of "world p"] by simp
  qed
qed

end

text \<open>
  A run of the sender: calls of \<open>pinger\<close> with anything between them that keeps the schedule; the
  number counts the attempts to send.
\<close>

inductive sending ::
    "(int \<Rightarrow> string) \<Rightarrow> 'w os \<Rightarrow> 'w ping_func_set_st \<Rightarrow> 'w ping_proc \<Rightarrow> nat \<Rightarrow> 'w ping_proc \<Rightarrow> bool"
  for strerror os fset p where
  start: "sending strerror os fset p 0 p"
| call: "sending strerror os fset p n q \<Longrightarrow> returns (pinger strerror os fset fuel q) (r, nxt) \<Longrightarrow>
    sending strerror os fset p (n + of_bool (attempts os q)) r"
| between: "sending strerror os fset p n q \<Longrightarrow> keeps q r \<Longrightarrow> sending strerror os fset p n r"

inductive_cases sending_none: "sending strerror os fset p 0 q"

context probe_engine
begin

lemma sending_account:
  assumes "sending strerror os fset p n q"
    and "\<not> opt_adaptive (opts (p_rts p))" "0 \<le> interval (p_rts p)" "0 \<le> tokens p" "\<not> no_clock (cur_time (p_rts p))"
    and "\<And>w. \<not> no_clock (fst (os_clock os w))"
  shows "1000000 * (interval (p_rts p) * (ntransmitted (p_rts q) - ntransmitted (p_rts p)) + tokens q - tokens p) \<le>
      ns_of (cur_time (p_rts q)) - ns_of (cur_time (p_rts p)) + 999999 * int n \<and>
    0 \<le> tokens q \<and> \<not> no_clock (cur_time (p_rts q)) \<and>
    \<not> opt_adaptive (opts (p_rts q)) \<and> interval (p_rts q) = interval (p_rts p)"
  using assms(1)
proof (induction rule: sending.induct)
  case (call n q fuel r nxt)
  then have q: "\<not> opt_adaptive (opts (p_rts q))" "interval (p_rts q) = interval (p_rts p)" "0 \<le> tokens q"
    "\<not> no_clock (cur_time (p_rts q))" by blast+
  have "1000000 * (interval (p_rts q) * (ntransmitted (p_rts r) - ntransmitted (p_rts q)) + tokens r - tokens q) \<le>
      ns_of (cur_time (p_rts r)) - ns_of (cur_time (p_rts q)) + 999999 * of_bool (attempts os q) \<and>
    0 \<le> tokens r \<and> \<not> no_clock (cur_time (p_rts r)) \<and>
    \<not> opt_adaptive (opts (p_rts r)) \<and> interval (p_rts r) = interval (p_rts q)"
    using pinger_account [of q os strerror fuel] call.hyps(2) q assms(3,6) by (auto simp: yields_def returns_def)
  then show ?case using call.IH q(2) by (simp add: algebra_simps)
next
  case (between n q r)
  with schedule_eqD [of "p_rts r" "p_rts q"] show ?case by simp
qed (use assms in simp)

text \<open>
  The bucket: from the first probe on, no more probes are sent than the preload and one for every
  interval, up to the fraction of a millisecond that the conversion may gain at each attempt.
\<close>

lemma sending_rate:
  assumes "sending strerror os fset p n q"
    and "\<not> opt_adaptive (opts (p_rts p))" "0 \<le> interval (p_rts p)" "\<not> no_clock (cur_time (p_rts p))"
    and "0 \<le> tokens p" "tokens p \<le> interval (p_rts p) * (preload (p_rts p) - 1)"
    and "\<And>w. \<not> no_clock (fst (os_clock os w))"
  shows "1000000 * (interval (p_rts p) * (ntransmitted (p_rts q) - ntransmitted (p_rts p))) \<le>
    1000000 * (interval (p_rts p) * (preload (p_rts p) - 1)) +
    ns_of (cur_time (p_rts q)) - ns_of (cur_time (p_rts p)) + 999999 * int n"
  using sending_account [OF assms(1-3,5,4,7)] assms(6) by (intro bucket_bound) auto

end

subsection \<open>The number of probes, and the end of the loop\<close>

text \<open>With a count and no deadline, no more probes are sent than the count.\<close>

definition within_count :: "ping_rts \<Rightarrow> bool" where
  "within_count r \<longleftrightarrow> (npackets r \<noteq> 0 \<and> deadline r = 0 \<longrightarrow> ntransmitted r \<le> npackets r)"

definition counted :: "'w ping_proc \<Rightarrow> 'w ping_proc \<Rightarrow> bool" where
  "counted p q \<longleftrightarrow> npackets (p_rts q) = npackets (p_rts p) \<and> deadline (p_rts q) = deadline (p_rts p) \<and>
     (within_count (p_rts p) \<longrightarrow> within_count (p_rts q))"

lemma counted_refl [simp]: "counted p p"
  by (simp add: counted_def)

lemma counted_trans: "counted p q \<Longrightarrow> counted q r \<Longrightarrow> counted p r"
  by (simp add: counted_def)

lemma keeps_counted: "keeps p q \<Longrightarrow> counted p q"
  using schedule_eqD [of "p_rts q" "p_rts p"] by (simp add: counted_def within_count_def)

lemma schedule_exit_keeps: "yields (schedule_exit p nxt) (\<lambda>(q, i). keeps p q)"
  by (simp add: schedule_exit_def arm_exit_timer_def Let_def)

lemma poll_phase_keeps: "yields (fst (poll_phase os p nxt)) (keeps p)"
  by (auto simp: poll_phase_def Let_def split: prod.splits)

lemma arrival_time_keeps: "keeps p (snd (arrival_time os p m))"
  by (auto simp: arrival_time_def split: prod.splits option.splits)

lemma deliver_signals_keeps: "keeps p (deliver_signals os p)"
  by (auto simp: deliver_signals_def Let_def split: prod.splits)

context probe_engine
begin

lemma after_receive_keeps: "yields (after_receive fset sock_raw p b) (\<lambda>(q, brk). keeps p q)"
  unfolding after_receive_def by (rule yields_and_then [where Q = "keeps p"]) (auto intro: filter_keeps)

lemma recv_step_keeps:
  "yields (recv_step strerror os fset sock_raw polling recv_error p) (\<lambda>(e, q, brk). keeps p q)"
proof (cases "os_recvmsg os (world p) polling")
  case (Pair r w)
  let ?P = "\<lambda>q :: 'w ping_proc. \<lambda>(e :: bool, r, brk :: bool). keeps q r"
  have after: "yields (and_then (after_receive fset sock_raw q b) (\<lambda>r. ret (e, r))) (?P q)" for q b e
    by (rule yields_and_then [OF after_receive_keeps]) auto
  show ?thesis
  proof (cases r)
    case (Inl e)
    let ?p = "p\<lparr>world := w, p_errno := e\<rparr>"
    have "yields (and_then (receive_error_msg fset ?p) (\<lambda>(p, i).
        if i = 0 \<and> p_errno p \<noteq> 0
        then and_then (on_rts (\<lambda>rts. ping_error strerror rts 0 (p_errno p) ''recvmsg'') p) (\<lambda>p. ret (False, p, True))
        else and_then (after_receive fset sock_raw p (i = 0)) (\<lambda>r. ret (False, r)))) (?P ?p)"
    proof (rule yields_and_then [OF error_keeps], clarify, intro yields_if)
      fix q :: "'w ping_proc" and i :: int
      assume q: "tokens q = tokens ?p" "rts_schedule (p_rts q) = rts_schedule (p_rts ?p)"
      show "yields (and_then (on_rts (\<lambda>rts. ping_error strerror rts 0 (p_errno q) ''recvmsg'') q)
          (\<lambda>p. ret (False, p, True))) (?P ?p)"
        by (rule yields_and_then [where Q = "keeps q"], rule on_rts_keeps, rule ping_error_keeps) (use q in auto)
      show "yields (and_then (after_receive fset sock_raw q (i = 0)) (\<lambda>r. ret (False, r))) (?P ?p)"
        by (rule yields_mono [OF after]) (use q in auto)
    qed
    then show ?thesis by (simp add: recv_step_def Pair Inl Let_def)
  next
    case (Inr m)
    let ?a = "arrival_time os (p\<lparr>world := w\<rparr>) m"
    have a: "keeps p (snd ?a)" using arrival_time_keeps [where p = "p\<lparr>world := w\<rparr>"] by simp
    have "yields (and_then (parse_reply fset (snd ?a) m (fst ?a)) (\<lambda>(p, not_ours).
        and_then (on_rts print_json_packet p) (\<lambda>p.
        and_then (after_receive fset sock_raw p not_ours) (\<lambda>r. ret (recv_error, r))))) (?P (snd ?a))"
    proof (rule yields_and_then [OF reply_keeps], clarify)
      fix q :: "'w ping_proc" and b
      assume q: "tokens q = tokens (snd ?a)" "rts_schedule (p_rts q) = rts_schedule (p_rts (snd ?a))"
      have "yields (on_rts print_json_packet q) (keeps q)" by (rule on_rts_keeps) (rule print_json_packet_keeps)
      then show "yields (and_then (on_rts print_json_packet q) (\<lambda>p.
          and_then (after_receive fset sock_raw p b) (\<lambda>r. ret (recv_error, r)))) (?P (snd ?a))"
        by (rule yields_and_then) (rule yields_mono [OF after], use q in auto)
    qed
    then show ?thesis using a by (simp add: recv_step_def Pair Inr split_beta)
  qed
qed

lemma recv_phase_keeps: "yields (recv_phase strerror os fset sock_raw fuel polling recv_error p) (keeps p)"
proof (induction fuel arbitrary: polling recv_error p)
  case (Suc fuel)
  show ?case unfolding recv_phase.simps
  proof (rule yields_and_then [OF recv_step_keeps], clarify, intro yields_if)
    fix e brk and q :: "'w ping_proc"
    assume q: "tokens q = tokens p" "rts_schedule (p_rts q) = rts_schedule (p_rts p)"
    then show "yields (ret q) (keeps p)" by simp
    show "yields (recv_phase strerror os fset sock_raw fuel True e q) (keeps p)"
      by (rule yields_mono [OF Suc.IH]) (use q in auto)
  qed
qed simp

lemma pinger_counted: "yields (pinger strerror os fset fuel p) (\<lambda>(q, i). counted p q)"
proof (rule yields_pair_mono [OF pinger_step])
  fix q
  assume step: "if attempts os p then spends (fst (pinger_rate os p)) q else keeps p q"
  show "counted p q"
  proof (cases "attempts os p")
    case False
    then show ?thesis using step by (simp add: keeps_counted)
  next
    case True
    then obtain p1 where rate: "pinger_rate os p = (p1, None)" and more: "\<not> pinger_done (p_rts p)"
      by (cases "pinger_rate os p") (auto simp: attempts_def)
    have p1: "npackets (p_rts p1) = npackets (p_rts p)" "deadline (p_rts p1) = deadline (p_rts p)"
      "ntransmitted (p_rts p1) = ntransmitted (p_rts p)"
      using schedule_eqD [OF pinger_rate_go(1) [OF rate]] by simp_all
    have "spends p1 q" using step True rate by simp
    then have "npackets (p_rts q) = npackets (p_rts p)" "deadline (p_rts q) = deadline (p_rts p)"
      "ntransmitted (p_rts q) \<le> ntransmitted (p_rts p) + 1"
      using p1 schedule_eqD [of "p_rts q" "(p_rts p1)\<lparr>ntransmitted := ntransmitted (p_rts q)\<rparr>"]
      by (auto simp: spends_def)
    with more show ?thesis by (auto simp: counted_def within_count_def pinger_done_def)
  qed
qed

lemma send_phase_counted: "yields (send_phase strerror os fset fuel p) (\<lambda>(q, nxt). counted p q)"
proof (induction fuel arbitrary: p)
  case (Suc fuel)
  show ?case unfolding send_phase.simps
  proof (rule yields_and_then [OF pinger_counted], clarify)
    fix q :: "'w ping_proc" and nxt
    assume q: "counted p q"
    show "yields (and_then (schedule_exit q nxt) (\<lambda>(p, nxt).
        if nxt \<le> 0 then send_phase strerror os fset fuel p else ret (p, nxt))) (\<lambda>(q, nxt). counted p q)"
    proof (rule yields_and_then [OF schedule_exit_keeps], clarify, intro yields_if)
      fix r :: "'w ping_proc" and nxt :: int
      assume "tokens r = tokens q" "rts_schedule (p_rts r) = rts_schedule (p_rts q)"
      then have r: "counted p r" using q keeps_counted [where p = q and q = r] by (auto intro: counted_trans)
      then show "yields (ret (r, nxt)) (\<lambda>(q, nxt). counted p q)" by simp
      show "yields (send_phase strerror os fset fuel r) (\<lambda>(q, nxt). counted p q)"
        by (rule yields_pair_mono [OF Suc.IH]) (rule counted_trans [OF r])
    qed
  qed
qed simp

text \<open>
  If the loop returns, it left at the check at its head, with the exit code of \<open>finish\<close> for the
  state there.
\<close>

lemma main_loop_ends:
  "yields (main_loop strerror os fset sock_raw fin fuel p) (\<lambda>(q, code).
     \<exists>r. counted p r \<and> main_exit (p_rts r) \<and> returns (fin (p_rts r)) (p_rts q, code))"
proof (induction fuel arbitrary: p)
  case (Suc fuel)
  let ?P = "\<lambda>p :: 'w ping_proc. \<lambda>(q :: 'w ping_proc, code).
    \<exists>r. counted p r \<and> main_exit (p_rts r) \<and> returns (fin (p_rts r)) (p_rts q, code)"
  let ?loop = "main_loop strerror os fset sock_raw fin fuel"
  let ?p = "deliver_signals os p"
  have loop: "yields (?loop q) (?P p)" if "counted p q" for q
    by (rule yields_mono [OF Suc.IH]) (use that counted_trans in blast)
  have p: "counted p ?p" by (rule keeps_counted) (rule deliver_signals_keeps)
  show ?case
  proof (cases "main_exit (p_rts ?p)")
    case True
    have "yields (and_then (fin (p_rts ?p)) (\<lambda>(rts, code). ret (?p\<lparr>p_rts := rts\<rparr>, code))) (?P p)"
      using True p by (auto simp: yields_def and_then_def emit_def ret_def returns_def split: sum.splits)
    then show ?thesis using True by (simp add: Let_def)
  next
    case False
    have stat: "yields (if status_snapshot (p_rts ?p) then on_rts status ?p else ret ?p) (keeps ?p)"
      using on_rts_keeps [of status ?p] status_keeps by simp
    have "yields (and_then (if status_snapshot (p_rts ?p) then on_rts status ?p else ret ?p) (\<lambda>p.
        and_then (send_phase strerror os fset fuel p) (\<lambda>(p, next).
          case poll_phase os p next of (r, how) \<Rightarrow>
            and_then r (\<lambda>p. case how of None \<Rightarrow> ?loop p
              | Some (polling, recv_error) \<Rightarrow>
                  and_then (recv_phase strerror os fset sock_raw fuel polling recv_error p) ?loop)))) (?P p)"
    proof (rule yields_and_then [OF stat], rule yields_and_then [OF send_phase_counted], clarify)
      fix s q :: "'w ping_proc" and nxt
      assume "tokens s = tokens ?p" "rts_schedule (p_rts s) = rts_schedule (p_rts ?p)" and "counted s q"
      then have q: "counted p q" using p keeps_counted [where p = ?p and q = s] by (blast intro: counted_trans)
      obtain m how where poll: "poll_phase os q nxt = (m, how)" by fastforce
      have "yields m (keeps q)" using poll_phase_keeps [of os q nxt] poll by simp
      then have "yields (and_then m (\<lambda>p. case how of None \<Rightarrow> ?loop p
          | Some (polling, recv_error) \<Rightarrow>
              and_then (recv_phase strerror os fset sock_raw fuel polling recv_error p) ?loop)) (?P p)"
      proof (rule yields_and_then)
        fix r assume "keeps q r"
        then have r: "counted p r" using q keeps_counted [where p = q and q = r] by (blast intro: counted_trans)
        have "yields (and_then (recv_phase strerror os fset sock_raw fuel b e r) ?loop) (?P p)" for b e
        proof (rule yields_and_then [OF recv_phase_keeps])
          fix s :: "'w ping_proc" assume "keeps r s"
          then show "yields (?loop s) (?P p)" using r keeps_counted [where p = r and q = s] by (blast intro: loop counted_trans)
        qed
        then show "yields (case how of None \<Rightarrow> ?loop r
            | Some (polling, recv_error) \<Rightarrow>
                and_then (recv_phase strerror os fset sock_raw fuel polling recv_error r) ?loop) (?P p)"
          using loop [OF r] by (auto split: option.split)
      qed
      then show "yields (case poll_phase os q nxt of (r, how) \<Rightarrow>
          and_then r (\<lambda>p. case how of None \<Rightarrow> ?loop p
            | Some (polling, recv_error) \<Rightarrow>
                and_then (recv_phase strerror os fset sock_raw fuel polling recv_error p) ?loop)) (?P p)"
        by (simp add: poll)
    qed
    then show ?thesis using False by (simp add: Let_def)
  qed
qed simp

end

subsection \<open>Counting a reply keeps the schedule\<close>

lemma record_trip_keeps [simp]: "rts_schedule (record_trip r t) = rts_schedule r"
  by (simp add: record_trip_def update_interval_def rts_schedule_def Let_def)

lemma count_reply_keeps [simp]: "rts_schedule (fst (count_reply r cs seq)) = rts_schedule r"
  by (simp add: count_reply_def)

lemma trip_pass_keeps:
  assumes "\<And>r. yields (again r) (\<lambda>(s, t). keeps_rts r s)"
  shows "yields (trip_pass again r tv sent) (\<lambda>(s, t). keeps_rts r s)"
proof -
  have restamped: "yields (and_then (ping_error (\<lambda>_. []) r 0 0 msg) (\<lambda>r. if \<not> opt_latency (opts r)
      then again (r\<lparr>opts := opts r\<lparr>opt_latency := True\<rparr>\<rparr>) else ret (r, 0))) (\<lambda>(s, t). keeps_rts r s)" for msg
  proof (rule yields_and_then [OF ping_error_keeps], intro yields_if)
    fix s assume s: "keeps_rts r s"
    then show "yields (again (s\<lparr>opts := opts s\<lparr>opt_latency := True\<rparr>\<rparr>)) (\<lambda>(s, t). keeps_rts r s)"
      using assms [of "s\<lparr>opts := opts s\<lparr>opt_latency := True\<rparr>\<rparr>"] by simp
  qed simp
  show ?thesis unfolding trip_pass_def
    by (rule yields_and_then [where Q = "\<lambda>_. True"]) (simp_all add: yields_def [of _ "\<lambda>_. True"] restamped)
qed

lemma gather_trip_keeps: "yields (gather_trip now r data cc seq cs tv) (\<lambda>(s, t). keeps_rts r s)"
proof -
  have "yields (trip_time now s tv sent) (\<lambda>(s', t). keeps_rts s s')" for s sent
    unfolding trip_time_def by (intro trip_pass_keeps) simp
  then have *: "yields (and_then (trip_time now s tv sent) (\<lambda>(rts, t). ret (if cs then rts else record_trip rts t, t)))
      (\<lambda>(s', t). keeps_rts r s')" if "keeps_rts r s" for s sent
    by (rule yields_and_then) (use that in auto)
  define s where "s = (if cs then r\<lparr>nreceived := nreceived r + 1\<rparr> else acknowledge (r\<lparr>nreceived := nreceived r + 1\<rparr>) seq)"
  have "keeps_rts r s" by (simp add: s_def)
  then show ?thesis using * [of s "read_timeval data"] unfolding gather_trip_def Let_def s_def [symmetric] by simp
qed

lemma reply_line_keeps:
  assumes "\<And>s. yields (pr_reply s) (keeps_rts s)"
  shows "yields (reply_line now r data cc hops cs from pr_reply multi ws dup t) (\<lambda>(s, b). keeps_rts r s)"
proof -
  have pair: "yields (and_then m f) (\<lambda>(s, b). keeps_rts r s)"
    if "yields m (keeps_rts r)" "\<And>s. yields (f s) (\<lambda>(t, b). keeps_rts s t)"
    for m and f :: "ping_rts \<Rightarrow> (ping_rts \<times> int) result" and r
    using that(1) by (rule yields_and_then) (rule yields_pair_mono [OF that(2)], simp)
  have int: "yields (ping_print_int r m k v) (keeps_rts r)" for r m k v
    by (simp add: ping_print_int_def construct_json_keeps)
  have str: "yields (ping_print_str r m k v) (keeps_rts r)" for r m k v
    by (simp add: ping_print_str_def construct_json_keeps)
  have cut: "yields (ping_print_truncated r) (keeps_rts r)" for r
    by (simp add: ping_print_truncated_def construct_json_keeps)
  show ?thesis unfolding reply_line_def
    by (intro pair yields_if print_timestamp_keeps int str cut assms) simp_all
qed

lemma gather_statistics_keeps:
  assumes "\<And>s. yields (pr_reply s) (keeps_rts s)"
  shows "yields (gather_statistics now now' r data cc seq hops cs tv from pr_reply multi ws) (\<lambda>(s, b). keeps_rts r s)"
  unfolding gather_statistics_def
proof (rule yields_and_then [OF gather_trip_keeps], clarify)
  fix s t assume s: "keeps_rts r s"
  obtain c d where c: "count_reply s cs seq = (c, d)" by fastforce
  then have "keeps_rts s c" using count_reply_keeps [of s cs seq] by simp
  then show "yields (let (rts, dupflag) = count_reply s cs seq; rts = rts\<lparr>confirm := confirm_flag rts\<rparr>
      in gather_output now' rts data cc hops cs from pr_reply multi ws dupflag t) (\<lambda>(s, b). keeps_rts r s)"
    using s reply_line_keeps [of pr_reply, OF assms] by (auto simp: c Let_def gather_output_def intro!: yields_pair_mono [OF reply_line_keeps [OF assms]])
qed

end
