(* ===== verification/Ping4.thy ===== *)
theory Ping4
  imports Ping_Schedule Checksum
begin

text \<open>
  The IPv4 side of \<open>ping/ping.c\<close>: what a probe is made of (\<open>ping4_send_probe\<close>), what an answer
  does (\<open>ping4_parse_reply\<close>), errors from the error queue (\<open>ping4_receive_error_msg\<close>), the texts
  (\<open>pr_addr\<close>, \<open>pr_options\<close>, \<open>pr_iph\<close>, \<open>pr_icmph\<close>) and the socket filter.  Packets are byte lists; a
  pointer into a packet is the rest of the list from there on, and reading past its end is
  \<open>Undefined\<close>.
\<close>

abbreviation ICMP_ECHOREPLY :: u8 where "ICMP_ECHOREPLY \<equiv> 0"
abbreviation ICMP_DEST_UNREACH :: u8 where "ICMP_DEST_UNREACH \<equiv> 3"
abbreviation ICMP_SOURCE_QUENCH :: u8 where "ICMP_SOURCE_QUENCH \<equiv> 4"
abbreviation ICMP_REDIRECT :: u8 where "ICMP_REDIRECT \<equiv> 5"
abbreviation ICMP_ECHO :: u8 where "ICMP_ECHO \<equiv> 8"
abbreviation ICMP_TIME_EXCEEDED :: u8 where "ICMP_TIME_EXCEEDED \<equiv> 11"
abbreviation ICMP_PARAMETERPROB :: u8 where "ICMP_PARAMETERPROB \<equiv> 12"

definition is_ours :: "ping_rts \<Rightarrow> bool \<Rightarrow> u16 \<Rightarrow> bool" where
  "is_ours rts sock_raw eid \<longleftrightarrow> \<not> sock_raw \<or> uint eid = ident rts"

subsection \<open>Addresses\<close>

text \<open>
  \<open>_pr_addr\<close>: the text for the address of the last call is kept; otherwise the address, with
  the name before it if names are wanted and it has one.
\<close>

definition pr_addr_resolve :: "'w os \<Rightarrow> bool \<Rightarrow> 'w ping_proc \<Rightarrow> u8 list \<Rightarrow> string \<times> 'w ping_proc" where
  "pr_addr_resolve os resolve_name p sa =
     (let rts = p_rts p; address = os_numeric os sa;
          ((name, interrupted), w) =
            (if \<not> exiting rts \<and> resolve_name \<and> (opt_force_lookup (opts rts) \<or> \<not> opt_numeric (opts rts))
             then os_getname os (world p) sa else (([], False), world p));
          name = (if interrupted then [] else name);
          txt = snprintf_text 4096 (if name \<noteq> [] \<and> name \<noteq> address then name @ '' ('' @ address @ '')'' else address)
      in (txt, p\<lparr>p_rts := rts\<lparr>exiting := exiting rts \<or> interrupted\<rparr>, world := w, last_addr := Some (sa, txt)\<rparr>))"

definition pr_addr_cached :: "'w os \<Rightarrow> bool \<Rightarrow> 'w ping_proc \<Rightarrow> u8 list \<Rightarrow> string \<times> 'w ping_proc" where
  "pr_addr_cached os resolve_name p sa =
     (case last_addr p of
        Some (a, txt) \<Rightarrow> if a = sa then (txt, p) else pr_addr_resolve os resolve_name p sa
      | None \<Rightarrow> pr_addr_resolve os resolve_name p sa)"

definition pr_addr :: "'w os \<Rightarrow> 'w ping_proc \<Rightarrow> u8 list \<Rightarrow> string \<times> 'w ping_proc" where
  "pr_addr os p sa = pr_addr_cached os True p sa"

definition pr_raw_addr :: "'w os \<Rightarrow> 'w ping_proc \<Rightarrow> u8 list \<Rightarrow> string \<times> 'w ping_proc" where
  "pr_raw_addr os p sa = pr_addr_cached os False p sa"

subsection \<open>\<open>pr_options\<close>\<close>

abbreviation tab :: string where "tab \<equiv> [CHR 0x09]"

definition IPOPT_MINOFF :: int where "IPOPT_MINOFF = 4"
definition MAX_IPOPTLEN :: int where "MAX_IPOPTLEN = 40"

text \<open>One address of a route or timestamp option.\<close>

definition pr_route_addr :: "'w os \<Rightarrow> u8 list \<Rightarrow> 'w ping_proc \<Rightarrow> 'w ping_proc result" where
  "pr_route_addr os cp p =
     need 4 cp (if take 4 cp = [0, 0, 0, 0] then print (tab @ ''0.0.0.0'') (ret p)
                else case pr_addr os p (take 4 cp) of (s, p) \<Rightarrow> print (tab @ s) (ret p))"

text \<open>The addresses, a line each; \<open>i\<close> counts down by 4 until it is at most 0.\<close>

function pr_route :: "'w os \<Rightarrow> int \<Rightarrow> u8 list \<Rightarrow> 'w ping_proc \<Rightarrow> 'w ping_proc result" where
  "pr_route os i cp p =
     and_then (pr_route_addr os cp p) (\<lambda>p.
       print newline (if i - 4 \<le> 0 then ret p else pr_route os (i - 4) (drop 4 cp) p))"
  by pat_completeness auto
termination by (relation "measure (\<lambda>(os, i, cp, p). nat i)") auto

declare pr_route.simps [simp del]

text \<open>The data of a source route is printed from the pointer byte of the option on.\<close>

definition pr_source_route :: "'w os \<Rightarrow> u8 list \<Rightarrow> 'w ping_proc \<Rightarrow> 'w ping_proc result" where
  "pr_source_route os opt p =
     print (newline @ (if opt ! 0 = 137 then ''S'' else ''L'') @ ''SRR: '')
       (if uint (opt ! 1) > IPOPT_MINOFF then pr_route os (uint (opt ! 1) - IPOPT_MINOFF) (drop 2 opt) p else ret p)"

definition pr_record_route :: "'w os \<Rightarrow> u8 list \<Rightarrow> 'w ping_proc \<Rightarrow> 'w ping_proc result" where
  "pr_record_route os opt p =
     need 3 opt (let i = min (uint (opt ! 2)) (uint (opt ! 1)) - IPOPT_MINOFF
       in if i \<le> 0 then ret p
          else need (nat (2 + i)) opt (let route_now = take (nat i) (drop 2 opt)
            in if route_now = old_rr p \<and> \<not> opt_flood (opts (p_rts p))
               then print (tab @ ''(same route)'') (ret p)
               else if i > MAX_IPOPTLEN then stop_with Undefined
               else print (newline @ ''RR: '') (pr_route os i (drop 3 opt) (p\<lparr>old_rr := route_now\<rparr>))))"

text \<open>The time stamps: absolute for the first of each kind, then the difference to the last.\<close>

definition stamp_text :: "int \<Rightarrow> int \<Rightarrow> int \<Rightarrow> string \<times> int \<times> int" where
  "stamp_text l stdtime nonstdtime =
     (if l \<ge> 0x80000000
      then let v = l - 0x80000000
           in (if nonstdtime = 0 then tab @ fmt_d v @ '' absolute not-standard''
               else tab @ fmt_d (v - nonstdtime) @ '' not-standard'', stdtime, v)
      else (if stdtime = 0 then tab @ fmt_d l @ '' absolute'' else tab @ fmt_d (l - stdtime), l, nonstdtime))"

function pr_stamps :: "'w os \<Rightarrow> bool \<Rightarrow> int \<Rightarrow> u8 list \<Rightarrow> int \<Rightarrow> int \<Rightarrow> 'w ping_proc \<Rightarrow> 'w ping_proc result" where
  "pr_stamps os addrs i cp stdtime nonstdtime p =
     and_then (if addrs then pr_route_addr os cp p else ret p) (\<lambda>p.
       let cp = (if addrs then drop 4 cp else cp)
       in if addrs \<and> i - 4 \<le> 0 then ret p
          else need 4 cp (case stamp_text (uint (be32 cp)) stdtime nonstdtime of
            (txt, stdtime, nonstdtime) \<Rightarrow>
              print (txt @ newline)
                (if (if addrs then i - 8 else i - 4) \<le> 0 then ret p
                 else pr_stamps os addrs (if addrs then i - 8 else i - 4) (drop 4 cp) stdtime nonstdtime p)))"
  by pat_completeness auto
termination by (relation "measure (\<lambda>(os, addrs, i, cp, s, n, p). nat i)") (auto split: if_splits)

declare pr_stamps.simps [simp del]

definition pr_timestamps :: "'w os \<Rightarrow> u8 list \<Rightarrow> 'w ping_proc \<Rightarrow> 'w ping_proc result" where
  "pr_timestamps os opt p =
     need 3 opt (let i = min (uint (opt ! 2)) (uint (opt ! 1)) - 5
       in if i \<le> 0 then ret p
          else need 4 opt (let flags = opt ! 3
            in print (newline @ ''TS: '')
                 (and_then (pr_stamps os (flags AND 0xF \<noteq> 0) i (drop 4 opt) 0 0 p)
                   (if drop_bit 4 flags \<noteq> 0
                    then print (''Unrecorded hops: '' @ fmt_d (uint (drop_bit 4 flags)) @ newline) \<circ> ret else ret))))"

definition pr_option :: "'w os \<Rightarrow> u8 list \<Rightarrow> 'w ping_proc \<Rightarrow> 'w ping_proc result" where
  "pr_option os opt p =
     (if opt ! 0 = 137 \<or> opt ! 0 = 131 then pr_source_route os opt p
      else if opt ! 0 = 7 then pr_record_route os opt p
      else if opt ! 0 = 68 then pr_timestamps os opt p
      else print (newline @ ''unknown option '' @ fmt_x (unat (opt ! 0))) (ret p))"

function pr_options_loop :: "'w os \<Rightarrow> int \<Rightarrow> u8 list \<Rightarrow> 'w ping_proc \<Rightarrow> 'w ping_proc result" where
  "pr_options_loop os totlen optptr p =
     (if totlen \<le> 0 then ret p
      else need 1 optptr
        (if optptr ! 0 = 0 then ret p
         else if optptr ! 0 = 1 then print (newline @ ''NOP'') (pr_options_loop os (totlen - 1) (drop 1 optptr) p)
         else need 2 optptr (let olen = uint (optptr ! 1)
           in if olen < 2 \<or> olen > totlen then ret p
              else and_then (pr_option os optptr p)
                     (pr_options_loop os (totlen - olen) (drop (nat olen) optptr)))))"
  by pat_completeness auto
termination by (relation "measure (\<lambda>(os, totlen, optptr, p). nat totlen)") auto

declare pr_options_loop.simps [simp del]

definition pr_options :: "'w os \<Rightarrow> u8 list \<Rightarrow> int \<Rightarrow> 'w ping_proc \<Rightarrow> 'w ping_proc result" where
  "pr_options os cp hlen p = pr_options_loop os (hlen - 20) cp p"

text \<open>\<open>pr_iph\<close>: the 16-bit fields are printed as the host reads them.\<close>

definition pr_iph :: "'w os \<Rightarrow> u8 list \<Rightarrow> 'w ping_proc \<Rightarrow> 'w ping_proc result" where
  "pr_iph os ip p =
     need 20 ip (let ihl = ip ! 0 AND 0xF; frag = le16 (ip ! 6) (ip ! 7)
       in print (''Vr HL TOS  Len   ID Flg  off TTL Pro  cks      Src      Dst Data'' @ newline @
            '' '' @ fmt_x (unat (drop_bit 4 (ip ! 0))) @ ''  '' @ fmt_x (unat ihl) @ ''  '' @
            fmt_0x 2 (unat (ip ! 1)) @ '' '' @ fmt_0x 4 (unat (le16 (ip ! 2) (ip ! 3))) @ '' '' @
            fmt_0x 4 (unat (le16 (ip ! 4) (ip ! 5))) @ ''   '' @
            fmt_x (unat (drop_bit 13 (frag AND 0xe000))) @ '' '' @ fmt_0x 4 (unat (frag AND 0x1fff)) @
            ''  '' @ fmt_0x 2 (unat (ip ! 8)) @ ''  '' @ fmt_0x 2 (unat (ip ! 9)) @ '' '' @
            fmt_0x 4 (unat (le16 (ip ! 10) (ip ! 11))) @
            '' '' @ inet_ntoa (take 4 (drop 12 ip)) @ '' '' @ '' '' @ inet_ntoa (take 4 (drop 16 ip)) @ '' '' @ newline)
          (pr_options os (drop 20 ip) (4 * uint ihl) p))"

subsection \<open>\<open>pr_icmph\<close>\<close>

definition unreach_text :: "u8 \<Rightarrow> u32 \<Rightarrow> string" where
  "unreach_text code info =
     (let texts = [''Destination Net Unreachable'', ''Destination Host Unreachable'',
            ''Destination Protocol Unreachable'', ''Destination Port Unreachable'',
            ''Frag needed and DF set (mtu = '' @ fmt_d (uint info) @ '')'', ''Source Route Failed'',
            ''Destination Net Unknown'', ''Destination Host Unknown'', ''Source Host Isolated'',
            ''Destination Net Prohibited'', ''Destination Host Prohibited'',
            ''Destination Net Unreachable for Type of Service'',
            ''Destination Host Unreachable for Type of Service'', ''Packet filtered'',
            ''Precedence Violation'', ''Precedence Cutoff'']
      in (if unat code < length texts then texts ! unat code
          else ''Dest Unreachable, Bad Code: '' @ fmt_d (uint code)) @ newline)"

definition redirect_text :: "u8 \<Rightarrow> string" where
  "redirect_text code =
     (let texts = [''Redirect Network'', ''Redirect Host'', ''Redirect Type of Service and Network'',
            ''Redirect Type of Service and Host'']
      in if unat code < length texts then texts ! unat code else ''Redirect, Bad Code: '' @ fmt_d (uint code))"

definition exceeded_text :: "u8 \<Rightarrow> string" where
  "exceeded_text code =
     (if code = 0 then ''Time to live exceeded'' else if code = 1 then ''Frag reassembly time exceeded''
      else ''Time exceeded, Bad Code: '' @ fmt_d (uint code)) @ newline"

definition message_text :: "u8 \<Rightarrow> string" where
  "message_text type =
     (if type = ICMP_ECHOREPLY then ''Echo Reply'' else if type = ICMP_ECHO then ''Echo Request''
      else if type = 13 then ''Timestamp'' else if type = 14 then ''Timestamp Reply''
      else if type = 15 then ''Information Request'' else if type = 16 then ''Information Reply''
      else if type = 17 then ''Address Mask Request'' else if type = 18 then ''Address Mask Reply''
      else ''Bad ICMP type: '' @ fmt_d (uint type)) @ newline"

text \<open>\<open>icp\<close> is the whole ICMP message, if there is one; with \<open>-v\<close> the IP header in it is shown.\<close>

definition pr_quoted_header :: "'w os \<Rightarrow> u8 list option \<Rightarrow> 'w ping_proc \<Rightarrow> 'w ping_proc result" where
  "pr_quoted_header os icp p =
     (case icp of Some m \<Rightarrow> if opt_verbose (opts (p_rts p)) then pr_iph os (drop 8 m) p else ret p
      | None \<Rightarrow> ret p)"

definition pr_icmph ::
    "'w os \<Rightarrow> u8 \<Rightarrow> u8 \<Rightarrow> u32 \<Rightarrow> u8 list option \<Rightarrow> 'w ping_proc \<Rightarrow> 'w ping_proc result" where
  "pr_icmph os type code info icp p =
     (if type = ICMP_DEST_UNREACH then print (unreach_text code info) (pr_quoted_header os icp p)
      else if type = ICMP_SOURCE_QUENCH then print (''Source Quench'' @ newline) (pr_quoted_header os icp p)
      else if type = ICMP_REDIRECT
      then print (redirect_text code)
             (case pr_addr os p (case icp of Some m \<Rightarrow> take 4 (drop 4 m) | None \<Rightarrow> be32_bytes info) of (s, p) \<Rightarrow>
                print (''(New nexthop: '' @ s @ '')'' @ newline) (pr_quoted_header os icp p))
      else if type = ICMP_TIME_EXCEEDED then print (exceeded_text code) (pr_quoted_header os icp p)
      else if type = ICMP_PARAMETERPROB
      then print (''Parameter problem: pointer = '' @
              fmt_d (case icp of Some m \<Rightarrow> uint (m ! 4) | None \<Rightarrow> uint info) @ newline) (pr_quoted_header os icp p)
      else print (message_text type) (ret p))"

subsection \<open>\<open>ping4_receive_error_msg\<close>\<close>

text \<open>The mask of the ICMP filter: source quench, redirect and echo reply pass.\<close>

definition icmp_filter :: u32 where
  "icmp_filter = NOT (push_bit 4 1 OR push_bit 5 1 OR push_bit 0 1)"

definition local_error :: "(int \<Rightarrow> string) \<Rightarrow> 'w ping_proc \<Rightarrow> extended_err \<Rightarrow> 'w ping_proc result" where
  "local_error strerror p e =
     (let rts = p_rts p
      in if opt_quiet (opts rts) then ret p
         else and_then (if opt_flood (opts rts) then print ''E'' (ret p)
                        else if ee_errno e \<noteq> EMSGSIZE then emit [Diag (ee_errno e) ''local error''] (ret p)
                        else on_rts (\<lambda>rts. ping_error strerror rts 0 0
                               (''local error: message too long, mtu='' @ fmt_d (uint (ee_info e)))) p)
           (ret \<circ> set_rts (\<lambda>rts. rts\<lparr>nerrors := nerrors rts + 1\<rparr>)))"

text \<open>An ICMP error about one of our probes: it is acknowledged, counted and shown.\<close>

definition install_icmp_filter :: "(int \<Rightarrow> string) \<Rightarrow> 'w os \<Rightarrow> bool \<Rightarrow> 'w ping_proc \<Rightarrow> 'w ping_proc result" where
  "install_icmp_filter strerror os sock_raw p =
     (if \<not> sock_raw then ret p
      else case os_setsockopt os (world p) ''ICMP_FILTER'' [uint icmp_filter] of (e, w) \<Rightarrow>
        (if e \<noteq> 0 then on_rts (\<lambda>rts. ping_error strerror rts 2 e ''setsockopt(ICMP_FILTER)'') (p\<lparr>world := w, p_errno := e\<rparr>)
         else ret (p\<lparr>world := w\<rparr>)))"

definition report_net_error :: "'w os \<Rightarrow> 'w ping_proc \<Rightarrow> u16 \<Rightarrow> extended_err \<Rightarrow> 'w ping_proc result" where
  "report_net_error os p seq e =
     (let rts = p_rts p
      in if opt_quiet (opts rts) then ret p
         else if opt_flood (opts rts) then print [CHR 0x08, CHR ''E''] (ret p)
         else and_then (print_timestamp_now os p) (\<lambda>p.
              case pr_addr os p (ee_offender e) of (s, p) \<Rightarrow>
                and_then (on_rts (\<lambda>rts. ping_print_error_packet rts s (ucast seq)) p)
                  (pr_icmph os (ee_type e) (ee_code e) (ee_info e) None)))"

definition net_error ::
    "(int \<Rightarrow> string) \<Rightarrow> 'w os \<Rightarrow> bool \<Rightarrow> 'w ping_proc \<Rightarrow> u16 \<Rightarrow> extended_err \<Rightarrow> 'w ping_proc result" where
  "net_error strerror os sock_raw p seq e =
     and_then (install_icmp_filter strerror os sock_raw (set_rts (\<lambda>rts. acknowledge rts seq) p)) (\<lambda>p.
       report_net_error os (set_rts (\<lambda>rts. rts\<lparr>nerrors := nerrors rts + 1\<rparr>) p) seq e)"

text \<open>The error is about a probe of this process: the quoted header is that of an echo request.\<close>

definition own_error :: "ping_rts \<Rightarrow> bool \<Rightarrow> error_message \<Rightarrow> bool" where
  "own_error rts sock_raw em \<longleftrightarrow>
     length (em_data em) \<ge> 8 \<and> em_target em = le32_bytes (whereto rts) \<and> em_data em ! 0 = ICMP_ECHO \<and>
     is_ours rts sock_raw (le16 (em_data em ! 4) (em_data em ! 5))"

definition ping4_receive_error_msg ::
    "(int \<Rightarrow> string) \<Rightarrow> 'w os \<Rightarrow> bool \<Rightarrow> 'w ping_proc \<Rightarrow> ('w ping_proc \<times> int) result" where
  "ping4_receive_error_msg strerror os sock_raw p =
     (let saved_errno = p_errno p
      in case os_recverr os (world p) of
           (Inl e, w) \<Rightarrow> ret (p\<lparr>world := w, p_errno := saved_errno\<rparr>, if e = EAGAIN \<or> e = EINTR then - 1 else 0)
         | (Inr em, w) \<Rightarrow> let p = p\<lparr>world := w\<rparr>
             in case em_err em of
                  None \<Rightarrow> stop_with Abort
                | Some e \<Rightarrow>
                    if ee_origin e = SO_EE_ORIGIN_LOCAL
                    then and_then (local_error strerror p e) (\<lambda>p. ret (p\<lparr>p_errno := saved_errno\<rparr>, - 1))
                    else if ee_origin e = SO_EE_ORIGIN_ICMP
                    then if \<not> own_error (p_rts p) sock_raw em then ret (p\<lparr>p_errno := 0\<rparr>, 0)
                         else and_then (net_error strerror os sock_raw p (be16 (em_data em ! 6) (em_data em ! 7)) e)
                                (\<lambda>p. ret (p\<lparr>p_errno := saved_errno\<rparr>, 1))
                    else ret (p\<lparr>p_errno := saved_errno\<rparr>, 0))"

subsection \<open>\<open>ping4_send_probe\<close>\<close>

text \<open>The ICMP header with a zero checksum: the identifier as stored, the sequence number in network order.\<close>

definition echo_header :: "int \<Rightarrow> u16 \<Rightarrow> u8 list" where
  "echo_header ident_no seq = [ICMP_ECHO, 0, 0, 0] @ le16_bytes (to_u16 ident_no) @ be16_bytes seq"

text \<open>
  The packet is built in \<open>outpack\<close>.  With \<open>-U\<close> the time is in the packet before the checksum is
  computed; otherwise the checksum is computed over a zero time and continued over the time.
\<close>

definition stamp_probe :: "'w os \<Rightarrow> int \<Rightarrow> u8 list \<Rightarrow> 'w ping_proc \<Rightarrow> u8 list \<times> 'w ping_proc" where
  "stamp_probe os cc pkt p =
     (let rts = p_rts p
      in if timing rts
         then if opt_latency (opts rts)
              then case time_if os True p of (now, p) \<Rightarrow>
                     let pkt = splice 8 (timeval_bytes now) pkt
                     in (splice 2 (le16_bytes (in_cksum (take (nat cc) pkt) 0)) pkt, p)
              else let pkt = splice 8 (zeros 16) pkt; sum1 = in_cksum (take (nat cc) pkt) 0
                   in case time_if os True p of (now, p) \<Rightarrow>
                        (splice 2 (le16_bytes (in_cksum (timeval_bytes now) (NOT sum1)))
                           (splice 8 (timeval_bytes now) pkt), p)
         else (splice 2 (le16_bytes (in_cksum (take (nat cc) pkt) 0)) pkt, p))"

definition ping4_send_probe :: "'w os \<Rightarrow> 'w ping_proc \<Rightarrow> ('w ping_proc \<times> int) result" where
  "ping4_send_probe os p =
     (let p = set_rts (\<lambda>rts. rcvd_clear rts (to_u16 (ntransmitted rts + 1))) p; rts = p_rts p;
          cc = datalen rts + 8;
          pkt = splice 0 (echo_header (ident rts) (to_u16 (ntransmitted rts + 1))) (outpack rts)
      in need (max 24 (nat cc)) (outpack rts)
           (case stamp_probe os cc pkt p of (pkt, p) \<Rightarrow>
            case os_sendto os (world p) (take (nat cc) pkt) of ((i, e), w) \<Rightarrow>
              ret (set_rts (\<lambda>rts. rts\<lparr>outpack := pkt\<rparr>) p\<lparr>world := w, p_errno := if i < 0 then e else p_errno p\<rparr>,
                   if i = cc then 0 else i)))"

subsection \<open>\<open>ping4_parse_reply\<close>\<close>

text \<open>
  \<open>gather_statistics\<close> with its clock: the time is read again only when it went back, and when
  the line starts with a time.
\<close>

definition restamps :: "ping_rts \<Rightarrow> u8 list \<Rightarrow> int \<Rightarrow> timeval \<Rightarrow> bool" where
  "restamps rts data cc tv \<longleftrightarrow>
     timed rts cc \<and> \<not> opt_latency (opts rts) \<and> tv_sec (tvsub tv (read_timeval data)) < 0"

definition gather ::
    "'w os \<Rightarrow> 'w ping_proc \<Rightarrow> u8 list \<Rightarrow> int \<Rightarrow> u16 \<Rightarrow> int \<Rightarrow> bool \<Rightarrow> timeval \<Rightarrow> string \<Rightarrow>
     (ping_rts \<Rightarrow> ping_rts result) \<Rightarrow> bool \<Rightarrow> bool \<Rightarrow> ('w ping_proc \<times> int) result" where
  "gather os p data cc seq hops csfailed tv from pr_reply multi wrong_source =
     (let rts = p_rts p in
      case time_if os (restamps rts data cc tv) p of (now, p) \<Rightarrow>
      case time_if os (opt_ptimeofday (opts rts) \<and> \<not> opt_quiet (opts rts) \<and> \<not> opt_flood (opts rts)) p of (now', p) \<Rightarrow>
        and_then (gather_statistics now now' (p_rts p) data cc seq hops csfailed tv from pr_reply multi wrong_source)
          (\<lambda>(rts, r). ret (p\<lparr>p_rts := rts\<rparr>, r)))"

definition pr_echo_reply :: "u8 list \<Rightarrow> ping_rts \<Rightarrow> ping_rts result" where
  "pr_echo_reply icp rts =
     ping_print_uint rts (\<lambda>u. '' icmp_seq='' @ fmt_d (uint u)) ''seq'' (ucast (be16 (icp ! 6) (icp ! 7)))"

text \<open>
  An echo reply that is ours (the flag of the result is the return value \<open>not_ours\<close>): the line is
  completed with the bell and the options unless \<open>gather_statistics\<close> returned 1.
\<close>

definition finish_reply :: "'w os \<Rightarrow> u8 list \<Rightarrow> int \<Rightarrow> 'w ping_proc \<Rightarrow> ('w ping_proc \<times> bool) result" where
  "finish_reply os ip_opts olen p =
     print (if opt_audible (opts (p_rts p)) then [CHR 0x07] else [])
       (if opt_flood (opts (p_rts p)) then ret (p, False)
        else and_then (pr_options os ip_opts (olen + 20) p) (\<lambda>p.
             and_then (on_rts ping_finish_line p) (\<lambda>p. ret (p, False))))"

definition parse_echo_reply ::
    "'w os \<Rightarrow> bool \<Rightarrow> 'w ping_proc \<Rightarrow> u8 list \<Rightarrow> int \<Rightarrow> int \<Rightarrow> bool \<Rightarrow> u8 list \<Rightarrow> int \<Rightarrow> u8 list \<Rightarrow> timeval \<Rightarrow>
     ('w ping_proc \<times> bool) result" where
  "parse_echo_reply os sock_raw p icp cc reply_ttl csfailed ip_opts olen from tv =
     (let rts = p_rts p
      in if \<not> is_ours rts sock_raw (le16 (icp ! 4) (icp ! 5)) then ret (p, True)
         else case pr_addr os p from of (s, p) \<Rightarrow>
           and_then (gather os p (drop 8 icp) cc (be16 (icp ! 6) (icp ! 7)) reply_ttl csfailed tv s
               (pr_echo_reply icp) (multicast rts)
               (\<not> broadcast_pings rts \<and> \<not> multicast rts \<and> from \<noteq> le32_bytes (whereto rts)))
             (\<lambda>(p, r). if r \<noteq> 0 then ret (p, False) else finish_reply os ip_opts olen p))"

text \<open>An ICMP error: it is about a probe of ours if the packet it quotes is one.\<close>

definition parse_error_reply ::
    "'w os \<Rightarrow> bool \<Rightarrow> 'w ping_proc \<Rightarrow> u8 list \<Rightarrow> int \<Rightarrow> bool \<Rightarrow> u8 list \<Rightarrow> ('w ping_proc \<times> bool) result" where
  "parse_error_reply os sock_raw p icp cc csfailed from =
     need 9 icp (let rts = p_rts p; iph = drop 8 icp; ihl4 = 4 * unat (iph ! 0 AND 0xF); icp1 = drop ihl4 iph
       in if cc < 8 + 20 + 8 \<or> cc < 8 + int ihl4 + 8 then ret (p, True)
          else need (max 20 (ihl4 + 8)) iph
            (if icp1 ! 0 \<noteq> ICMP_ECHO \<or> take 4 (drop 16 iph) \<noteq> le32_bytes (whereto rts) \<or>
                \<not> is_ours rts sock_raw (le16 (icp1 ! 4) (icp1 ! 5)) then ret (p, True)
             else if icp ! 0 \<noteq> ICMP_REDIRECT \<and> icp ! 0 \<noteq> ICMP_SOURCE_QUENCH
             then ret (set_rts (\<lambda>rts. acknowledge rts (be16 (icp1 ! 6) (icp1 ! 7))) p, False)
             else if opt_quiet (opts rts) \<or> opt_flood (opts rts) then ret (p, True)
             else and_then (print_timestamp_now os p) (\<lambda>p.
               case pr_addr os p from of (s, p) \<Rightarrow>
                 print (''From '' @ s @ '': icmp_seq='' @ fmt_d (uint (be16 (icp1 ! 6) (icp1 ! 7))) @ '' '' @
                        (if csfailed then ''(BAD CHECKSUM)'' else []))
                   (and_then (pr_icmph os (icp ! 0) (icp ! 1) (be32 (drop 4 icp)) (Some icp) p)
                     (\<lambda>p. ret (p, True))))))"

text \<open>Any other ICMP message; it is shown only with \<open>-v\<close> and for root.\<close>

definition parse_other ::
    "'w os \<Rightarrow> 'w ping_proc \<Rightarrow> u8 list \<Rightarrow> bool \<Rightarrow> u8 list \<Rightarrow> ('w ping_proc \<times> bool) result" where
  "parse_other os p icp csfailed from =
     (let rts = p_rts p
      in if opt_flood (opts rts) \<and> \<not> (opt_verbose (opts rts) \<or> opt_quiet (opts rts))
         then print (if csfailed then ''!EC'' else ''!E'') (ret (p, False))
         else if \<not> opt_verbose (opts rts) \<or> uid rts \<noteq> 0 then ret (p, False)
         else case time_if os (opt_ptimeofday (opts rts)) p of (now, p) \<Rightarrow>
              print (if opt_ptimeofday (opts rts)
                     then fmt_d (uint (word_of_int (tv_sec now) :: u64)) @ ''.'' @
                          fmt_0d 6 (uint (word_of_int (tv_usec now) :: u64)) @ '' '' else [])
                (case pr_addr os p from of (s, p) \<Rightarrow>
                   print (''From '' @ s @ '': '')
                     (if csfailed then print (''(BAD CHECKSUM)'' @ newline) (ret (p, False))
                      else and_then (pr_icmph os (icp ! 0) (icp ! 1) (be32 (drop 4 icp)) (Some icp) p)
                             (\<lambda>p. ret (p, False)))))"

definition is_error_type :: "u8 \<Rightarrow> bool" where
  "is_error_type t \<longleftrightarrow> t = ICMP_SOURCE_QUENCH \<or> t = ICMP_REDIRECT \<or> t = ICMP_DEST_UNREACH \<or>
     t = ICMP_TIME_EXCEEDED \<or> t = ICMP_PARAMETERPROB"

text \<open>The ICMP part, from the header on; \<open>cc\<close> bytes of it were received.\<close>

definition parse_icmp ::
    "'w os \<Rightarrow> bool \<Rightarrow> 'w ping_proc \<Rightarrow> u8 list \<Rightarrow> int \<Rightarrow> int \<Rightarrow> u8 list \<Rightarrow> int \<Rightarrow> u8 list \<Rightarrow> timeval \<Rightarrow>
     ('w ping_proc \<times> bool) result" where
  "parse_icmp os sock_raw p icp cc reply_ttl ip_opts olen from tv =
     need (max 8 (nat cc)) icp (let csfailed = (in_cksum (take (nat cc) icp) 0 \<noteq> 0)
       in if icp ! 0 = ICMP_ECHOREPLY
          then parse_echo_reply os sock_raw p icp cc reply_ttl csfailed ip_opts olen from tv
          else if icp ! 0 = ICMP_ECHO then ret (p, True)
          else if is_error_type (icp ! 0) then parse_error_reply os sock_raw p icp cc csfailed from
          else parse_other os p icp csfailed from)"

text \<open>
  On a raw socket the message starts with the IP header; on a datagram socket the \<open>ttl\<close> and the
  options come as control data, of which the last of each kind counts.
\<close>

definition ping4_parse_reply ::
    "(int \<Rightarrow> string) \<Rightarrow> 'w os \<Rightarrow> bool \<Rightarrow> 'w ping_proc \<Rightarrow> message \<Rightarrow> timeval \<Rightarrow> ('w ping_proc \<times> bool) result" where
  "ping4_parse_reply strerror os sock_raw p m tv =
     (let buf = msg_buf m; from = msg_name m
      in if sock_raw
         then need 1 buf (let ihl = uint (buf ! 0 AND 0xF); hlen = 4 * ihl
           in if msg_cc m < hlen + 8 \<or> ihl < 5
              then if opt_verbose (opts (p_rts p))
                   then case pr_addr os p from of (s, p) \<Rightarrow>
                     and_then (on_rts (\<lambda>rts. ping_error strerror rts 0 0
                         (''packet too short ('' @ fmt_d (msg_cc m) @ '' bytes) from '' @ s)) p) (\<lambda>p. ret (p, True))
                   else ret (p, True)
              else need 9 buf (parse_icmp os True p (drop (nat hlen) buf) (msg_cc m - hlen) (uint (buf ! 8))
                     (drop 20 buf) (hlen - 20) from tv))
         else parse_icmp os False p buf (msg_cc m) (if msg_ttl m = [] then 0 else last (msg_ttl m))
                (case msg_retopts m of Some (opt_bytes, n) \<Rightarrow> opt_bytes | None \<Rightarrow> buf)
                (case msg_retopts m of Some (opt_bytes, n) \<Rightarrow> n | None \<Rightarrow> 0) from tv)"

subsection \<open>\<open>ping4_install_filter\<close> and the rest of the function table\<close>

text \<open>The instructions of the socket filters that the code uses, for IPv4 and IPv6.\<close>

datatype bpf_insn =
    BPF_LDX_MSH nat
  | BPF_LD_H_IND nat
  | BPF_LD_B_IND nat
  | BPF_LD_H_ABS nat
  | BPF_LD_B_ABS nat
  | BPF_JEQ u32 nat nat
  | BPF_RET u32

definition filter_insns :: "u32 \<Rightarrow> bpf_insn list" where
  "filter_insns k = [BPF_LDX_MSH 0, BPF_LD_H_IND 4, BPF_JEQ k 0 1, BPF_RET (- 1), BPF_LD_B_IND 0,
     BPF_JEQ (ucast ICMP_ECHOREPLY) 1 0, BPF_RET 0xFFFFFFF, BPF_RET 0]"

definition ping4_filter :: "ping_rts \<Rightarrow> bpf_insn list" where
  "ping4_filter rts = filter_insns (ucast (htons (to_u16 (ident rts))))"

definition ping4_install_filter ::
    "(int \<Rightarrow> string) \<Rightarrow> 'w os \<Rightarrow> 'w ping_proc \<Rightarrow> 'w ping_proc result" where
  "ping4_install_filter strerror os p =
     (if filtered p then ret p
      else case os_setsockopt os (world p) ''SO_ATTACH_FILTER'' [uint (htons (to_u16 (ident (p_rts p))))] of (e, w) \<Rightarrow>
        let p = p\<lparr>filtered := True, world := w\<rparr>
        in if e \<noteq> 0
           then on_rts (\<lambda>rts. ping_error strerror rts 0 e ''WARNING: failed to install socket filter'') (p\<lparr>p_errno := e\<rparr>)
           else ret p)"

definition ping4_data_bytes :: "ping_rts \<Rightarrow> int" where
  "ping4_data_bytes rts = datalen rts + 8 + optlen rts + 20"

definition ping4_print_data_bytes :: "ping_rts \<Rightarrow> int \<Rightarrow> string" where
  "ping4_print_data_bytes rts bytes = fmt_d (datalen rts) @ ''('' @ fmt_d bytes @ '') bytes of data.'' @ newline"

definition ping4_source :: "ping_rts \<Rightarrow> string" where
  "ping4_source rts = inet_ntoa (le32_bytes (source rts))"

definition ping4_target :: "ping_rts \<Rightarrow> string" where
  "ping4_target rts = inet_ntoa (le32_bytes (whereto rts))"

definition ping4_func_set :: "(int \<Rightarrow> string) \<Rightarrow> 'w os \<Rightarrow> bool \<Rightarrow> 'w ping_func_set_st" where
  "ping4_func_set strerror os sock_raw =
     \<lparr>send_probe = ping4_send_probe os, receive_error_msg = ping4_receive_error_msg strerror os sock_raw,
      parse_reply = ping4_parse_reply strerror os sock_raw, install_filter = ping4_install_filter strerror os\<rparr>"

subsection \<open>The functions of IPv4 keep the schedule\<close>

lemma pr_addr_keeps:
  "tokens (snd (pr_addr os p sa)) = tokens p" "rts_schedule (p_rts (snd (pr_addr os p sa))) = rts_schedule (p_rts p)"
  by (auto simp: pr_addr_def pr_addr_cached_def pr_addr_resolve_def Let_def split: prod.splits option.splits)

lemma with_addr_keeps:
  assumes "\<And>s q. keeps p q \<Longrightarrow> yields (f s q) P"
  shows "yields (case pr_addr os p sa of (s, q) \<Rightarrow> f s q) P"
  using assms pr_addr_keeps [of os p sa] by (cases "pr_addr os p sa") simp

lemma keeps_step: "yields (f q) (keeps q) \<Longrightarrow> keeps p q \<Longrightarrow> yields (f q) (keeps p)"
  by (erule yields_mono) simp

lemma pr_route_addr_keeps [keeps_intros]: "yields (pr_route_addr os cp p) (keeps p)"
  by (auto simp: pr_route_addr_def intro!: with_addr_keeps)

lemma pr_route_keeps [keeps_intros]: "yields (pr_route os i cp p) (keeps p)"
proof (induction os i cp p rule: pr_route.induct)
  case (1 os i cp p)
  then show ?case
    by (subst pr_route.simps) (rule keeps_seq [OF pr_route_addr_keeps], simp)
qed

lemma pr_stamps_keeps [keeps_intros]: "yields (pr_stamps os addrs i cp st nst p) (keeps p)"
proof (induction "nat i" arbitrary: addrs i cp st nst p rule: less_induct)
  case less
  have "yields (if addrs then pr_route_addr os cp p else ret p) (keeps p)" by (simp add: keeps_intros)
  then show ?case
    by (subst pr_stamps.simps, rule keeps_seq) (auto simp: Let_def intro!: less split: prod.split)
qed

lemma pr_option_keeps [keeps_intros]: "yields (pr_option os opt p) (keeps p)"
proof -
  have rr: "yields (pr_route os i cp (p\<lparr>old_rr := rr\<rparr>)) (keeps p)" for i cp rr
    using pr_route_keeps [of os i cp "p\<lparr>old_rr := rr\<rparr>"] by simp
  have "yields (and_then (pr_stamps os b i cp 0 0 p) (if c then print s \<circ> ret else ret)) (keeps p)" for b i cp c s
    by (rule keeps_seq [OF pr_stamps_keeps]) simp
  then show ?thesis
    by (simp add: pr_option_def pr_source_route_def pr_record_route_def pr_timestamps_def Let_def rr keeps_intros)
qed

lemma pr_options_loop_keeps [keeps_intros]: "yields (pr_options_loop os n opt p) (keeps p)"
proof (induction "nat n" arbitrary: n opt p rule: less_induct)
  case less
  have opt: "yields (and_then (pr_option os opt p) (pr_options_loop os (n - uint (opt ! 1)) m)) (keeps p)"
    if "\<not> uint (opt ! 1) < 2" "\<not> n \<le> 0" for m
    by (rule keeps_seq [OF pr_option_keeps]) (rule less, use that in simp)
  have "yields (pr_options_loop os (n - 1) m p) (keeps p)" if "\<not> n \<le> 0" for m
    by (rule less) (use that in simp)
  with opt show ?case by (subst pr_options_loop.simps) (simp add: Let_def)
qed

lemma pr_iph_keeps [keeps_intros]: "yields (pr_iph os ip p) (keeps p)"
  by (simp add: pr_iph_def pr_options_def Let_def keeps_intros)

lemma pr_quoted_header_keeps [keeps_intros]: "yields (pr_quoted_header os icp p) (keeps p)"
  by (simp add: pr_quoted_header_def keeps_intros split: option.split)

lemma pr_icmph_keeps [keeps_intros]: "yields (pr_icmph os type code info icp p) (keeps p)"
  unfolding pr_icmph_def
  by (auto simp: keeps_intros intro!: with_addr_keeps keeps_step [OF pr_quoted_header_keeps])

lemma stamp_probe_keeps:
  "tokens (snd (stamp_probe os cc pkt p)) = tokens p" "p_rts (snd (stamp_probe os cc pkt p)) = p_rts p"
  by (auto simp: stamp_probe_def Let_def time_if_def split: prod.splits)

lemma ping4_send_probe_keeps: "yields (ping4_send_probe os p) (\<lambda>(q, i). keeps p q)"
proof -
  let ?p = "set_rts (\<lambda>rts. rcvd_clear rts (to_u16 (ntransmitted rts + 1))) p"
  have "keeps p ?p" by (simp add: set_rts_def)
  then have "yields (case x of (pkt, q) \<Rightarrow> case os_sendto os (world q) (take n pkt) of ((i, e), w) \<Rightarrow>
      ret (set_rts (\<lambda>rts. rts\<lparr>outpack := pkt\<rparr>) q\<lparr>world := w, p_errno := if i < 0 then e else p_errno q\<rparr>, k i))
      (\<lambda>(q, i). keeps p q)" if "x = stamp_probe os cc pkt0 ?p" for x n k cc pkt0
    using stamp_probe_keeps [of os cc pkt0 ?p] that by (auto simp: set_rts_def split: prod.split)
  from this [OF refl] have "max 24 c \<le> l \<longrightarrow> yields (case stamp_probe os cc pkt0 ?p of (pkt, q) \<Rightarrow>
      case os_sendto os (world q) (take n pkt) of ((i, e), w) \<Rightarrow>
      ret (set_rts (\<lambda>rts. rts\<lparr>outpack := pkt\<rparr>) q\<lparr>world := w, p_errno := if i < 0 then e else p_errno q\<rparr>, k i))
      (\<lambda>(q, i). keeps p q)" for c l cc pkt0 n k by (rule impI)
  then show ?thesis unfolding ping4_send_probe_def Let_def yields_need .
qed

lemma with_time_keeps:
  assumes "\<And>t q. keeps p q \<Longrightarrow> yields (f t q) P"
  shows "yields (case time_if os b p of (t, q) \<Rightarrow> f t q) P"
  using assms time_if_sel [of os b p] by (cases "time_if os b p") simp

lemma gather_keeps:
  assumes "\<And>s. yields (pr_reply s) (keeps_rts s)"
  shows "yields (gather os p data cc seq hops cs tv from pr_reply multi ws) (\<lambda>(q, r). keeps p q)"
proof -
  have "yields (and_then (gather_statistics now now' (p_rts q) data cc seq hops cs tv from pr_reply multi ws)
      (\<lambda>(rts, r). ret (q\<lparr>p_rts := rts\<rparr>, r))) (\<lambda>(r, i). keeps p r)" if "keeps p q" for now now' q
    by (rule yields_and_then [OF gather_statistics_keeps [OF assms]]) (use that in auto)
  then show ?thesis unfolding gather_def Let_def by (intro with_time_keeps) simp
qed

lemma keeps_pair_step: "yields m (\<lambda>(r, b). keeps q r) \<Longrightarrow> keeps p q \<Longrightarrow> yields m (\<lambda>(r, b). keeps p r)"
  by (erule yields_pair_mono) simp

lemma finish_reply_keeps: "yields (finish_reply os ops n p) (\<lambda>(q, b). keeps p q)"
proof -
  have "yields (on_rts ping_finish_line q) (keeps q)" for q :: "'a ping_proc"
    by (rule on_rts_keeps) (simp add: ping_finish_line_def)
  then have "yields (and_then (on_rts ping_finish_line q) (\<lambda>p. ret (p, False))) (\<lambda>(r, b). keeps q r)" for q :: "'a ping_proc"
    by (rule keeps_then_ret) simp
  then have "yields (and_then (pr_options os ops (n + 20) p) (\<lambda>p. and_then (on_rts ping_finish_line p) (\<lambda>p. ret (p, False))))
      (\<lambda>(r, b). keeps p r)"
    by (intro yields_and_then [of "pr_options os ops (n + 20) p" "keeps p"]) (auto simp: pr_options_def keeps_intros intro: keeps_pair_step)
  then show ?thesis by (simp add: finish_reply_def)
qed

lemma icmph_then: "yields (and_then (pr_icmph os ty co info icp p) (\<lambda>p. ret (p, b))) (\<lambda>(r, b). keeps p r)"
  by (rule keeps_then_ret [OF pr_icmph_keeps]) simp

lemma parse_echo_reply_keeps:
  "yields (parse_echo_reply os raw p icp cc rttl cs ops n from tv) (\<lambda>(q, b). keeps p q)"
proof -
  have echo: "yields (pr_echo_reply icp s) (keeps_rts s)" for s
    by (simp add: pr_echo_reply_def ping_print_uint_def construct_json_keeps)
  have "yields (and_then (gather os q (drop 8 icp) cc seq rttl cs tv s (pr_echo_reply icp) multi ws)
      (\<lambda>(p, r). if r \<noteq> 0 then ret (p, False) else finish_reply os ops n p)) (\<lambda>(r, b). keeps p r)"
    if "keeps p q" for q seq s multi ws
    by (rule yields_and_then [OF gather_keeps [OF echo]])
      (use that in \<open>auto intro: keeps_pair_step [OF finish_reply_keeps]\<close>)
  then show ?thesis unfolding parse_echo_reply_def Let_def by (auto intro!: with_addr_keeps)
qed

lemma parse_error_reply_keeps: "yields (parse_error_reply os raw p icp cc cs from) (\<lambda>(q, b). keeps p q)"
proof -
  have "yields (and_then (print_timestamp_now os p) (\<lambda>p. case pr_addr os p from of (s, p) \<Rightarrow>
      print (msg s) (and_then (pr_icmph os ty co info icmp p) (\<lambda>p. ret (p, True))))) (\<lambda>(q, b). keeps p q)"
    for msg ty co info icmp
    by (rule yields_and_then [OF print_timestamp_now_keeps])
      (auto intro!: with_addr_keeps keeps_pair_step [OF icmph_then])
  then show ?thesis by (simp add: parse_error_reply_def Let_def set_rts_def)
qed

lemma parse_other_keeps: "yields (parse_other os p icp cs from) (\<lambda>(q, b). keeps p q)"
  unfolding parse_other_def Let_def
  by (auto intro!: with_time_keeps with_addr_keeps keeps_pair_step [OF icmph_then])

lemma parse_icmp_keeps: "yields (parse_icmp os raw p icp cc rttl ops n from tv) (\<lambda>(q, b). keeps p q)"
  by (simp add: parse_icmp_def Let_def parse_echo_reply_keeps parse_error_reply_keeps parse_other_keeps)

lemma ping4_parse_reply_keeps: "yields (ping4_parse_reply strerror os raw p m tv) (\<lambda>(q, b). keeps p q)"
proof -
  have err: "yields (and_then (on_rts (\<lambda>rts. ping_error strerror rts 0 0 msg) q) (\<lambda>p. ret (p, True)))
      (\<lambda>(r, b). keeps p r)" if "keeps p q" for msg q
    by (rule keeps_pair_step [OF keeps_then_ret that], rule on_rts_keeps, rule ping_error_keeps) simp
  have "yields (case pr_addr os p sa of (s, q) \<Rightarrow>
      and_then (on_rts (\<lambda>rts. ping_error strerror rts 0 0 (msg s)) q) (\<lambda>p. ret (p, True))) (\<lambda>(r, b). keeps p r)"
    for sa msg
    by (rule with_addr_keeps) (rule err)
  then show ?thesis unfolding ping4_parse_reply_def Let_def
    by (intro yields_if parse_icmp_keeps, simp_all only: yields_need)
      (intro impI yields_if parse_icmp_keeps, auto simp: parse_icmp_keeps)
qed

lemma install_icmp_filter_keeps: "yields (install_icmp_filter strerror os raw p) (keeps p)"
proof -
  have "yields (on_rts (\<lambda>rts. ping_error strerror rts 2 e msg) q) (keeps p)" if "keeps p q" for e msg q
    by (rule keeps_step [OF _ that], rule on_rts_keeps, rule ping_error_keeps)
  then show ?thesis by (simp add: install_icmp_filter_def split: prod.split)
qed

lemma report_net_error_keeps: "yields (report_net_error os p seq e) (keeps p)"
proof -
  have err: "yields (ping_print_error_packet rts s c) (keeps_rts rts)" for rts s c
    by (simp add: ping_print_error_packet_def)
  have "yields (case pr_addr os q sa of (s, p) \<Rightarrow> and_then (on_rts (\<lambda>rts. ping_print_error_packet rts s c) p)
      (pr_icmph os ty co info None)) (keeps q)" for q sa c ty co info
    by (rule with_addr_keeps, rule keeps_step, rule keeps_seq, rule on_rts_keeps, rule err, rule pr_icmph_keeps)
  then have "yields (and_then (print_timestamp_now os p) (\<lambda>q. case pr_addr os q sa of (s, p) \<Rightarrow>
      and_then (on_rts (\<lambda>rts. ping_print_error_packet rts s c) p) (pr_icmph os ty co info None))) (keeps p)"
    for sa c ty co info
    by (intro keeps_seq [OF print_timestamp_now_keeps])
  then show ?thesis by (simp add: report_net_error_def Let_def)
qed

lemma net_error_keeps: "yields (net_error strerror os raw p seq e) (keeps p)"
proof -
  let ?p = "set_rts (\<lambda>rts. acknowledge rts seq) p"
  have "yields (report_net_error os (set_rts (\<lambda>rts. rts\<lparr>nerrors := nerrors rts + 1\<rparr>) q) seq e) (keeps q)" for q :: "'a ping_proc"
    using report_net_error_keeps [of os "set_rts (\<lambda>rts. rts\<lparr>nerrors := nerrors rts + 1\<rparr>) q"] by (simp add: set_rts_def)
  then have "yields (net_error strerror os raw p seq e) (keeps ?p)"
    unfolding net_error_def by (intro keeps_seq install_icmp_filter_keeps)
  then show ?thesis by (simp add: set_rts_def)
qed

lemma local_error_keeps: "yields (local_error strerror p e) (keeps p)"
proof -
  have "yields (on_rts (\<lambda>rts. ping_error strerror rts 0 0 msg) p) (keeps p)" for msg
    by (rule on_rts_keeps) (rule ping_error_keeps)
  then have "yields (and_then (if c then print s (ret p) else if d then emit es (ret p)
      else on_rts (\<lambda>rts. ping_error strerror rts 0 0 msg) p)
      (ret \<circ> set_rts (\<lambda>rts. rts\<lparr>nerrors := nerrors rts + 1\<rparr>))) (keeps p)" for c d s es msg
    by (intro keeps_seq) (simp_all add: set_rts_def)
  then show ?thesis by (simp add: local_error_def Let_def)
qed

lemma ping4_receive_error_msg_keeps: "yields (ping4_receive_error_msg strerror os raw p) (\<lambda>(q, i). keeps p q)"
proof -
  have "yields (and_then (local_error strerror (p\<lparr>world := w\<rparr>) e) (\<lambda>p. ret (p\<lparr>p_errno := er\<rparr>, - 1))) (\<lambda>(r, i). keeps p r)"
    for w e er
    by (rule yields_and_then [OF local_error_keeps]) auto
  moreover have "yields (and_then (net_error strerror os raw (p\<lparr>world := w\<rparr>) seq e) (\<lambda>p. ret (p\<lparr>p_errno := er\<rparr>, 1)))
      (\<lambda>(r, i). keeps p r)" for w seq e er
    by (rule yields_and_then [OF net_error_keeps]) auto
  ultimately show ?thesis
    by (auto simp: ping4_receive_error_msg_def Let_def split: prod.split sum.split option.split)
qed

lemma ping4_install_filter_keeps: "yields (ping4_install_filter strerror os p) (keeps p)"
proof -
  have "yields (on_rts (\<lambda>rts. ping_error strerror rts 0 e msg) q) (keeps p)" if "keeps p q" for e msg q
    by (rule keeps_step [OF _ that], rule on_rts_keeps, rule ping_error_keeps)
  then show ?thesis by (simp add: ping4_install_filter_def Let_def split: prod.split)
qed

interpretation ping4: probe_engine "ping4_func_set strerror os sock_raw" for strerror os sock_raw
  by unfold_locales (simp_all add: ping4_func_set_def ping4_send_probe_keeps ping4_receive_error_msg_keeps
    ping4_parse_reply_keeps ping4_install_filter_keeps)

end
