(* ===== verification/Ping_Run.thy ===== *)
theory Ping_Run
  imports Ping4
begin

text \<open>
  The IPv4 program put together: the probe that is sent, the reply to it, the socket filter, the
  rate and the number of the probes, and the end of the run.  The laws of the interface
  \<open>probe_engine\<close> come from the interpretation \<open>ping4\<close>.
\<close>

subsection \<open>The probe\<close>

text \<open>An echo request of this process with the sequence number \<open>seq\<close>.\<close>

definition echo_request :: "ping_rts \<Rightarrow> u16 \<Rightarrow> u8 list \<Rightarrow> bool" where
  "echo_request rts seq pkt \<longleftrightarrow> int (length pkt) = datalen rts + 8 \<and> in_cksum pkt 0 = 0 \<and>
     pkt ! 0 = ICMP_ECHO \<and> pkt ! 1 = 0 \<and> le16 (pkt ! 4) (pkt ! 5) = to_u16 (ident rts) \<and>
     be16 (pkt ! 6) (pkt ! 7) = seq"

lemma nth_splice:
  assumes "off + length src \<le> length buf" "i < length buf"
  shows "splice off src buf ! i = (if off \<le> i \<and> i < off + length src then src ! (i - off) else buf ! i)"
  using assms by (auto simp: splice_def nth_append)

lemma take_splice_inside:
  assumes "off + length src \<le> n" "n \<le> length buf"
  shows "take n (splice off src buf) = splice off src (take n buf)"
  using assms by (simp add: splice_def take_drop min_absorb1)

text \<open>Storing words at an even offset over zero bytes adds their sum.\<close>

lemma wsum_zeros [simp]: "wsum (zeros n) = 0"
proof -
  have "wsum (replicate n 0) = 0"
    by (induction n rule: induct_nat_012) (simp_all add: uint_le16)
  then show ?thesis by (simp add: zeros_def)
qed

lemma wsum_splice_zeros:
  assumes "even off" "even (length src)" "off + length src \<le> length buf"
  shows "wsum (splice off src buf) = wsum (splice off (zeros (length src)) buf) + wsum src"
proof -
  have "length (take off buf) = off" using assms(3) by simp
  then have off: "even (length (take off buf))" using assms(1) by (simp only:)
  have sum: "wsum (splice off s buf) = wsum (take off buf) + (wsum s + wsum (drop (off + length s) buf))"
    if "even (length s)" for s
    unfolding splice_def wsum_append [OF off] wsum_append [OF that] by (rule refl)
  show ?thesis using assms(2) by (simp only: sum length_zeros wsum_zeros)
qed

text \<open>
  A packet whose checksum is stored verifies, whether computed at once or, with the bytes at 8 zero
  first, continued over them.
\<close>

lemma stored_verifies:
  assumes "8 \<le> length pkt" "length pkt \<le> MAXPACKET" "pkt ! 2 = 0" "pkt ! 3 = 0"
  shows "in_cksum (splice 2 (le16_bytes (in_cksum pkt 0)) pkt) 0 = 0"
  using ping_ck.store_verifies [of 2 pkt] assms by (simp add: numeral_3_eq_3 numeral_2_eq_2)

lemma continued_checksum:
  assumes "even (length ts)" "8 + length ts \<le> length pkt" "length pkt \<le> MAXPACKET"
  shows "in_cksum ts (NOT (in_cksum (splice 8 (zeros (length ts)) pkt) 0)) = in_cksum (splice 8 ts pkt) 0"
proof -
  have "in_cksum ts (NOT (in_cksum (splice 8 (zeros (length ts)) pkt) 0)) =
      NOT (word_of_int (oc_reduce (wsum (splice 8 (zeros (length ts)) pkt) + wsum ts)))"
    by (rule in_cksum_add) (use assms in simp_all)
  also have "\<dots> = in_cksum (splice 8 ts pkt) 0"
    using assms by (simp add: in_cksum_eq wsum_splice_zeros [of 8 ts pkt])
  finally show ?thesis .
qed

lemma splice_splice:
  "length a = length b \<Longrightarrow> off + length b \<le> length buf \<Longrightarrow> splice off a (splice off b buf) = splice off a buf"
  by (simp add: splice_def min_absorb1)

text \<open>
  Both ways of stamping give the packet with the time in it and the checksum over the whole.
\<close>

definition stamped :: "ping_rts \<Rightarrow> timeval \<Rightarrow> u8 list \<Rightarrow> u8 list" where
  "stamped rts now buf = (if timing rts then splice 8 (timeval_bytes now) buf else buf)"

lemma length_stamped [simp]: "24 \<le> length buf \<Longrightarrow> length (stamped rts now buf) = length buf"
  by (simp add: stamped_def)

lemma stamp_probe_eq:
  assumes "24 \<le> length buf" "nat cc \<le> length buf" "nat cc \<le> MAXPACKET" "timing (p_rts p) \<Longrightarrow> 24 \<le> cc"
  shows "\<exists>now. stamp_probe os cc buf p =
      (let b = stamped (p_rts p) now buf in splice 2 (le16_bytes (in_cksum (take (nat cc) b) 0)) b,
       snd (time_if os (timing (p_rts p)) p)) \<and>
    (timing (p_rts p) \<longrightarrow> now = fst (os_time os (world p)))"
proof -
  have "in_cksum (timeval_bytes now) (NOT (in_cksum (take (nat cc) (splice 8 (zeros 16) buf)) 0)) =
      in_cksum (take (nat cc) (splice 8 (timeval_bytes now) buf)) 0" if "timing (p_rts p)" for now
  proof -
    have n: "8 + 16 \<le> nat cc" using assms(4) [OF that] by simp
    then have "in_cksum (timeval_bytes now) (NOT (in_cksum (splice 8 (zeros 16) (take (nat cc) buf)) 0)) =
        in_cksum (splice 8 (timeval_bytes now) (take (nat cc) buf)) 0"
      using continued_checksum [of "timeval_bytes now" "take (nat cc) buf"] assms by simp
    then show ?thesis using n assms by (simp add: take_splice_inside)
  qed
  then show ?thesis
    using assms(1) by (auto simp: stamp_probe_def stamped_def Let_def time_if_def splice_splice split: prod.splits)
qed

lemma echo_header_nth:
  "echo_header i s ! 0 = ICMP_ECHO" "echo_header i s ! 1 = 0" "echo_header i s ! 2 = 0" "echo_header i s ! 3 = 0"
  "le16 (echo_header i s ! 4) (echo_header i s ! 5) = to_u16 i" "be16 (echo_header i s ! 6) (echo_header i s ! 7) = s"
  "length (echo_header i s) = 8"
  by (simp_all add: echo_header_def le16_bytes_def be16_bytes_def)

lemma sent_echo_request:
  fixes seq :: u16 and now :: timeval
  assumes "24 \<le> length buf" "0 \<le> datalen rts" "datalen rts + 8 \<le> int (length buf)" "datalen rts + 8 \<le> int MAXPACKET"
    and "timing rts \<Longrightarrow> 16 \<le> datalen rts"
  defines "b \<equiv> stamped rts now (splice 0 (echo_header (ident rts) seq) buf)"
    and "cc \<equiv> nat (datalen rts + 8)"
  shows "echo_request rts seq (take cc (splice 2 (le16_bytes (in_cksum (take cc b) 0)) b))"
proof -
  let ?h = "echo_header (ident rts) seq" and ?ck = "le16_bytes (in_cksum (take cc b) 0)"
  have len: "length b = length buf" "8 \<le> cc" "cc \<le> length buf" "cc \<le> MAXPACKET"
    using assms(1-4) by (simp_all add: b_def cc_def echo_header_nth)
  have b: "b ! i = ?h ! i" if "i < 8" for i
    using that assms(1) len by (auto simp: b_def stamped_def nth_splice echo_header_nth)
  have pkt: "take cc (splice 2 ?ck b) = splice 2 ?ck (take cc b)"
    using len by (simp add: take_splice_inside)
  have nth: "splice 2 ?ck (take cc b) ! i = ?h ! i" if "i < 8" "i \<noteq> 2" "i \<noteq> 3" for i
    using that len b [of i] by (auto simp: nth_splice)
  have "in_cksum (splice 2 ?ck (take cc b)) 0 = 0"
    by (rule stored_verifies) (use len b [of 2] b [of 3] echo_header_nth in simp_all)
  then show ?thesis unfolding pkt echo_request_def
    using nth len assms(2) by (simp add: echo_header_nth echo_header_nth(2) [unfolded One_nat_def] cc_def [symmetric]) (simp add: cc_def)
qed

text \<open>
  C3: every probe \<open>ping4_send_probe\<close> hands to the kernel is an echo request of this process: of
  \<open>datalen\<close> + 8 bytes, with the process's identifier, the next sequence number and a checksum that
  verifies at the receiver, whichever way the time is stamped; with timing on, its data start with
  the time of day; the call returns 0 exactly when all bytes were taken, and the sequence number is
  then marked as not yet answered.
\<close>

theorem probe_well_formed:
  assumes "24 \<le> length (outpack (p_rts p))" "0 \<le> datalen (p_rts p)" "datalen (p_rts p) + 8 \<le> int (length (outpack (p_rts p)))"
    and "datalen (p_rts p) + 8 \<le> int MAXPACKET" "timing (p_rts p) \<longrightarrow> 16 \<le> datalen (p_rts p)" "tbl_inv (rcvd_tbl (p_rts p))"
  shows "\<exists>pkt w q i. echo_request (p_rts p) (to_u16 (ntransmitted (p_rts p) + 1)) pkt \<and>
    (timing (p_rts p) \<longrightarrow> take 16 (drop 8 pkt) = timeval_bytes (fst (os_time os (world p)))) \<and>
    ping4_send_probe os p = ret (q, if i = datalen (p_rts p) + 8 then 0 else i) \<and>
    ((i, if i < 0 then p_errno q else snd (fst (os_sendto os w pkt))), world q) = os_sendto os w pkt \<and>
    rcvd_test (p_rts q) (to_u16 (ntransmitted (p_rts p) + 1)) = 0"
proof -
  define p' where "p' = set_rts (\<lambda>rts. rcvd_clear rts (to_u16 (ntransmitted rts + 1))) p"
  define buf where "buf = splice 0 (echo_header (ident (p_rts p)) (to_u16 (ntransmitted (p_rts p) + 1))) (outpack (p_rts p))"
  define cc where "cc = datalen (p_rts p) + 8"
  have p': "world p' = world p" "timing (p_rts p') = timing (p_rts p)" "datalen (p_rts p') = datalen (p_rts p)"
    "ident (p_rts p') = ident (p_rts p)" "ntransmitted (p_rts p') = ntransmitted (p_rts p)"
    "outpack (p_rts p') = outpack (p_rts p)" "p_errno p' = p_errno p"
    "rcvd_test (p_rts p') (to_u16 (ntransmitted (p_rts p) + 1)) = 0"
    using rcvd.ttest_clear [OF assms(6), of "to_u16 (ntransmitted (p_rts p) + 1)" "to_u16 (ntransmitted (p_rts p) + 1)"]
    by (simp_all add: p'_def set_rts_def rcvd_clear_def rcvd_test_def)
  have len: "length buf = length (outpack (p_rts p))"
    using assms(1) by (simp add: buf_def echo_header_nth)
  have "\<exists>now. stamp_probe os cc buf p' =
      (let b = stamped (p_rts p') now buf in splice 2 (le16_bytes (in_cksum (take (nat cc) b) 0)) b,
       snd (time_if os (timing (p_rts p')) p')) \<and>
    (timing (p_rts p') \<longrightarrow> now = fst (os_time os (world p')))"
    by (rule stamp_probe_eq) (use assms len p' in \<open>simp_all add: cc_def\<close>)
  then obtain now where st: "stamp_probe os cc buf p' =
      (let b = stamped (p_rts p) now buf in splice 2 (le16_bytes (in_cksum (take (nat cc) b) 0)) b,
       snd (time_if os (timing (p_rts p)) p'))"
    and now: "timing (p_rts p) \<Longrightarrow> now = fst (os_time os (world p))"
    using p' by (auto simp: stamped_def)
  define b where "b = stamped (p_rts p) now buf"
  define full where "full = splice 2 (le16_bytes (in_cksum (take (nat cc) b) 0)) b"
  define q where "q = snd (time_if os (timing (p_rts p)) p')"
  define pkt where "pkt = take (nat cc) full"
  obtain i e w where send: "os_sendto os (world q) pkt = ((i, e), w)" by (metis prod.collapse)
  have req: "echo_request (p_rts p) (to_u16 (ntransmitted (p_rts p) + 1)) pkt"
    unfolding pkt_def full_def b_def buf_def cc_def by (rule sent_echo_request) (use assms in auto)
  have "take 16 (drop 8 pkt) = timeval_bytes now" if "timing (p_rts p)"
  proof -
    have "length b = length buf" "24 \<le> length buf" "24 \<le> nat cc"
      using assms(1,5) that len by (simp_all add: b_def cc_def)
    then have "take 16 (drop 8 pkt) = take 16 (drop 8 b)"
      by (simp add: pkt_def full_def splice_def drop_take min_absorb1 le16_bytes_def)
    also have "\<dots> = timeval_bytes now"
      using \<open>24 \<le> length buf\<close> that splice_read [of 8 buf "timeval_bytes now"] by (simp add: b_def stamped_def)
    finally show ?thesis .
  qed
  moreover have "p_rts q = p_rts p'" by (simp add: q_def)
  moreover have "max 24 (nat cc) \<le> length (outpack (p_rts p))" using assms by (simp add: cc_def)
  moreover have "ping4_send_probe os p =
      ret (set_rts (\<lambda>rts. rts\<lparr>outpack := full\<rparr>) q\<lparr>world := w, p_errno := if i < 0 then e else p_errno q\<rparr>,
        if i = cc then 0 else i)"
    using send st calculation(3) p'
    by (simp add: ping4_send_probe_def p'_def [symmetric] buf_def [symmetric] cc_def [symmetric] need_def
      b_def [symmetric] full_def [symmetric] q_def [symmetric] pkt_def [symmetric] Let_def)
  ultimately show ?thesis
    using req now send p'(8)
    by (intro exI [of _ pkt] exI [of _ "world q"] exI [of _ "set_rts (\<lambda>rts. rts\<lparr>outpack := full\<rparr>) q\<lparr>world := w, p_errno := if i < 0 then e else p_errno q\<rparr>"] exI [of _ i])
      (simp add: set_rts_def rcvd_test_def cc_def)
qed

text \<open>A system without network, for the witnesses: sending takes everything, nothing arrives.\<close>

definition quiet_os :: "nat os" where
  "quiet_os = \<lparr>os_clock = (\<lambda>w. (\<lparr>ts_sec = 1 + int w, ts_nsec = 0\<rparr>, w + 1)),
     os_time = (\<lambda>w. (\<lparr>tv_sec = 1700000000, tv_usec = 250000\<rparr>, w)), os_stamp = (\<lambda>w. (None, w)),
     os_poll = (\<lambda>w t. ((0, False, False), w)), os_sendto = (\<lambda>w pkt. ((int (length pkt), 0), w)),
     os_sendto6 = (\<lambda>w pkt flags cmsg. ((int (length pkt), 0), w)),
     os_recvmsg = (\<lambda>w b. (Inl EAGAIN, w)), os_recverr = (\<lambda>w. (Inl EAGAIN, w)),
     os_setsockopt = (\<lambda>w s as. (0, w)), os_numeric = inet_ntoa, os_getname = (\<lambda>w a. (([], False), w)),
     os_signals = (\<lambda>w. ((w > 3, False), w)), os_hz = 100\<rparr>"

definition sample_proc :: "ping_rts \<Rightarrow> nat ping_proc" where
  "sample_proc rts = \<lparr>p_rts = rts, oom_count = 0, tokens = 0, waittime = 0, old_rr = [], last_addr = None, nonces = initial_nonce_cache,
     filtered = False, p_errno = 0, world = 0\<rparr>"

definition sample_rts :: ping_rts where
  "sample_rts = (rts_with (zeros 64) (zeros 1024))\<lparr>timing := True, ident := 0x1234, whereto := 0x0100007F,
     npackets := 1, interval := 1000\<rparr>"

lemma sample_rts_sel [simp]:
  "outpack sample_rts = zeros 64" "datalen sample_rts = 56" "timing sample_rts" "ident sample_rts = 0x1234"
  "rcvd_tbl sample_rts = zeros 1024" "ntransmitted sample_rts = 0" "whereto sample_rts = 0x0100007F"
  "npackets sample_rts = 1" "interval sample_rts = 1000" "preload sample_rts = 1" "opts sample_rts = no_opts"
  "deadline sample_rts = 0" "nreceived sample_rts = 0" "nrepeats sample_rts = 0" "nchecksum sample_rts = 0" "pipesize sample_rts = - 1"
  "cur_time sample_rts = \<lparr>ts_sec = 0, ts_nsec = 0\<rparr>" "\<not> exiting sample_rts" "multicast sample_rts = False"
  by (simp_all add: sample_rts_def rts_with_def)

lemma sample_proc_sel [simp]: "p_rts (sample_proc rts) = rts" "world (sample_proc rts) = 0" "tokens (sample_proc rts) = 0"
  by (simp_all add: sample_proc_def)

lemma tbl_inv_zeros [simp]: "tbl_inv (zeros 1024)"
  by (simp add: tbl_inv_def MAX_DUP_CHK_def BITMAP_SHIFT_def)

theorem probe_well_formed_witness:
  "\<exists>pkt q. echo_request sample_rts 1 pkt \<and> ping4_send_probe quiet_os (sample_proc sample_rts) = ret (q, 0)"
proof -
  obtain pkt w q i where pkt: "echo_request sample_rts (to_u16 1) pkt"
    "ping4_send_probe quiet_os (sample_proc sample_rts) = ret (q, if i = 64 then 0 else i)"
    "((i, if i < 0 then p_errno q else snd (fst (os_sendto quiet_os w pkt))), world q) = os_sendto quiet_os w pkt"
    using probe_well_formed [of "sample_proc sample_rts" quiet_os] by (auto simp: MAXPACKET_def)
  have "i = int (length pkt)" using pkt(3) by (simp add: quiet_os_def)
  then have "i = 64" using pkt(1) by (simp add: echo_request_def)
  then show ?thesis using pkt by (auto simp: to_u16_def)
qed

subsection \<open>The reply\<close>

text \<open>
  What a host answers (RFC 792): the type is 0 and the checksum is computed again.
\<close>

definition echo_answer :: "u8 list \<Rightarrow> u8 list" where
  "echo_answer pkt = (let z = splice 0 [ICMP_ECHOREPLY, 0, 0, 0] pkt in splice 2 (le16_bytes (in_cksum z 0)) z)"

lemma echo_answer_props:
  assumes "8 \<le> length pkt" "length pkt \<le> MAXPACKET"
  shows "length (echo_answer pkt) = length pkt" "in_cksum (echo_answer pkt) 0 = 0" "echo_answer pkt ! 0 = ICMP_ECHOREPLY"
    and "4 \<le> i \<Longrightarrow> i < length pkt \<Longrightarrow> echo_answer pkt ! i = pkt ! i"
proof -
  let ?z = "splice 0 [ICMP_ECHOREPLY, 0, 0, 0] pkt"
  have ne: "pkt \<noteq> []" using assms(1) by auto
  have z: "length ?z = length pkt" "?z ! 2 = 0" "?z ! 3 = 0"
    using assms(1) by (simp_all add: nth_splice)
  show "in_cksum (echo_answer pkt) 0 = 0"
    unfolding echo_answer_def Let_def by (rule stored_verifies) (use z assms in simp_all)
  show "length (echo_answer pkt) = length pkt" "echo_answer pkt ! 0 = ICMP_ECHOREPLY"
    using assms(1) ne nth_splice [of 2 "le16_bytes c" ?z 0 for c] nth_splice [of 0 "[ICMP_ECHOREPLY, 0, 0, 0]" pkt 0]
    by (auto simp: echo_answer_def Let_def)
  show "echo_answer pkt ! i = pkt ! i" if "4 \<le> i" "i < length pkt"
    using assms(1) that by (simp add: echo_answer_def Let_def nth_splice)
qed

lemma pr_addr_rts:
  obtains b where "p_rts (snd (pr_addr os p sa)) = (p_rts p)\<lparr>exiting := b\<rparr>"
proof -
  obtain n i w where
    "(if \<not> exiting (p_rts p) \<and> True \<and> (opt_force_lookup (opts (p_rts p)) \<or> \<not> opt_numeric (opts (p_rts p)))
      then os_getname os (world p) sa else (([], False), world p)) = ((n, i), w)"
    by (metis prod.collapse)
  then have res: "p_rts (snd (pr_addr_resolve os True p sa)) = (p_rts p)\<lparr>exiting := exiting (p_rts p) \<or> i\<rparr>"
    by (simp add: pr_addr_resolve_def Let_def)
  consider "pr_addr os p sa = pr_addr_resolve os True p sa" | "snd (pr_addr os p sa) = p"
    by (cases "\<exists>x. last_addr p = Some (sa, x)") (auto simp: pr_addr_def pr_addr_cached_def split: option.splits)
  then show thesis
  proof cases
    case 1
    then show ?thesis using res by (intro that [of "exiting (p_rts p) \<or> i"]) simp
  next
    case 2
    then show ?thesis by (intro that [of "exiting (p_rts p)"]) simp
  qed
qed

lemma finish_reply_returns: "\<exists>p'. returns (finish_reply os ops 0 p) (p', False) \<and> p_rts p' = p_rts p"
  by (auto simp: finish_reply_def pr_options_def pr_options_loop.simps [of os 0] on_rts_def ping_finish_line_def
      returns_and_then)

text \<open>In text mode \<open>gather\<close> returns with the reply counted.\<close>

lemma gather_returns:
  assumes "\<not> opt_json (opts (p_rts p))" "\<And>rts. \<not> opt_json (opts rts) \<Longrightarrow> pr_reply rts = print pr (ret rts)"
    and "datalen (p_rts p) \<le> int (length data)"
  obtains q l t r where "returns (gather os p data cc seq hops cs tv from pr_reply multi wrong) (q, r)"
    "p_rts q = gathered (p_rts p) cc seq cs l t"
proof -
  obtain now p1 where p1: "time_if os (restamps (p_rts p) data cc tv) p = (now, p1)" by fastforce
  obtain now' p2 where p2: "time_if os (opt_ptimeofday (opts (p_rts p)) \<and> \<not> opt_quiet (opts (p_rts p)) \<and>
      \<not> opt_flood (opts (p_rts p))) p1 = (now', p2)" by fastforce
  have rts: "p_rts p2 = p_rts p" using p1 p2 time_if_sel by (metis snd_conv)
  obtain l t r where "returns (gather_statistics now now' (p_rts p2) data cc seq hops cs tv from pr_reply multi wrong)
      (gathered (p_rts p2) cc seq cs l t, r)"
    using gather_statistics_returns [of "p_rts p2" pr_reply pr data] assms rts by metis
  then have "returns (gather os p data cc seq hops cs tv from pr_reply multi wrong)
      (p2\<lparr>p_rts := gathered (p_rts p2) cc seq cs l t\<rparr>, r)"
    by (simp add: gather_def Let_def p1 p2 returns_and_then) force
  then show thesis using that rts by fastforce
qed

text \<open>
  C4: the answer to a probe is taken: for every echo request of this process, the answer a host
  makes of it, arriving on the raw socket behind an IP header without options, is recognised as
  ours; \<open>nreceived\<close> grows by one if its sequence number was not answered yet and \<open>nrepeats\<close>
  otherwise, nothing is counted as corrupted, and the number is marked as answered.
\<close>

theorem answer_counted:
  assumes "echo_request (p_rts p) seq pkt" "length pkt \<le> MAXPACKET" "0 \<le> datalen (p_rts p)"
    and "0 \<le> ident (p_rts p)" "ident (p_rts p) < 65536" "\<not> opt_json (opts (p_rts p))" "tbl_inv (rcvd_tbl (p_rts p))"
    and "length ip = 20" "ip ! 0 AND 0xF = 5"
    and "msg_buf m = ip @ echo_answer pkt @ rest" "msg_cc m = 20 + int (length pkt)"
  shows "\<exists>q. returns (ping4_parse_reply strerror os True p m tv) (q, False) \<and>
    nreceived (p_rts q) = nreceived (p_rts p) + of_bool (rcvd_test (p_rts p) seq = 0) \<and>
    nrepeats (p_rts q) = nrepeats (p_rts p) + of_bool (rcvd_test (p_rts p) seq \<noteq> 0) \<and>
    nchecksum (p_rts q) = nchecksum (p_rts p) \<and> rcvd_test (p_rts q) seq \<noteq> 0"
proof -
  let ?a = "echo_answer pkt" and ?n = "length pkt"
  define icp where "icp = ?a @ rest"
  define ms where "ms = (multicast (p_rts p), \<not> broadcast_pings (p_rts p) \<and> \<not> multicast (p_rts p) \<and>
    msg_name m \<noteq> le32_bytes (whereto (p_rts p)))"
  have len: "8 \<le> ?n" "int ?n = datalen (p_rts p) + 8" and req: "le16 (pkt ! 4) (pkt ! 5) = to_u16 (ident (p_rts p))"
    "be16 (pkt ! 6) (pkt ! 7) = seq"
    using assms(1,3) by (auto simp: echo_request_def)
  note ans = echo_answer_props [OF len(1) assms(2)]
  have icp: "icp ! 0 = ICMP_ECHOREPLY" "le16 (icp ! 4) (icp ! 5) = to_u16 (ident (p_rts p))"
    "be16 (icp ! 6) (icp ! 7) = seq" "take ?n icp = ?a" "8 \<le> length icp" "?n \<le> length icp"
    using ans len req by (auto simp: icp_def nth_append)
  have own: "is_ours (p_rts p) True (to_u16 (ident (p_rts p)))"
    using assms(4,5) by (simp add: is_ours_def uint_to_u16)
  obtain s p1 where addr: "pr_addr os p (msg_name m) = (s, p1)" by fastforce
  obtain b where p1: "p_rts p1 = (p_rts p)\<lparr>exiting := b\<rparr>" using pr_addr_rts [of os p "msg_name m"] addr by auto
  have pr: "pr_echo_reply icp rts = print ('' icmp_seq='' @ fmt_d (uint (ucast seq :: u32))) (ret rts)"
    if "\<not> opt_json (opts rts)" for rts using that icp(3) by (simp add: pr_echo_reply_def)
  have nj: "\<not> opt_json (opts (p_rts p1))" using assms(6) p1 by simp
  have dl: "datalen (p_rts p1) \<le> int (length (drop 8 icp))" using p1 len icp(6) by simp
  obtain q l t r where g: "returns (gather os p1 (drop 8 icp) (int ?n) seq (uint (ip ! 8)) False tv s (pr_echo_reply icp)
      (fst ms) (snd ms)) (q, r)" "p_rts q = gathered (p_rts p1) (int ?n) seq False l t"
    by (rule gather_returns [OF nj pr dl])
  have cnt: "nreceived (p_rts q) = nreceived (p_rts p) + of_bool (rcvd_test (p_rts p) seq = 0)"
    "nrepeats (p_rts q) = nrepeats (p_rts p) + of_bool (rcvd_test (p_rts p) seq \<noteq> 0)"
    "nchecksum (p_rts q) = nchecksum (p_rts p)" "rcvd_test (p_rts q) seq \<noteq> 0"
    using rcvd.ttest_set [OF assms(7), of seq seq] by (simp_all add: g(2) p1 gathered_sel rcvd_test_def)
  obtain q' where q': "returns (if r \<noteq> 0 then ret (q, False) else finish_reply os (drop 20 (msg_buf m)) 0 q) (q', False)"
    "p_rts q' = p_rts q"
    using finish_reply_returns [of os "drop 20 (msg_buf m)" q] by (cases "r = 0") auto
  have "returns (parse_echo_reply os True p icp (int ?n) (uint (ip ! 8)) False (drop 20 (msg_buf m)) 0 (msg_name m) tv) (q', False)"
    unfolding parse_echo_reply_def Let_def icp(2,3) addr prod.case
    using own g(1) q'(1) by (auto simp: ms_def intro!: returns_and_thenI)
  then have "returns (parse_icmp os True p icp (int ?n) (uint (ip ! 8)) (drop 20 (msg_buf m)) 0 (msg_name m) tv) (q', False)"
    using icp(1,4-6) ans(2) by (simp add: parse_icmp_def need_def)
  moreover have "drop 20 (msg_buf m) = icp" "msg_buf m ! 0 = ip ! 0" "msg_buf m ! 8 = ip ! 8" "9 \<le> length (msg_buf m)"
    using assms(8,10) by (simp_all add: icp_def nth_append)
  ultimately have "returns (ping4_parse_reply strerror os True p m tv) (q', False)"
    using assms(9,11) len(1) by (simp add: ping4_parse_reply_def need_def)
  then show ?thesis using cnt q'(2) by auto
qed

lemma tbl_test_zeros [simp]: "tbl_test (zeros 1024) seq = 0"
  using A_index_less [of seq] by (simp add: tbl_test_def Let_def MAX_DUP_CHK_def BITMAP_SHIFT_def)

definition sample_answer :: "u8 list \<Rightarrow> message" where
  "sample_answer pkt = \<lparr>msg_buf = (0x45 # zeros 19) @ echo_answer pkt @ [], msg_cc = 84, msg_name = [127, 0, 0, 1],
     msg_stamps = [], msg_ttl = [], msg_retopts = None\<rparr>"

theorem answer_counted_witness:
  "\<exists>pkt q. echo_request sample_rts 1 pkt \<and> returns (ping4_parse_reply (\<lambda>_. []) quiet_os True (sample_proc sample_rts)
      (sample_answer pkt) \<lparr>tv_sec = 1700000001, tv_usec = 0\<rparr>) (q, False) \<and> nreceived (p_rts q) = 1"
proof -
  obtain pkt where pkt: "echo_request sample_rts 1 pkt"
    using sent_echo_request [of "zeros 64" sample_rts] by (auto simp: MAXPACKET_def)
  then have len: "length pkt = 64" by (simp add: echo_request_def)
  have "\<exists>q. returns (ping4_parse_reply (\<lambda>_. []) quiet_os True (sample_proc sample_rts)
      (sample_answer pkt) \<lparr>tv_sec = 1700000001, tv_usec = 0\<rparr>) (q, False) \<and>
    nreceived (p_rts q) = nreceived (p_rts (sample_proc sample_rts)) + of_bool (rcvd_test (p_rts (sample_proc sample_rts)) 1 = 0) \<and>
    nrepeats (p_rts q) = nrepeats (p_rts (sample_proc sample_rts)) + of_bool (rcvd_test (p_rts (sample_proc sample_rts)) 1 \<noteq> 0) \<and>
    nchecksum (p_rts q) = nchecksum (p_rts (sample_proc sample_rts)) \<and> rcvd_test (p_rts q) 1 \<noteq> 0"
    by (rule answer_counted [where pkt = pkt and ip = "0x45 # zeros 19" and rest = "[]"])
      (use pkt len in \<open>simp_all add: MAXPACKET_def no_opts_def sample_answer_def\<close>)
  then show ?thesis using pkt by (auto simp: rcvd_test_def)
qed

subsection \<open>What is not ours\<close>

text \<open>
  An echo reply for another process changes nothing: on a raw socket a message whose ICMP part is
  an echo reply with another identifier is refused as \<open>not_ours\<close>, with no effect and the state
  unchanged, whatever else is in it.
\<close>

theorem foreign_reply_ignored:
  assumes "5 \<le> uint (msg_buf m ! 0 AND 0xF)" "4 * uint (msg_buf m ! 0 AND 0xF) + 8 \<le> msg_cc m"
    and "msg_cc m \<le> int (length (msg_buf m))"
  defines "icp \<equiv> drop (4 * unat (msg_buf m ! 0 AND 0xF)) (msg_buf m)"
  assumes "icp ! 0 = ICMP_ECHOREPLY" "uint (le16 (icp ! 4) (icp ! 5)) \<noteq> ident (p_rts p)"
  shows "ping4_parse_reply strerror os True p m tv = ret (p, True)"
proof -
  define k where "k = unat (msg_buf m ! 0 AND 0xF)"
  have k: "uint (msg_buf m ! 0 AND 0xF) = int k" by (simp add: k_def)
  have icp: "icp = drop (4 * k) (msg_buf m)" by (simp add: icp_def k_def)
  have bounds: "5 \<le> k" "4 * int k + 8 \<le> msg_cc m" "msg_cc m \<le> int (length (msg_buf m))"
    using assms(1-3) unfolding k by simp_all
  then have len: "max 8 (nat (msg_cc m - 4 * int k)) \<le> length icp" by (simp add: icp)
  have "parse_icmp os True p icp (msg_cc m - 4 * int k) t ops n from tv = ret (p, True)" for t ops n "from"
    using len assms(5,6) by (simp add: parse_icmp_def need_def parse_echo_reply_def is_ours_def Let_def)
  moreover have "1 \<le> length (msg_buf m)" "9 \<le> length (msg_buf m)" "nat (4 * int k) = 4 * k" using bounds by linarith+
  ultimately show ?thesis
    using bounds by (simp add: ping4_parse_reply_def need_def Let_def k icp [symmetric])
qed

definition foreign_answer :: message where
  "foreign_answer = \<lparr>msg_buf = [0x45, 0, 0, 0, 0, 0, 0, 0, 0, 0, 0, 0, 0, 0, 0, 0, 0, 0, 0, 0, 0, 0, 0, 0, 0x35, 0x12, 0, 1],
     msg_cc = 28, msg_name = [127, 0, 0, 1], msg_stamps = [], msg_ttl = [], msg_retopts = None\<rparr>"

theorem foreign_reply_ignored_witness:
  "ping4_parse_reply (\<lambda>_. []) quiet_os True (sample_proc sample_rts) foreign_answer no_time =
     ret (sample_proc sample_rts, True)"
  by (rule foreign_reply_ignored) (simp_all add: foreign_answer_def le16_def)

subsection \<open>The socket filter\<close>

text \<open>
  The meaning of the instructions (bpf(4)): \<open>a\<close> and \<open>x\<close> are the registers; a load outside the packet
  ends the program with 0, which drops the packet.
\<close>

function bpf_run :: "u8 list \<Rightarrow> u32 \<Rightarrow> nat \<Rightarrow> bpf_insn list \<Rightarrow> u32" where
  "bpf_run pkt a x [] = 0"
| "bpf_run pkt a x (BPF_LDX_MSH k # prog) =
     (if k < length pkt then bpf_run pkt a (4 * unat (pkt ! k AND 0xF)) prog else 0)"
| "bpf_run pkt a x (BPF_LD_H_IND k # prog) =
     (if x + k + 1 < length pkt then bpf_run pkt (ucast (be16 (pkt ! (x + k)) (pkt ! (x + k + 1)))) x prog else 0)"
| "bpf_run pkt a x (BPF_LD_B_IND k # prog) =
     (if x + k < length pkt then bpf_run pkt (ucast (pkt ! (x + k))) x prog else 0)"
| "bpf_run pkt a x (BPF_LD_H_ABS k # prog) =
     (if k + 1 < length pkt then bpf_run pkt (ucast (be16 (pkt ! k) (pkt ! (k + 1)))) x prog else 0)"
| "bpf_run pkt a x (BPF_LD_B_ABS k # prog) =
     (if k < length pkt then bpf_run pkt (ucast (pkt ! k)) x prog else 0)"
| "bpf_run pkt a x (BPF_JEQ k jt jf # prog) = bpf_run pkt a x (drop (if a = k then jt else jf) prog)"
| "bpf_run pkt a x (BPF_RET k # prog) = k"
  by pat_completeness auto
termination by (relation "measure (\<lambda>(pkt, a, x, prog). length prog)") auto



subsection \<open>The rate of the probes\<close>

text \<open>
  C5: however the calls of \<open>pinger\<close> are interleaved with receiving, in a run of the IPv4 program that
  is not adaptive the probes sent after the first one are at most the preload less one and one for
  every interval that has passed, up to the fraction of a millisecond by which the conversion of
  the clock may be off at each of the \<open>n\<close> attempts.
\<close>

theorem probe_rate:
  assumes "sending strerror os (ping4_func_set strerror os sock_raw) p n q"
    and "\<not> opt_adaptive (opts (p_rts p))" "0 \<le> interval (p_rts p)" "\<not> no_clock (cur_time (p_rts p))"
    and "0 \<le> tokens p" "tokens p \<le> interval (p_rts p) * (preload (p_rts p) - 1)"
    and "\<And>w. \<not> no_clock (fst (os_clock os w))"
  shows "1000000 * (interval (p_rts p) * (ntransmitted (p_rts q) - ntransmitted (p_rts p))) \<le>
    1000000 * (interval (p_rts p) * (preload (p_rts p) - 1)) +
    ns_of (cur_time (p_rts q)) - ns_of (cur_time (p_rts p)) + 999999 * int n"
  using assms by (rule ping4.sending_rate)

text \<open>A probe on the quiet system goes out.\<close>

lemma quiet_os_sel [simp]:
  "os_sendto quiet_os w pkt = ((int (length pkt), 0), w)"
  "os_clock quiet_os w = (\<lparr>ts_sec = 1 + int w, ts_nsec = 0\<rparr>, w + 1)"
  "os_signals quiet_os w = ((w > 3, False), w)"
  by (simp_all add: quiet_os_def)

lemma ret_inject [simp]: "ret a = ret b \<longleftrightarrow> a = b"
  by (simp add: ret_def)

lemma quiet_send:
  assumes "24 \<le> length (outpack (p_rts p))" "0 \<le> datalen (p_rts p)"
    and "datalen (p_rts p) + 8 \<le> int (length (outpack (p_rts p)))"
  obtains q where "ping4_send_probe quiet_os p = ret (q, 0)" "keeps p q" "opts (p_rts q) = opts (p_rts p)"
proof -
  let ?p = "set_rts (\<lambda>rts. rcvd_clear rts (to_u16 (ntransmitted rts + 1))) p"
  have hdr: "length (echo_header i s) = 8" for i s by (simp add: echo_header_def le16_bytes_def be16_bytes_def)
  obtain pkt r where st: "stamp_probe quiet_os (datalen (p_rts ?p) + 8)
      (splice 0 (echo_header (ident (p_rts ?p)) (to_u16 (ntransmitted (p_rts ?p) + 1))) (outpack (p_rts ?p))) ?p = (pkt, r)"
    by fastforce
  have "length pkt = length (outpack (p_rts p))"
    using st assms hdr
    by (auto simp: stamp_probe_def Let_def set_rts_def rcvd_clear_def splice_def split: if_splits prod.splits)
  moreover have "opts (p_rts r) = opts (p_rts p)"
    using stamp_probe_keeps(2) [of quiet_os "datalen (p_rts ?p) + 8"
      "splice 0 (echo_header (ident (p_rts ?p)) (to_u16 (ntransmitted (p_rts ?p) + 1))) (outpack (p_rts ?p))" ?p] st
    by (simp add: set_rts_def rcvd_clear_def)
  moreover have "nat (datalen (p_rts p) + 8) \<le> length (outpack (p_rts p))" using assms(3) by simp
  ultimately have "ping4_send_probe quiet_os p = ret (set_rts (\<lambda>rts. rts\<lparr>outpack := pkt\<rparr>) r, 0)"
    and "opts (p_rts (set_rts (\<lambda>rts. rts\<lparr>outpack := pkt\<rparr>) r)) = opts (p_rts p)"
    using assms st by (simp_all add: ping4_send_probe_def need_def Let_def set_rts_def rcvd_clear_def min_absorb2)
  then show thesis using that ping4_send_probe_keeps [of quiet_os p] by auto
qed

text \<open>The sample process, five seconds after its last probe.\<close>

definition idle_proc :: "nat ping_proc" where
  "idle_proc = (sample_proc (sample_rts\<lparr>cur_time := \<lparr>ts_sec = 1, ts_nsec = 0\<rparr>\<rparr>))\<lparr>world := 5\<rparr>"

lemma idle_proc_sends:
  "\<exists>q. returns (pinger strerror quiet_os (ping4_func_set strerror quiet_os True) 1 idle_proc) (q, 1000) \<and> attempts quiet_os idle_proc"
proof -
  let ?p1 = "idle_proc\<lparr>p_rts := (p_rts idle_proc)\<lparr>cur_time := \<lparr>ts_sec = 6, ts_nsec = 0\<rparr>\<rparr>, world := 6, tokens := 0\<rparr>"
  have "pinger_rate quiet_os idle_proc = (?p1, None)"
    by (simp add: pinger_rate_def idle_proc_def elapsed_ms_def)
  moreover have "\<not> pinger_done (p_rts idle_proc)" by (simp add: idle_proc_def pinger_done_def)
  moreover have "report_outstanding quiet_os ?p1 = ret ?p1"
    by (simp add: report_outstanding_def idle_proc_def no_opts_def)
  moreover have "\<exists>q. ping4_send_probe quiet_os ?p1 = ret (q, 0) \<and> keeps ?p1 q \<and> opts (p_rts q) = opts (p_rts ?p1)"
    by (rule quiet_send [of ?p1]) (auto simp: idle_proc_def)
  moreover have "interval (p_rts q) = 1000" if "keeps ?p1 q" for q :: "nat ping_proc"
    using schedule_eqD(7) [of "p_rts q" "p_rts ?p1"] that by (simp add: idle_proc_def no_opts_def)
  moreover have "interval (advance_ntransmitted r) = interval r" for r by (simp add: advance_ntransmitted_def Let_def)
  ultimately show ?thesis
    by (auto simp: pinger_def attempts_def ping4_func_set_def pinger_sent_def Let_def)
qed

theorem probe_rate_witness:
  "\<exists>q. sending (\<lambda>_. []) quiet_os (ping4_func_set (\<lambda>_. []) quiet_os True) idle_proc 1 q \<and>
    1000000 * (1000 * ntransmitted (p_rts q)) \<le> ns_of (cur_time (p_rts q)) - 1000000000 + 999999"
proof -
  obtain q where q: "returns (pinger (\<lambda>_. []) quiet_os (ping4_func_set (\<lambda>_. []) quiet_os True) 1 idle_proc) (q, 1000)"
    and go: "attempts quiet_os idle_proc"
    using idle_proc_sends by blast
  have run: "sending (\<lambda>_. []) quiet_os (ping4_func_set (\<lambda>_. []) quiet_os True) idle_proc 1 q"
    using sending.call [OF sending.start q] go by simp
  have "1000000 * (interval (p_rts idle_proc) * (ntransmitted (p_rts q) - ntransmitted (p_rts idle_proc))) \<le>
      1000000 * (interval (p_rts idle_proc) * (preload (p_rts idle_proc) - 1)) +
      ns_of (cur_time (p_rts q)) - ns_of (cur_time (p_rts idle_proc)) + 999999 * int 1"
    by (rule probe_rate [OF run]) (auto simp: idle_proc_def no_opts_def)
  then show ?thesis using run by (auto simp: idle_proc_def ns_of_def)
qed

subsection \<open>The end of a run\<close>

text \<open>The statistics at the end change only the JSON buffers.\<close>

definition same_counts :: "ping_rts \<Rightarrow> ping_rts \<Rightarrow> bool" where
  "same_counts r s \<longleftrightarrow> s = r\<lparr>json_packet := json_packet s, json_stats := json_stats s\<rparr>"

lemma same_counts_refl [simp]: "same_counts r r"
  by (simp add: same_counts_def)

lemma same_counts_trans: "same_counts r s \<Longrightarrow> same_counts s t \<Longrightarrow> same_counts r t"
  by (cases r; cases s; cases t) (simp add: same_counts_def)

lemma same_counts_seq:
  "yields m (same_counts r) \<Longrightarrow> (\<And>s. yields (f s) (same_counts s)) \<Longrightarrow> yields (and_then m f) (same_counts r)"
  by (rule yields_and_then) (auto simp: yields_def intro: same_counts_trans)

lemma ping_print_finish_same: "yields (ping_print_finish r) (same_counts r)"
proof -
  have line: "yields (ping_finish_line s) (same_counts s)" for s by (simp add: ping_finish_line_def)
  have stats: "yields (ping_print_statistics s tv) (same_counts s)" for s tv
    unfolding ping_print_statistics_def construct_json_statistics_def Let_def
    by (intro yields_if yields_then_any) (simp_all add: same_counts_def)
  have flood: "yields (construct_json_statistics_flood s a b) (same_counts s)" for s a b
    unfolding construct_json_statistics_flood_def
    by (intro yields_if yields_then_any) (simp_all add: same_counts_def)
  have ipg: "yields (finish_ipg s tv c) (same_counts s)" for s tv c
    unfolding finish_ipg_def Let_def by (intro yields_if same_counts_seq flood) simp_all
  have show_stats: "yields (print_json_statistics s) (same_counts s)" for s
    by (simp add: print_json_statistics_def same_counts_def)
  show ?thesis unfolding ping_print_finish_def Let_def
    by (intro yields_if same_counts_seq line stats ipg show_stats) simp_all
qed

lemma same_counts_sel:
  assumes "same_counts r s"
  shows "nreceived s = nreceived r" "ntransmitted s = ntransmitted r" "npackets s = npackets r" "deadline s = deadline r"
    "nerrors s = nerrors r" "exiting s = exiting r"
  by (subst assms [unfolded same_counts_def], simp)+

lemma finish_code:
  "yields (finish post cfg mechs key r) (\<lambda>(s, code). same_counts r s \<and>
     code = (if nreceived s = 0 \<or> (deadline s \<noteq> 0 \<and> nreceived s < npackets s) then 1 else 0))"
  unfolding finish_def
  by (rule yields_and_then [OF ping_print_finish_same], rule yields_then_any) simp

text \<open>
  The outcome of a run, for every protocol: the condition to end holds, the code is that of \<open>finish\<close>,
  and the number of probes is within the count.
\<close>

definition run_outcome :: "'w ping_proc \<Rightarrow> 'w ping_proc \<Rightarrow> int \<Rightarrow> bool" where
  "run_outcome p q code \<longleftrightarrow>
     main_exit (p_rts q) \<and> npackets (p_rts q) = npackets (p_rts p) \<and> deadline (p_rts q) = deadline (p_rts p) \<and>
     code = (if nreceived (p_rts q) = 0 \<or> (deadline (p_rts q) \<noteq> 0 \<and> nreceived (p_rts q) < npackets (p_rts q)) then 1 else 0) \<and>
     (within_count (p_rts p) \<longrightarrow> within_count (p_rts q))"

context probe_engine begin

lemma loop_outcome:
  "yields (main_loop strerror os fset sock_raw (finish post cfg mechs key) fuel p) (\<lambda>(q, code). run_outcome p q code)"
proof (rule yields_mono [OF main_loop_ends], clarify)
  fix q :: "'w ping_proc" and code and r :: "'w ping_proc"
  assume r: "counted p r" "main_exit (p_rts r)" "returns (finish post cfg mechs key (p_rts r)) (p_rts q, code)"
  have q: "same_counts (p_rts r) (p_rts q)"
    "code = (if nreceived (p_rts q) = 0 \<or> (deadline (p_rts q) \<noteq> 0 \<and> nreceived (p_rts q) < npackets (p_rts q)) then 1 else 0)"
    using yields_returns [OF finish_code r(3)] by simp_all
  then show "run_outcome p q code"
    using r(1,2) same_counts_sel [OF q(1)] by (auto simp: run_outcome_def counted_def within_count_def main_exit_def)
qed

end

text \<open>
  If \<open>main_loop\<close> ends for IPv4, its condition to end holds: the user asked for it, enough replies
  and errors came, or there was an error before the deadline.  The exit code is 1 exactly if no
  reply was counted, or, with a deadline, fewer than the count; otherwise it is 0.  With a count
  and no deadline the program never sends more probes than the count, whatever the network does.
\<close>

theorem run_ends:
  assumes "returns (main_loop strerror os (ping4_func_set strerror os sock_raw) sock_raw (finish post cfg mechs key) fuel p) (q, code)"
    and "ntransmitted (p_rts p) \<le> npackets (p_rts p)"
  shows "main_exit (p_rts q) \<and> npackets (p_rts q) = npackets (p_rts p) \<and> deadline (p_rts q) = deadline (p_rts p) \<and>
    (code = 1 \<longleftrightarrow> nreceived (p_rts q) = 0 \<or> (deadline (p_rts p) \<noteq> 0 \<and> nreceived (p_rts q) < npackets (p_rts p))) \<and>
    (code = 0 \<or> code = 1) \<and>
    (npackets (p_rts p) = 0 \<or> deadline (p_rts p) \<noteq> 0 \<or> ntransmitted (p_rts q) \<le> npackets (p_rts p))"
  using yields_returns [OF ping4.loop_outcome assms(1)] assms(2)
  by (auto simp: run_outcome_def within_count_def split: if_splits)

text \<open>A run that the user ends before the first probe.\<close>

definition silent :: coping_config where
  "silent = \<lparr>no_context = True, mechanism_names = []\<rparr>"

theorem run_ends_witness:
  "\<exists>q code. returns (main_loop (\<lambda>_. []) quiet_os (ping4_func_set (\<lambda>_. []) quiet_os True) True
      (finish (\<lambda>_ _. Init_Failed) silent [] []) 1 ((sample_proc sample_rts)\<lparr>world := 4\<rparr>)) (q, code) \<and>
    main_exit (p_rts q) \<and> (code = 1 \<longleftrightarrow> nreceived (p_rts q) = 0) \<and> ntransmitted (p_rts q) \<le> 1"
proof -
  let ?p = "(sample_proc sample_rts)\<lparr>world := 4\<rparr>"
  have "\<exists>s. returns (ping_print_finish (sample_rts\<lparr>exiting := True\<rparr>)) s"
    by (auto simp: ping_print_finish_def ping_finish_line_def finish_ipg_def no_opts_def Let_def)
  then have "\<exists>q code. returns (main_loop (\<lambda>_. []) quiet_os (ping4_func_set (\<lambda>_. []) quiet_os True) True
      (finish (\<lambda>_ _. Init_Failed) silent [] []) 1 ?p) (q, code)"
    by (auto simp: main_exit_def deliver_signals_def finish_def coping_add_context_def silent_def returns_and_then)
  then obtain q code where run: "returns (main_loop (\<lambda>_. []) quiet_os (ping4_func_set (\<lambda>_. []) quiet_os True) True
      (finish (\<lambda>_ _. Init_Failed) silent [] []) 1 ?p) (q, code)" by blast
  then show ?thesis using run_ends [OF run] by auto
qed

end
