(* ===== verification/Ping6.thy ===== *)
theory Ping6
  imports Ping_Run
begin

text \<open>
  The IPv6 side, \<open>ping/ping6_common.c\<close>: probes (echo requests and node information queries), replies,
  errors from the error queue, and the socket filter.  The kernel computes and checks the checksum
  and takes away the IPv6 header.  Expanding DNS names and writing addresses are parameters.
\<close>

abbreviation ICMP6_ECHO_REQUEST :: u8 where "ICMP6_ECHO_REQUEST \<equiv> 128"
abbreviation ICMP6_ECHO_REPLY :: u8 where "ICMP6_ECHO_REPLY \<equiv> 129"
abbreviation IPUTILS_NI_ICMP6_QUERY :: u8 where "IPUTILS_NI_ICMP6_QUERY \<equiv> 139"
abbreviation IPUTILS_NI_ICMP6_REPLY :: u8 where "IPUTILS_NI_ICMP6_REPLY \<equiv> 140"

text \<open>
  The memory of the digest's context; by \<open>md5_streamed\<close> nothing depends on it.
\<close>

abbreviation stack_block :: "u8 list" where "stack_block \<equiv> zeros 64"

text \<open>
  \<open>dn_expand\<close> on a message and an offset: the name, and the bytes it takes there; \<open>inet_ntop\<close>.
\<close>

record ni_display =
  nd_dn_expand :: "u8 list \<Rightarrow> nat \<Rightarrow> (string \<times> nat) option"
  nd_ntop :: "u8 list \<Rightarrow> string"

definition ntohsp :: "u8 list \<Rightarrow> u16" where
  "ntohsp p = be16 (p ! 0) (p ! 1)"

subsection \<open>\<open>print_icmp\<close>\<close>

definition dst_unreach_text :: "u8 \<Rightarrow> string" where
  "dst_unreach_text code =
     (let texts = [''No route'', ''Administratively prohibited'', ''Beyond scope of source address'',
            ''Address unreachable'', ''Port unreachable'', ''Source address failed ingress/egress policy'',
            ''Reject route to destination'']
      in if unat code < length texts then texts ! unat code else ''Unknown code '' @ fmt_d (uint code))"

definition param_prob_text :: "u8 \<Rightarrow> string" where
  "param_prob_text code =
     (if code = 0 then ''Wrong header field '' else if code = 1 then ''Unknown header ''
      else if code = 2 then ''Unknown option '' else ''code '' @ fmt_d (uint code) @ '' '')"

definition print_icmp :: "u8 \<Rightarrow> u8 \<Rightarrow> u32 \<Rightarrow> string" where
  "print_icmp type code info =
     (if type = 1 then ''Destination unreachable: '' @ dst_unreach_text code
      else if type = 2
      then ''Packet too big: mtu='' @ fmt_d (uint info) @ (if code \<noteq> 0 then '', code='' @ fmt_d (uint code) else [])
      else if type = 3
      then ''Time exceeded: '' @ (if code = 0 then ''Hop limit'' else if code = 1 then ''Defragmentation failure''
             else ''code '' @ fmt_d (uint code))
      else if type = 4 then ''Parameter problem: '' @ param_prob_text code @ ''at '' @ fmt_d (uint info)
      else if type = ICMP6_ECHO_REQUEST then ''Echo request'' else if type = ICMP6_ECHO_REPLY then ''Echo reply''
      else if type = 130 then ''MLD Query'' else if type = 131 then ''MLD Report''
      else if type = 132 then ''MLD Reduction'' else ''unknown icmp type: '' @ fmt_d (uint type))"

subsection \<open>\<open>ping6_receive_error_msg\<close>\<close>

definition local_error6 :: "'w ping_proc \<Rightarrow> extended_err \<Rightarrow> 'w ping_proc result" where
  "local_error6 p e =
     (let rts = p_rts p
      in if opt_quiet (opts rts) then ret p
         else emit [if opt_flood (opts rts) then Out ''E''
                    else if ee_errno e \<noteq> EMSGSIZE then Diag (ee_errno e) ''local error''
                    else Diag 0 (''local error: message too long, mtu: '' @ fmt_d (uint (ee_info e)))]
                (ret (set_rts (\<lambda>rts. rts\<lparr>nerrors := nerrors rts + 1\<rparr>) p)))"

definition own_error6 :: "ping_rts \<Rightarrow> bool \<Rightarrow> error_message \<Rightarrow> bool" where
  "own_error6 rts sock_raw em \<longleftrightarrow>
     length (em_data em) \<ge> 8 \<and> em_target em = whereto6 rts \<and> em_data em ! 0 = ICMP6_ECHO_REQUEST \<and>
     is_ours rts sock_raw (le16 (em_data em ! 4) (em_data em ! 5))"

definition net_error6 :: "'w os \<Rightarrow> 'w ping_proc \<Rightarrow> u16 \<Rightarrow> extended_err \<Rightarrow> 'w ping_proc result" where
  "net_error6 os p seq e =
     (let p = set_rts (\<lambda>rts. rts\<lparr>nerrors := nerrors rts + 1\<rparr>) p; rts = p_rts p
      in if opt_quiet (opts rts) then ret p
         else if opt_flood (opts rts) then print [CHR 0x08, CHR ''E''] (ret p)
         else and_then (print_timestamp_now os p) (\<lambda>p.
              case pr_addr os p (ee_offender e) of (s, p) \<Rightarrow>
                and_then (on_rts (\<lambda>rts. ping_print_error_packet rts s (ucast seq)) p)
                  (print (print_icmp (ee_type e) (ee_code e) (ee_info e)) \<circ> print newline \<circ> ret)))"

definition ping6_receive_error_msg :: "'w os \<Rightarrow> bool \<Rightarrow> 'w ping_proc \<Rightarrow> ('w ping_proc \<times> int) result" where
  "ping6_receive_error_msg os sock_raw p =
     (let saved_errno = p_errno p
      in case os_recverr os (world p) of
           (Inl e, w) \<Rightarrow> ret (p\<lparr>world := w, p_errno := saved_errno\<rparr>, if e = EAGAIN \<or> e = EINTR then - 1 else 0)
         | (Inr em, w) \<Rightarrow> let p = p\<lparr>world := w\<rparr>
             in case em_err em of
                  None \<Rightarrow> stop_with Abort
                | Some e \<Rightarrow>
                    if ee_origin e = SO_EE_ORIGIN_LOCAL
                    then and_then (local_error6 p e) (\<lambda>p. ret (p\<lparr>p_errno := saved_errno\<rparr>, - 1))
                    else if ee_origin e = SO_EE_ORIGIN_ICMP6
                    then if \<not> own_error6 (p_rts p) sock_raw em then ret (p\<lparr>p_errno := 0\<rparr>, 0)
                         else and_then (net_error6 os p (be16 (em_data em ! 6) (em_data em ! 7)) e)
                                (\<lambda>p. ret (p\<lparr>p_errno := saved_errno\<rparr>, 1))
                    else ret (p\<lparr>p_errno := saved_errno\<rparr>, 0))"

subsection \<open>Probes\<close>

text \<open>Both build the packet in \<open>outpack\<close> and give its length.\<close>

definition build_echo :: "'w os \<Rightarrow> 'w ping_proc \<Rightarrow> ('w ping_proc \<times> int) result" where
  "build_echo os p =
     (let rts = p_rts p;
          pkt = splice 0 ([ICMP6_ECHO_REQUEST, 0, 0, 0] @ le16_bytes (to_u16 (ident rts)) @
                          be16_bytes (to_u16 (ntransmitted rts + 1))) (outpack rts)
      in need (if timing rts then 24 else 8) (outpack rts) (case time_if os (timing rts) p of (now, p) \<Rightarrow>
           ret (set_rts (\<lambda>rts. rts\<lparr>outpack := if timing rts then splice 8 (timeval_bytes now) pkt else pkt\<rparr>) p,
                datalen rts + 8)))"

definition build_niquery :: "'w ping_proc \<Rightarrow> ('w ping_proc \<times> int) result" where
  "build_niquery p =
     (let rts = p_rts p; q = ni rts; pkt = outpack rts;
          (c, nonce) = niquery_fill_nonce stack_block q (nonces p) (to_u16 (ntransmitted rts + 1))
                         (take NI_NONCE_SIZE (drop 8 pkt))
      in case ni_subject q of
           None \<Rightarrow> stop_with Undefined
         | Some subject \<Rightarrow>
             if length subject < ni_subject_len q then stop_with Undefined
             else need (16 + ni_subject_len q) pkt
               (let hdr = [IPUTILS_NI_ICMP6_QUERY, word_of_int (ni_subject_type q), 0, 0] @
                      be16_bytes (to_u16 (ni_query q)) @ le16_bytes (ni_flag q);
                    pkt = splice 0 (hdr @ nonce @ take (ni_subject_len q) subject) pkt
                in ret (set_rts (\<lambda>rts. rts\<lparr>datalen := 0, outpack := pkt\<rparr>) (p\<lparr>nonces := c\<rparr>),
                        16 + int (ni_subject_len q))))"

text \<open>\<open>sendto\<close>, or \<open>sendmsg\<close> with control data; the confirm flag is for this packet only.\<close>

definition ping6_send_probe :: "'w os \<Rightarrow> 'w ping_proc \<Rightarrow> ('w ping_proc \<times> int) result" where
  "ping6_send_probe os p =
     (let p = set_rts (\<lambda>rts. rcvd_clear rts (to_u16 (ntransmitted rts + 1))) p
      in and_then (if niquery_is_enabled (ni (p_rts p)) then build_niquery p else build_echo os p) (\<lambda>(p, len).
         let rts = p_rts p
         in need (nat len) (outpack rts)
           (case os_sendto6 os (world p) (take (nat len) (outpack rts)) (confirm rts) (cmsgbuf rts) of ((cc, e), w) \<Rightarrow>
              ret (set_rts (\<lambda>rts. rts\<lparr>confirm := 0\<rparr>) p\<lparr>world := w, p_errno := if cc < 0 then e else p_errno p\<rparr>,
                   if cc = len then 0 else cc))))"

subsection \<open>What is shown of a reply\<close>

definition pr_echo_reply6 :: "u8 list \<Rightarrow> ping_rts \<Rightarrow> ping_rts result" where
  "pr_echo_reply6 icmph rts =
     ping_print_uint rts (\<lambda>u. '' icmp_seq='' @ fmt_d (uint u)) ''seq'' (ucast (be16 (icmph ! 6) (icmph ! 7)))"

text \<open>\<open>char\<close> is signed: a byte above 127 is printed as the negative number it is, in octal.\<close>

definition putchar_safe :: "char \<Rightarrow> string" where
  "putchar_safe c =
     (let n = of_char c
      in if 32 \<le> n \<and> n \<le> 126 then [c]
         else CHR 0x5C # pad_left (CHR ''0'') 3 (nat_digits 8 (if n < 128 then n else 2 ^ 32 - 256 + n)))"

text \<open>The names of a reply; \<open>msg\<close> is what follows the header, the names start at offset 4.\<close>

fun reply_names :: "ni_display \<Rightarrow> nat \<Rightarrow> u8 list \<Rightarrow> nat \<Rightarrow> bool \<Rightarrow> ping_rts \<Rightarrow> ping_rts result" where
  "reply_names d 0 msg off continued rts = stop_with Out_Of_Fuel"
| "reply_names d (Suc fuel) msg off continued rts =
     (if off \<ge> length msg then ret rts
      else print (if continued then '','' else [])
        (case nd_dn_expand d msg off of
           None \<Rightarrow> ping_print_error_parse rts ''truncated''
         | Some (name, n) \<Rightarrow>
             let fqdn = \<not> (off + n < length msg \<and> msg ! (off + n) = 0)
             in print ('' '' @ concat (map putchar_safe name) @ (if fqdn then ''.'' else []))
                  (reply_names d fuel msg (off + n + (if fqdn then 0 else 1)) True rts)))"

definition pr_niquery_reply_name :: "ni_display \<Rightarrow> u8 list \<Rightarrow> int \<Rightarrow> ping_rts \<Rightarrow> ping_rts result" where
  "pr_niquery_reply_name d nih len rts =
     (if len - 20 < 0 then ping_print_error_parse rts ''too short''
      else need (nat len) nih
        (let msg = drop 16 (take (nat len) nih) in reply_names d (Suc (length msg)) msg 4 False rts))"

function reply_addrs :: "ni_display \<Rightarrow> nat \<Rightarrow> u8 list \<Rightarrow> bool \<Rightarrow> ping_rts \<Rightarrow> ping_rts result" where
  "reply_addrs d aflen p continued rts =
     (if p = [] then ret rts
      else print (if continued then '','' else [])
        (if 4 + aflen > length p then ping_print_error_parse rts ''truncated''
         else print ('' '' @ nd_ntop d (take aflen (drop 4 p))) (reply_addrs d aflen (drop (4 + aflen) p) True rts)))"
  by pat_completeness auto
termination by (relation "measure (\<lambda>(d, aflen, p, c, rts). length p)") auto

declare reply_addrs.simps [simp del]

definition pr_niquery_reply_addr :: "ni_display \<Rightarrow> u8 list \<Rightarrow> int \<Rightarrow> ping_rts \<Rightarrow> ping_rts result" where
  "pr_niquery_reply_addr d nih len rts =
     (let aflen = (if be16 (nih ! 4) (nih ! 5) = 4 then 4 else 16);
          truncated = (le16 (nih ! 6) (nih ! 7) AND htons 0x0001 \<noteq> 0)
      in need (nat len) nih
        (if len < 0 then ping_print_error_parse rts ''too short''
         else and_then (reply_addrs d aflen (drop 16 (take (nat len) nih)) False rts)
                (if truncated then ping_print_truncated else ret)))"

definition pr_niquery_reply :: "ni_display \<Rightarrow> u8 list \<Rightarrow> int \<Rightarrow> ping_rts \<Rightarrow> ping_rts result" where
  "pr_niquery_reply d nih len rts =
     need 16 nih (let code = nih ! 1; qtype = be16 (nih ! 4) (nih ! 5)
       in and_then (if code = 0
                    then if uint qtype = IPUTILS_NI_QTYPE_DNSNAME then pr_niquery_reply_name d nih len rts
                         else if uint qtype = IPUTILS_NI_QTYPE_IPV4ADDR \<or> uint qtype = IPUTILS_NI_QTYPE_IPV6ADDR
                         then pr_niquery_reply_addr d nih len rts
                         else ping_print_error_qtype rts (ucast qtype)
                    else if code = 1 then print '' refused'' (ret rts)
                    else if code = 2 then print '' unknown'' (ret rts)
                    else print ('' unknown code('' @ fmt_0x 2 (unat (ntohs (ucast code))) @ '')'') (ret rts))
            (print (''; seq='' @ fmt_d (uint (ntohsp (take 2 (drop 8 nih)))) @ '';'') \<circ> ret))"

subsection \<open>\<open>ping6_parse_reply\<close>\<close>

definition finish_reply6 :: "'w ping_proc \<Rightarrow> ('w ping_proc \<times> bool) result" where
  "finish_reply6 p =
     print (if opt_audible (opts (p_rts p)) then [CHR 0x07] else [])
       (if opt_flood (opts (p_rts p)) then ret (p, False)
        else and_then (on_rts ping_finish_line p) (\<lambda>p. ret (p, False)))"

definition gathered_reply6 ::
    "'w os \<Rightarrow> 'w ping_proc \<Rightarrow> u8 list \<Rightarrow> int \<Rightarrow> u16 \<Rightarrow> int \<Rightarrow> timeval \<Rightarrow> u8 list \<Rightarrow> (ping_rts \<Rightarrow> ping_rts result) \<Rightarrow>
     bool \<Rightarrow> ('w ping_proc \<times> bool) result" where
  "gathered_reply6 os p icmph cc seq hops tv from pr_reply wrong_source =
     (case pr_addr os p from of (s, p) \<Rightarrow>
        and_then (gather os p (drop 8 icmph) cc seq hops False tv s pr_reply (multicast (p_rts p)) wrong_source)
          (\<lambda>(p, r). if r \<noteq> 0 then ret (p, False) else finish_reply6 p))"

text \<open>An ICMPv6 error, which the filter keeps away: about a probe of ours, or shown with \<open>-v\<close>.\<close>

definition parse_other6 :: "'w os \<Rightarrow> bool \<Rightarrow> 'w ping_proc \<Rightarrow> u8 list \<Rightarrow> int \<Rightarrow> u8 list \<Rightarrow> ('w ping_proc \<times> bool) result" where
  "parse_other6 os sock_raw p icmph cc from =
     (let rts = p_rts p; iph1 = drop 8 icmph
      in if cc < 8 + 40 + 8 then ret (p, True)
         else need (if icmph ! 14 = 44 then 64 else 56) icmph
           (if take 16 (drop 24 iph1) \<noteq> whereto6 rts then ret (p, True)
            else let fragment = (iph1 ! 6 = 44); nexthdr = (if fragment then iph1 ! 40 else iph1 ! 6);
                     icmph1 = drop (if fragment then 48 else 40) iph1
                 in if nexthdr = 58
                    then if icmph1 ! 0 \<noteq> ICMP6_ECHO_REQUEST \<or> \<not> is_ours rts sock_raw (le16 (icmph1 ! 4) (icmph1 ! 5))
                         then ret (p, True)
                         else ret (set_rts (\<lambda>rts. acknowledge rts (be16 (icmph1 ! 6) (icmph1 ! 7))) p, False)
                    else if \<not> opt_verbose (opts rts) \<or> uid rts \<noteq> 0 then ret (p, True)
                    else and_then (print_timestamp_now os p) (\<lambda>p. case pr_addr os p from of (s, p) \<Rightarrow>
                           print (''From '' @ s @ '': '' @ print_icmp (icmph ! 0) (icmph ! 1) (be32 (drop 4 icmph)))
                             (finish_reply6 p))))"

definition ping6_parse_reply ::
    "(int \<Rightarrow> string) \<Rightarrow> ni_display \<Rightarrow> 'w os \<Rightarrow> bool \<Rightarrow> 'w ping_proc \<Rightarrow> message \<Rightarrow> timeval \<Rightarrow> ('w ping_proc \<times> bool) result" where
  "ping6_parse_reply strerror d os sock_raw p m tv =
     (let icmph = msg_buf m; cc = msg_cc m; rts = p_rts p; hops = (if msg_ttl m = [] then - 1 else last (msg_ttl m))
      in if cc < 8
         then and_then (if opt_verbose (opts rts)
                        then on_rts (\<lambda>rts. ping_error strerror rts 0 0 (''packet too short: '' @ fmt_d cc @ '' bytes'')) p
                        else ret p) (\<lambda>p. ret (p, True))
         else need 8 icmph
           (if icmph ! 0 = ICMP6_ECHO_REPLY
            then if \<not> is_ours rts sock_raw (le16 (icmph ! 4) (icmph ! 5)) then ret (p, True)
                 else gathered_reply6 os p icmph cc (be16 (icmph ! 6) (icmph ! 7)) hops tv (msg_name m)
                        (pr_echo_reply6 icmph)
                        (\<not> multicast rts \<and> \<not> subnet_router_anycast rts \<and> msg_name m \<noteq> whereto6 rts)
            else if icmph ! 0 = IPUTILS_NI_ICMP6_REPLY
            then need 16 icmph
              (case niquery_check_nonce stack_block (ni rts) (nonces p) (take NI_NONCE_SIZE (drop 8 icmph)) of (c, seq) \<Rightarrow>
                 let p = p\<lparr>nonces := c\<rparr>
                 in if seq < 0 then ret (p, True)
                    else gathered_reply6 os p icmph cc (to_u16 seq) hops tv (msg_name m) (pr_niquery_reply d icmph cc) False)
            else parse_other6 os sock_raw p icmph cc (msg_name m)))"

subsection \<open>\<open>ping6_install_filter\<close> and the rest of the function table\<close>

definition filter_insns6 :: "u32 \<Rightarrow> bpf_insn list" where
  "filter_insns6 k = [BPF_LD_H_ABS 4, BPF_JEQ k 0 1, BPF_RET (- 1), BPF_LD_B_ABS 0,
     BPF_JEQ (ucast ICMP6_ECHO_REPLY) 1 0, BPF_RET (- 1), BPF_RET 0]"

definition ping6_filter :: "ping_rts \<Rightarrow> bpf_insn list" where
  "ping6_filter rts = filter_insns6 (ucast (htons (to_u16 (ident rts))))"

definition ping6_install_filter :: "'w os \<Rightarrow> 'w ping_proc \<Rightarrow> 'w ping_proc result" where
  "ping6_install_filter os p =
     (if filtered p then ret p
      else case os_setsockopt os (world p) ''SO_ATTACH_FILTER'' [uint (htons (to_u16 (ident (p_rts p))))] of (e, w) \<Rightarrow>
        let p = p\<lparr>filtered := True, world := w\<rparr>
        in if e \<noteq> 0 then emit [Diag e ''WARNING: failed to install socket filter''] (ret (p\<lparr>p_errno := e\<rparr>))
           else ret p)"

definition ping6_print_data_bytes :: "ping_rts \<Rightarrow> int \<Rightarrow> string" where
  "ping6_print_data_bytes rts bytes = fmt_d (datalen rts) @ '' data bytes'' @ newline"

definition ping6_source :: "'w os \<Rightarrow> 'w ping_proc \<Rightarrow> string \<times> 'w ping_proc" where
  "ping6_source os p = pr_addr os p (source6 (p_rts p))"

definition ping6_target :: "'w os \<Rightarrow> 'w ping_proc \<Rightarrow> string \<times> 'w ping_proc" where
  "ping6_target os p = pr_raw_addr os p (whereto6 (p_rts p))"

definition ping6_func_set :: "(int \<Rightarrow> string) \<Rightarrow> ni_display \<Rightarrow> 'w os \<Rightarrow> bool \<Rightarrow> 'w ping_func_set_st" where
  "ping6_func_set strerror d os sock_raw =
     \<lparr>send_probe = ping6_send_probe os, receive_error_msg = ping6_receive_error_msg os sock_raw,
      parse_reply = ping6_parse_reply strerror d os sock_raw, install_filter = ping6_install_filter os\<rparr>"

subsection \<open>The functions of IPv6 keep the schedule\<close>

lemma rts_schedule_datalen [simp]: "rts_schedule (r\<lparr>datalen := i\<rparr>) = rts_schedule r"
  by (simp add: rts_schedule_def)

lemma local_error6_keeps: "yields (local_error6 p e) (keeps p)"
  by (simp add: local_error6_def Let_def set_rts_def)

lemma net_error6_keeps: "yields (net_error6 os p seq e) (keeps p)"
proof -
  let ?p = "set_rts (\<lambda>rts. rts\<lparr>nerrors := nerrors rts + 1\<rparr>) p"
  have err: "yields (ping_print_error_packet rts s c) (keeps_rts rts)" for rts s c
    by (simp add: ping_print_error_packet_def)
  have "yields (case pr_addr os q sa of (s, p) \<Rightarrow> and_then (on_rts (\<lambda>rts. ping_print_error_packet rts s c) p)
      (print t \<circ> print u \<circ> ret)) (keeps q)" for q sa c t u
    by (rule with_addr_keeps, rule keeps_step, rule keeps_seq, rule on_rts_keeps, rule err) simp_all
  then have "yields (and_then (print_timestamp_now os ?p) (\<lambda>q. case pr_addr os q sa of (s, p) \<Rightarrow>
      and_then (on_rts (\<lambda>rts. ping_print_error_packet rts s c) p) (print t \<circ> print u \<circ> ret))) (keeps ?p)"
    for sa c t u
    by (intro keeps_seq [OF print_timestamp_now_keeps])
  then have "yields (net_error6 os p seq e) (keeps ?p)" by (simp add: net_error6_def Let_def)
  then show ?thesis by (simp add: set_rts_def)
qed

lemma ping6_receive_error_msg_keeps: "yields (ping6_receive_error_msg os raw p) (\<lambda>(q, i). keeps p q)"
proof -
  have "yields (and_then (local_error6 (p\<lparr>world := w\<rparr>) e) (\<lambda>p. ret (p\<lparr>p_errno := er\<rparr>, - 1))) (\<lambda>(r, i). keeps p r)"
    for w e er
    by (rule yields_and_then [OF local_error6_keeps]) auto
  moreover have "yields (and_then (net_error6 os (p\<lparr>world := w\<rparr>) seq e) (\<lambda>p. ret (p\<lparr>p_errno := er\<rparr>, 1)))
      (\<lambda>(r, i). keeps p r)" for w seq e er
    by (rule yields_and_then [OF net_error6_keeps]) auto
  ultimately show ?thesis
    by (auto simp: ping6_receive_error_msg_def Let_def split: prod.split sum.split option.split)
qed

lemma ping6_send_probe_keeps: "yields (ping6_send_probe os p) (\<lambda>(q, i). keeps p q)"
proof -
  let ?p = "set_rts (\<lambda>rts. rcvd_clear rts (to_u16 (ntransmitted rts + 1))) p"
  have echo: "yields (build_echo os q) (\<lambda>(r, i). keeps q r)" for q :: "'a ping_proc"
    by (simp add: build_echo_def Let_def) (auto simp: set_rts_def intro!: with_time_keeps)
  have query: "yields (build_niquery q) (\<lambda>(r, i). keeps q r)" for q :: "'a ping_proc"
    by (simp add: build_niquery_def Let_def set_rts_def split: option.split prod.split)
  have "keeps p ?p" by (simp add: set_rts_def)
  have "yields (if niquery_is_enabled (ni (p_rts ?p)) then build_niquery ?p else build_echo os ?p) (\<lambda>(q, i). keeps p q)"
    using keeps_pair_step [OF echo \<open>keeps p ?p\<close>] keeps_pair_step [OF query \<open>keeps p ?p\<close>] by simp
  then show ?thesis unfolding ping6_send_probe_def Let_def
    by (rule yields_and_then) (auto simp: set_rts_def split: prod.split)
qed

lemma reply_addrs_keeps: "yields (reply_addrs d n p c r) (keeps_rts r)"
proof (induction d n p c r rule: reply_addrs.induct)
  case (1 d n p c r)
  have "yields (ping_print_error_parse r s) (keeps_rts r)" for s
    by (simp add: ping_print_error_parse_def construct_json_keeps)
  then show ?case using 1 by (subst reply_addrs.simps) simp
qed

lemma reply_names_keeps: "yields (reply_names d fuel msg off c r) (keeps_rts r)"
proof (induction fuel arbitrary: off c)
  case (Suc fuel)
  have "yields (ping_print_error_parse r s) (keeps_rts r)" for s
    by (simp add: ping_print_error_parse_def construct_json_keeps)
  then show ?case using Suc by (simp add: Let_def split: option.split)
qed simp

lemma pr_niquery_reply_keeps: "yields (pr_niquery_reply d nih len r) (keeps_rts r)"
proof -
  have parse: "yields (ping_print_error_parse r s) (keeps_rts r)" for r s
    by (simp add: ping_print_error_parse_def construct_json_keeps)
  have cut: "yields (ping_print_truncated r) (keeps_rts r)" for r
    by (simp add: ping_print_truncated_def construct_json_keeps)
  have "yields (pr_niquery_reply_name d nih len r) (keeps_rts r)"
    by (simp add: pr_niquery_reply_name_def Let_def parse reply_names_keeps del: reply_names.simps)
  moreover have "yields (pr_niquery_reply_addr d nih len r) (keeps_rts r)"
    unfolding pr_niquery_reply_addr_def Let_def yields_need
    by (intro impI yields_if parse keeps_rts_seq reply_addrs_keeps) (simp add: cut)
  moreover have "yields (ping_print_error_qtype r v) (keeps_rts r)" for v
    by (simp add: ping_print_error_qtype_def construct_json_keeps)
  ultimately show ?thesis unfolding pr_niquery_reply_def Let_def yields_need
    by (intro impI keeps_rts_seq yields_if) simp_all
qed

lemma finish_reply6_keeps: "yields (finish_reply6 p) (\<lambda>(q, b). keeps p q)"
proof -
  have "yields (and_then (on_rts ping_finish_line p) (\<lambda>p. ret (p, False))) (\<lambda>(r, b). keeps p r)"
    by (rule keeps_then_ret [where b = False], rule on_rts_keeps) (simp_all add: ping_finish_line_def)
  then show ?thesis by (simp add: finish_reply6_def)
qed

lemma gathered_reply6_keeps:
  assumes "\<And>s. yields (pr_reply s) (keeps_rts s)"
  shows "yields (gathered_reply6 os p icmph cc seq hops tv from pr_reply ws) (\<lambda>(q, b). keeps p q)"
proof -
  have "yields (and_then (gather os q data cc seq hops False tv s pr_reply multi ws)
      (\<lambda>(p, r). if r \<noteq> 0 then ret (p, False) else finish_reply6 p)) (\<lambda>(r, b). keeps p r)"
    if "keeps p q" for q s multi data
    by (rule yields_and_then [OF gather_keeps [OF assms]])
      (use that in \<open>auto intro: keeps_pair_step [OF finish_reply6_keeps]\<close>)
  then show ?thesis unfolding gathered_reply6_def by (intro with_addr_keeps) simp
qed

lemma parse_other6_keeps: "yields (parse_other6 os raw p icmph cc from) (\<lambda>(q, b). keeps p q)"
proof -
  have "yields (and_then (print_timestamp_now os p) (\<lambda>p. case pr_addr os p from of (s, p) \<Rightarrow>
      print (t s) (finish_reply6 p))) (\<lambda>(q, b). keeps p q)" for t
    by (rule yields_and_then [OF print_timestamp_now_keeps])
      (auto intro!: with_addr_keeps keeps_pair_step [OF finish_reply6_keeps])
  then show ?thesis by (simp add: parse_other6_def Let_def set_rts_def)
qed

lemma ping6_parse_reply_keeps: "yields (ping6_parse_reply strerror d os raw p m tv) (\<lambda>(q, b). keeps p q)"
proof -
  have echo: "yields (pr_echo_reply6 icmph s) (keeps_rts s)" for icmph s
    by (simp add: pr_echo_reply6_def ping_print_uint_def construct_json_keeps)
  have short: "yields (and_then (if b then on_rts (\<lambda>rts. ping_error strerror rts 0 0 msg) p else ret p)
      (\<lambda>p. ret (p, True))) (\<lambda>(r, b). keeps p r)" for b msg
    by (rule keeps_then_ret) (simp_all add: on_rts_keeps ping_error_keeps)
  have query: "yields (gathered_reply6 os (p\<lparr>nonces := c\<rparr>) icmph cc seq hops tv from (pr_niquery_reply d nih n) ws)
      (\<lambda>(q, b). keeps p q)" for c icmph cc seq hops "from" nih n ws
    by (rule keeps_pair_step [OF gathered_reply6_keeps [OF pr_niquery_reply_keeps]]) simp
  show ?thesis unfolding ping6_parse_reply_def Let_def
    by (auto simp: short query parse_other6_keeps intro!: gathered_reply6_keeps echo split: prod.split)
qed

lemma ping6_install_filter_keeps: "yields (ping6_install_filter os p) (keeps p)"
  by (simp add: ping6_install_filter_def Let_def split: prod.split)

interpretation ping6: probe_engine "ping6_func_set strerror d os sock_raw" for strerror d os sock_raw
  by unfold_locales (simp_all add: ping6_func_set_def ping6_send_probe_keeps ping6_receive_error_msg_keeps
    ping6_parse_reply_keeps ping6_install_filter_keeps)

end
