(* ===== verification/Ping_Ends.thy ===== *)
theory Ping_Ends
  imports Ping6
begin

text \<open>
  Loops that end: sending again after an error in \<open>pinger\<close>, and the names in the answer to a node
  information query.  Both loops are over a number of rounds in the model; here is how many are
  enough.  Also the probes of node information queries.
\<close>

subsection \<open>Runs that do not run out of rounds\<close>

lemma on_rts_ends: "ends (f (p_rts p)) \<Longrightarrow> ends (on_rts f p)"
  unfolding on_rts_def by (rule ends_seq) simp_all

lemma json_append_ends [simp]: "ends (json_append b s)"
  by (simp add: json_append_def json_bufsize_def json_emergency_def)

lemma json_array_items_ends: "ends (json_array_items b n vs)"
proof (induction b n vs rule: json_array_items.induct)
  case (3 b n v vs)
  have "ends (json_continue b)" by (simp add: json_continue_def)
  then show ?case using 3 by (auto intro!: ends_seq)
qed simp_all

lemma construct_json_ends [simp]: "ends (construct_json r k v)"
proof -
  have "ends (json_kv_array b k vs)" for b vs
    unfolding json_kv_array_def json_end_array_def by (intro ends_seq json_array_items_ends) simp_all
  then have kv: "ends (json_kv b k v)" for b
    by (simp add: json_kv_def json_kv_str_def json_kv_int_def json_kv_uint_def split: ping_json_value.split)
  have start: "ends (json_start_object b)" "ends (json_continue b)" for b
    by (simp_all add: json_start_object_def json_bufsize_def json_emergency_def json_continue_def)
  then show ?thesis unfolding construct_json_def by (auto intro!: ends_seq kv)
qed

lemma ping_error_ends [simp]: "ends (ping_error strerror r st e msg)"
proof -
  have "ends (construct_json_error strerror r e m)" for m
    by (auto simp: construct_json_error_def json_emergency_def print_json_packet_def intro!: ends_seq split: option.split)
  then show ?thesis unfolding ping_error_def Let_def by (auto intro!: ends_seq)
qed

subsection \<open>The names of a reply\<close>

lemma ping_print_error_parse_ends [simp]: "ends (ping_print_error_parse r s)"
  by (simp add: ping_print_error_parse_def)

lemma reply_names_end:
  assumes "\<And>m i name n. nd_dn_expand d m i = Some (name, n) \<Longrightarrow> 0 < n"
  shows "0 < fuel \<Longrightarrow> length msg < fuel + off \<Longrightarrow> ends (reply_names d fuel msg off c r)"
proof (induction fuel arbitrary: off c)
  case (Suc fuel)
  have "ends (reply_names d fuel msg (off + n + k) True r)"
    if "nd_dn_expand d msg off = Some (name, n)" "off < length msg" for name n k
    by (rule Suc.IH) (use assms [OF that(1)] that(2) Suc.prems in simp_all)
  then show ?case by (auto simp: Let_def split: option.split)
qed simp

text \<open>
  C29: the answer to a node information query is always shown to its end: if every name that
  \<open>dn_expand\<close> gives takes at least a byte, the loops over the names and the addresses end, for any
  bytes and any claimed length, and the function returns or stops for another reason (an overflow
  of the JSON buffer, or a message that is not in memory).
\<close>

theorem query_reply_ends:
  assumes "\<And>m i name n. nd_dn_expand d m i = Some (name, n) \<Longrightarrow> 0 < n"
  shows "ends (pr_niquery_reply d nih len r)"
proof -
  have "ends (reply_names d (Suc (length msg)) msg 4 False r)" for msg
    by (rule reply_names_end [OF assms]) simp_all
  then have names: "ends (pr_niquery_reply_name d nih len r)"
    unfolding pr_niquery_reply_name_def Let_def by (simp only: ends_need ping_print_error_parse_ends split: if_split) simp
  have "ends (reply_addrs d n p c r)" for n p c
  proof (induction d n p c r rule: reply_addrs.induct)
    case (1 d n p c r)
    then show ?case by (subst reply_addrs.simps) simp
  qed
  then have addrs: "ends (pr_niquery_reply_addr d nih len r)"
    unfolding pr_niquery_reply_addr_def Let_def by (auto simp: ping_print_truncated_def intro!: ends_need ends_seq)
  show ?thesis unfolding pr_niquery_reply_def Let_def
    by (intro ends_need ends_seq) (simp_all add: names addrs ping_print_error_qtype_def)
qed

definition no_names :: ni_display where
  "no_names = \<lparr>nd_dn_expand = (\<lambda>m i. Some (''a'', 1)), nd_ntop = (\<lambda>bs. ''::'')\<rparr>"

theorem query_reply_ends_witness:
  "ends (pr_niquery_reply no_names [140, 0, 0, 0, 0, 2, 0, 0, 0, 1, 2, 3, 4, 5, 6, 7, 0, 0, 0, 0, 1, 97, 0] 23 sample_rts)"
  by (rule query_reply_ends) (auto simp: no_names_def)

subsection \<open>Sending again after an error\<close>

text \<open>
  The error queue of the socket: every message read from it makes it shorter, nothing else makes it
  longer, and a failed \<open>sendto\<close> sets an error number.
\<close>

definition drains :: "'w os \<Rightarrow> ('w \<Rightarrow> nat) \<Rightarrow> bool" where
  "drains os pending \<longleftrightarrow>
     (\<forall>w. pending (snd (os_time os w)) \<le> pending w) \<and>
     (\<forall>w pkt. pending (snd (os_sendto os w pkt)) \<le> pending w \<and>
        (fst (fst (os_sendto os w pkt)) < 0 \<longrightarrow> snd (fst (os_sendto os w pkt)) \<noteq> 0)) \<and>
     (\<forall>w n as. pending (snd (os_setsockopt os w n as)) \<le> pending w) \<and>
     (\<forall>w sa. pending (snd (os_getname os w sa)) \<le> pending w) \<and>
     (\<forall>w. case os_recverr os w of (Inl e, w') \<Rightarrow> pending w' \<le> pending w | (Inr m, w') \<Rightarrow> pending w' < pending w)"

lemma drainsD:
  assumes "drains os pending"
  shows "os_time os w = (t, w') \<Longrightarrow> pending w' \<le> pending w"
    and "os_sendto os w pkt = ((i, e), w') \<Longrightarrow> pending w' \<le> pending w \<and> (i < 0 \<longrightarrow> e \<noteq> 0)"
    and "os_setsockopt os w n as = (e, w') \<Longrightarrow> pending w' \<le> pending w"
    and "os_getname os w sa = (r, w') \<Longrightarrow> pending w' \<le> pending w"
    and "os_recverr os w = (Inl e, w') \<Longrightarrow> pending w' \<le> pending w"
    and "os_recverr os w = (Inr m, w') \<Longrightarrow> pending w' < pending w"
  using assms unfolding drains_def
  by (metis snd_conv, metis fst_conv snd_conv, metis snd_conv, metis snd_conv,
      metis (no_types, lifting) case_prod_conv old.sum.simps(5), metis (no_types, lifting) case_prod_conv old.sum.simps(6))

abbreviation settles :: "('w \<Rightarrow> nat) \<Rightarrow> 'w ping_proc \<Rightarrow> 'w ping_proc \<Rightarrow> bool" where
  "settles pending p q \<equiv> pending (world q) \<le> pending (world p) \<and> confirm_flag (p_rts q) = confirm_flag (p_rts p)"

lemma settles_seq:
  "yields m (settles pending p) \<Longrightarrow> (\<And>q. yields (f q) (settles pending q)) \<Longrightarrow> yields (and_then m f) (settles pending p)"
  by (rule yields_and_then) (fastforce simp: yields_def)+

lemma settles_step: "yields (f q) (settles pending q) \<Longrightarrow> settles pending p q \<Longrightarrow> yields (f q) (settles pending p)"
  by (erule yields_mono) simp

lemma on_rts_settles:
  "(\<And>r. yields (f r) (\<lambda>s. confirm_flag s = confirm_flag r)) \<Longrightarrow> yields (on_rts f p) (settles pending p)"
  unfolding on_rts_def by (rule yields_and_then [where Q = "\<lambda>s. confirm_flag s = confirm_flag (p_rts p)"]) simp_all

lemma ping_error_confirm: "yields (ping_error strerror r st e msg) (\<lambda>s. confirm_flag s = confirm_flag r)"
proof -
  have "yields (construct_json r k v) (\<lambda>s. confirm_flag s = confirm_flag r)" for r k v
    unfolding construct_json_def by (intro yields_if yields_then_any) simp_all
  then have "yields (and_then (construct_json r k v) print_json_packet) (\<lambda>s. confirm_flag s = confirm_flag r)" for k v
    by (rule yields_and_then) (simp add: print_json_packet_def)
  then have "yields (construct_json_error strerror r e m) (\<lambda>s. confirm_flag s = confirm_flag r)" for m
    by (auto simp: construct_json_error_def json_emergency_def error_c_def split: option.split)
  then show ?thesis unfolding ping_error_def Let_def
    by (auto simp: error_c_def intro!: yields_and_then [where Q = "\<lambda>s. confirm_flag s = confirm_flag r"])
qed

lemma with_addr_settles:
  assumes "drains os pending" "\<And>s q. settles pending p q \<Longrightarrow> yields (f s q) P"
  shows "yields (case pr_addr os p sa of (s, q) \<Rightarrow> f s q) P"
proof -
  have "settles pending p (snd (pr_addr os p sa))"
  proof -
    have "settles pending p (snd (pr_addr_resolve os True p sa))"
      using drainsD(4) [OF assms(1)] by (auto simp: pr_addr_resolve_def Let_def split: prod.split if_split_asm)
    then show ?thesis by (auto simp: pr_addr_def pr_addr_cached_def split: option.split)
  qed
  then show ?thesis using assms(2) by (cases "pr_addr os p sa") simp
qed

lemma time_if_settles: "drains os pending \<Longrightarrow> settles pending p (snd (time_if os b p))"
  by (auto simp: time_if_def dest: drainsD(1) split: prod.split)

lemma print_timestamp_now_settles: "drains os pending \<Longrightarrow> yields (print_timestamp_now os p) (settles pending p)"
proof -
  assume d: "drains os pending"
  have "yields (on_rts (print_timestamp now) q) (settles pending q)" for now q
    by (rule on_rts_settles) (simp add: print_timestamp_def)
  then show ?thesis
    using time_if_settles [OF d, where p = p and b = "opt_ptimeofday (opts (p_rts p))"]
    by (cases "time_if os (opt_ptimeofday (opts (p_rts p))) p") (auto simp: print_timestamp_now_def intro: settles_step)
qed

lemma pr_icmph_settles:
  assumes "drains os pending"
  shows "yields (pr_icmph os ty co info None p) (settles pending p)"
  unfolding pr_icmph_def pr_quoted_header_def by (auto intro!: with_addr_settles [OF assms])

lemma report_net_error_settles:
  assumes "drains os pending"
  shows "yields (report_net_error os p seq e) (settles pending p)"
proof -
  have err: "yields (on_rts (\<lambda>rts. ping_print_error_packet rts s c) q) (settles pending q)" for s c q
    by (rule on_rts_settles) (simp add: ping_print_error_packet_def)
  have "yields (and_then (print_timestamp_now os p) (\<lambda>q. case pr_addr os q sa of (s, p) \<Rightarrow>
      and_then (on_rts (\<lambda>rts. ping_print_error_packet rts s c) p) (pr_icmph os ty co info None))) (settles pending p)"
    for sa c ty co info
    by (rule settles_seq [OF print_timestamp_now_settles [OF assms]], rule with_addr_settles [OF assms],
        rule settles_step, rule settles_seq [OF err pr_icmph_settles [OF assms]])
  then show ?thesis by (simp add: report_net_error_def Let_def)
qed

lemma acknowledge_confirm [simp]: "confirm_flag (acknowledge r seq) = confirm_flag r"
  by (simp add: acknowledge_def Let_def)

lemma net_error_settles:
  assumes "drains os pending"
  shows "yields (net_error strerror os raw p seq e) (settles pending p)"
proof -
  let ?p = "set_rts (\<lambda>rts. acknowledge rts seq) p"
  have "yields (on_rts (\<lambda>rts. ping_error strerror rts 2 er msg) q) (settles pending q)" for er msg q
    by (rule on_rts_settles) (rule ping_error_confirm)
  then have "yields (on_rts (\<lambda>rts. ping_error strerror rts 2 er msg) (?p\<lparr>world := w, p_errno := er\<rparr>)) (settles pending ?p)"
    if "pending w \<le> pending (world ?p)" for er msg w
    by (rule settles_step) (use that in simp)
  then have "yields (install_icmp_filter strerror os raw ?p) (settles pending ?p)"
    using drainsD(3) [OF assms] by (auto simp: install_icmp_filter_def split: prod.split)
  moreover have "yields (report_net_error os (set_rts (\<lambda>rts. rts\<lparr>nerrors := nerrors rts + 1\<rparr>) q) seq e) (settles pending q)" for q
    using report_net_error_settles [OF assms, of "set_rts (\<lambda>rts. rts\<lparr>nerrors := nerrors rts + 1\<rparr>) q"] by (simp add: set_rts_def)
  ultimately have "yields (net_error strerror os raw p seq e) (settles pending ?p)"
    unfolding net_error_def by (rule settles_seq)
  then show ?thesis by (simp add: set_rts_def)
qed

lemma local_error_settles: "yields (local_error strerror p e) (settles pending p)"
proof -
  have "yields (on_rts (\<lambda>rts. ping_error strerror rts 0 0 msg) p) (settles pending p)" for msg
    by (rule on_rts_settles) (rule ping_error_confirm)
  then have "yields (and_then (if c then print s (ret p) else if d then emit es (ret p)
      else on_rts (\<lambda>rts. ping_error strerror rts 0 0 msg) p)
      (ret \<circ> set_rts (\<lambda>rts. rts\<lparr>nerrors := nerrors rts + 1\<rparr>))) (settles pending p)" for c d s es msg
    by (intro settles_seq) (simp_all add: set_rts_def)
  then show ?thesis by (simp add: local_error_def Let_def)
qed

text \<open>
  Reading an error: if the error number is 0 afterwards, it was 0 before or a message was taken.
\<close>

lemma receive_error_progress:
  assumes "drains os pending"
  shows "yields (ping4_receive_error_msg strerror os raw p) (\<lambda>(q, i). settles pending p q \<and>
    (p_errno q = p_errno p \<or> p_errno q = 0 \<and> pending (world q) < pending (world p)))"
proof (cases "os_recverr os (world p)")
  case (Pair r w)
  show ?thesis
  proof (cases r)
    case (Inl e)
    then show ?thesis using assms Pair by (auto simp: ping4_receive_error_msg_def dest: drainsD(5))
  next
    case (Inr m)
    have "pending w < pending (world p)"
      using drainsD(6) [OF assms] Pair Inr by simp
    then have step: "settles pending p (p\<lparr>world := w\<rparr>)" "pending w < pending (world p)" by simp_all
    have l: "yields (and_then (local_error strerror (p\<lparr>world := w\<rparr>) e) (\<lambda>p. ret (p\<lparr>p_errno := er\<rparr>, - 1)))
        (\<lambda>(q, i). settles pending p q \<and> p_errno q = er)" for e er
      by (rule yields_and_then [OF local_error_settles [where pending = pending]]) (use step in auto)
    have n: "yields (and_then (net_error strerror os raw (p\<lparr>world := w\<rparr>) seq e) (\<lambda>p. ret (p\<lparr>p_errno := er\<rparr>, 1)))
        (\<lambda>(q, i). settles pending p q \<and> p_errno q = er)" for seq e er
      by (rule yields_and_then [OF net_error_settles [OF assms]]) (use step in auto)
    show ?thesis using step Pair Inr yields_mono [OF l] yields_mono [OF n]
      by (auto simp: ping4_receive_error_msg_def Let_def split: option.split intro!: yields_mono [OF l] yields_mono [OF n])
  qed
qed

lemma time_if_rts: "time_if os b p = (t, q) \<Longrightarrow> p_rts q = p_rts p"
  by (metis snd_conv time_if_sel(1))

lemma send_probe_progress:
  assumes "drains os pending"
  shows "yields (ping4_send_probe os p) (\<lambda>(q, i). settles pending p q \<and> (i < 0 \<longrightarrow> p_errno q \<noteq> 0))"
proof -
  let ?p = "set_rts (\<lambda>rts. rcvd_clear rts (to_u16 (ntransmitted rts + 1))) p"
  have same: "world ?p = world p" "confirm_flag (p_rts ?p) = confirm_flag (p_rts p)"
    by (simp_all add: set_rts_def rcvd_clear_def)
  have "settles pending ?p (snd (stamp_probe os cc pkt ?p))" for cc pkt
    using time_if_settles [OF assms, where p = ?p and b = True]
    by (auto simp: stamp_probe_def Let_def dest: time_if_rts split: prod.split)
  then have "settles pending p (snd (stamp_probe os cc pkt ?p))" for cc pkt by (simp only: same)
  then have st: "settles pending p q" if "stamp_probe os cc pkt ?p = (b, q)" for cc pkt b q
    using that by (metis snd_conv)
  show ?thesis unfolding ping4_send_probe_def Let_def yields_need
  proof (intro impI, split prod.split, intro allI impI, split prod.split, intro allI impI, split prod.split, intro allI impI)
    fix b i e w r and q :: "'a ping_proc"
    assume stq: "stamp_probe os (datalen (p_rts ?p) + 8)
        (splice 0 (echo_header (ident (p_rts ?p)) (to_u16 (ntransmitted (p_rts ?p) + 1))) (outpack (p_rts ?p))) ?p = (b, q)"
      and send: "os_sendto os (world q) (take (nat (datalen (p_rts ?p) + 8)) b) = (r, w)" "r = (i, e)"
    have "pending w \<le> pending (world q) \<and> (i < 0 \<longrightarrow> e \<noteq> 0)"
      using drainsD(2) [OF assms] send by blast
    then show "yields (ret (set_rts (\<lambda>rts. rts\<lparr>outpack := b\<rparr>) q\<lparr>world := w, p_errno := if i < 0 then e else p_errno q\<rparr>,
        if i = datalen (p_rts ?p) + 8 then 0 else i)) (\<lambda>(q, i). settles pending p q \<and> (i < 0 \<longrightarrow> p_errno q \<noteq> 0))"
      using st [OF stq] by (auto simp: set_rts_def)
  qed
qed

lemma ping4_send_probe_ends: "ends (ping4_send_probe os p)"
  by (simp add: ping4_send_probe_def Let_def split: prod.split)

lemma hard_local_error_ends: "ends (hard_local_error strerror p i)"
  unfolding hard_local_error_def Let_def by (auto intro!: ends_seq on_rts_ends)

lemma pinger_nobufs_ends: "ends (pinger_nobufs strerror p)"
  by (simp add: pinger_nobufs_def Let_def hard_local_error_ends)

lemma pinger_sent_ends: "ends (pinger_sent p)"
  by (simp add: pinger_sent_def Let_def)

lemma print_timestamp_now_ends: "ends (print_timestamp_now os p)"
  by (auto simp: print_timestamp_now_def print_timestamp_def intro!: on_rts_ends split: prod.split)

lemma ping4_receive_error_msg_ends: "ends (ping4_receive_error_msg strerror os raw p)"
proof -
  have "ends (pr_icmph os ty co info None q)" for ty co info q
    by (simp add: pr_icmph_def pr_quoted_header_def split: prod.split)
  then have "ends (case pr_addr os q sa of (s, p) \<Rightarrow>
      and_then (on_rts (\<lambda>rts. ping_print_error_packet rts s c) p) (pr_icmph os ty co info None))" for q sa c ty co info
    by (auto simp: ping_print_error_packet_def intro!: ends_seq on_rts_ends split: prod.split)
  then have "ends (report_net_error os q seq e)" for q seq e
    by (simp add: report_net_error_def Let_def ends_seq print_timestamp_now_ends)
  moreover have "ends (install_icmp_filter strerror os raw q)" for q
    by (auto simp: install_icmp_filter_def intro!: on_rts_ends split: prod.split)
  ultimately have "ends (net_error strerror os raw q seq e)" for q seq e
    unfolding net_error_def by (rule ends_seq [rotated])
  moreover have "ends (local_error strerror q e)" for q e
    by (auto simp: local_error_def Let_def intro!: ends_seq on_rts_ends)
  ultimately show ?thesis
    by (auto simp: ping4_receive_error_msg_def Let_def intro!: ends_seq split: prod.split sum.split option.split)
qed

lemma ping4_func_set_sel:
  "send_probe (ping4_func_set strerror os raw) = ping4_send_probe os"
  "receive_error_msg (ping4_func_set strerror os raw) = ping4_receive_error_msg strerror os raw"
  by (simp_all add: ping4_func_set_def)

text \<open>How often a probe may be sent again: once for every error in the queue, and once for the confirm flag.\<close>

abbreviation resends :: "('w \<Rightarrow> nat) \<Rightarrow> 'w ping_proc \<Rightarrow> nat" where
  "resends pending p \<equiv> pending (world p) + of_bool (confirm_flag (p_rts p) \<noteq> 0)"



subsection \<open>Node information queries\<close>

text \<open>
  C28: with \<open>-N\<close>, \<open>ping6_send_probe\<close> hands the kernel a query with the nonce of the next sequence number
  and the subject asked about, as long as header and subject are; and when a reply brings this nonce
  back, \<open>niquery_check_nonce\<close> gives that sequence number.  The cache stays consistent and the
  confirm flag of the probe is used up.
\<close>

theorem query_answered:
  assumes "niquery_is_enabled (ni (p_rts p))" "ni_subject (ni (p_rts p)) = Some subject"
    and "ni_subject_len (ni (p_rts p)) = length subject" "length (ni_secret (ni (p_rts p))) = 24"
    and "nonce_inv (ni (p_rts p)) (nonces p)" "16 + length subject \<le> length (outpack (p_rts p))"
  shows "\<exists>pkt q i. length pkt = 16 + length subject \<and> pkt ! 0 = IPUTILS_NI_ICMP6_QUERY \<and>
    take 8 (drop 8 pkt) = nonce_of (ni (p_rts p)) (to_u16 (ntransmitted (p_rts p) + 1)) \<and> drop 16 pkt = subject \<and>
    ping6_send_probe os p = ret (q, i) \<and>
    world q = snd (os_sendto6 os (world p) pkt (confirm (p_rts p)) (cmsgbuf (p_rts p))) \<and>
    nonce_inv (ni (p_rts q)) (nonces q) \<and> confirm (p_rts q) = 0 \<and>
    snd (niquery_check_nonce stack_block (ni (p_rts q)) (nonces q) (take 8 (drop 8 pkt))) =
      uint (to_u16 (ntransmitted (p_rts p) + 1))"
proof -
  let ?r = "p_rts p" and ?q = "ni (p_rts p)"
  let ?p = "set_rts (\<lambda>rts. rcvd_clear rts (to_u16 (ntransmitted rts + 1))) p"
  define seq where "seq = to_u16 (ntransmitted ?r + 1)"
  define hdr where "hdr = [IPUTILS_NI_ICMP6_QUERY, word_of_int (ni_subject_type ?q), 0, 0 :: u8] @
    be16_bytes (to_u16 (ni_query ?q)) @ le16_bytes (ni_flag ?q)"
  define pkt where "pkt = hdr @ nonce_of ?q seq @ subject"
  define old where "old = take NI_NONCE_SIZE (drop 8 (outpack ?r))"
  have sel: "ni (p_rts ?p) = ?q" "ntransmitted (p_rts ?p) = ntransmitted ?r" "nonces ?p = nonces p" "world ?p = world p"
    "outpack (p_rts ?p) = outpack ?r" "confirm (p_rts ?p) = confirm ?r" "cmsgbuf (p_rts ?p) = cmsgbuf ?r"
    by (simp_all add: set_rts_def rcvd_clear_def)
  have old: "length old = NI_NONCE_SIZE" using assms(6) by (simp add: old_def NI_NONCE_SIZE_def)
  have hl: "length hdr = 8" and nl: "length (nonce_of ?q seq) = 8"
    by (simp_all add: hdr_def be16_bytes_def nonce_of_def length_md5)
  obtain c where c: "niquery_fill_nonce stack_block ?q (nonces p) seq old = (c, nonce_of ?q seq)" "nonce_inv ?q c"
  proof -
    have two: "take 2 (splice 0 (be16_bytes seq) old) = be16_bytes seq" "length (splice 0 (be16_bytes seq) old) = NI_NONCE_SIZE"
      using old by (simp_all add: NI_NONCE_SIZE_def be16_bytes_def splice_def)
    then have bytes: "[splice 0 (be16_bytes seq) old ! 0, splice 0 (be16_bytes seq) old ! 1] = be16_bytes seq"
      using take_2 [of "splice 0 (be16_bytes seq) old"] by (simp add: NI_NONCE_SIZE_def)
    have "niquery_fill_nonce stack_block ?q (nonces p) seq old =
        (\<lparr>nc_digest = md5 (ni_secret ?q @ be16_bytes seq),
          nc_seq = uint (le16 (splice 0 (be16_bytes seq) old ! 0) (splice 0 (be16_bytes seq) old ! 1))\<rparr>, nonce_of ?q seq)"
      using niquery_nonce_eq [OF _ assms(4,5) two(2), of stack_block True] two(1)
      by (simp add: niquery_fill_nonce_def nonce_of_def)
    then show ?thesis by (rule that) (metis bytes nonce_inv_step)
  qed
  define s where "s = set_rts (\<lambda>rts. rts\<lparr>datalen := 0, outpack := splice 0 pkt (outpack ?r)\<rparr>) (?p\<lparr>nonces := c\<rparr>)"
  have "build_niquery ?p = ret (s, 16 + int (length subject))"
    using c(1) assms(2,3,6) unfolding build_niquery_def Let_def sel seq_def [symmetric] old_def [symmetric]
    by (simp add: need_def s_def pkt_def hdr_def)
  moreover have out: "take (16 + length subject) (outpack (p_rts s)) = pkt" "16 + length subject \<le> length (outpack (p_rts s))"
    using assms(6) hl nl by (simp_all add: s_def set_rts_def pkt_def splice_def)
  moreover have s: "world s = world p" "confirm (p_rts s) = confirm ?r" "cmsgbuf (p_rts s) = cmsgbuf ?r"
    "nonces s = c" "ni (p_rts s) = ?q" using sel by (simp_all add: s_def set_rts_def)
  moreover obtain i e w where send: "os_sendto6 os (world p) pkt (confirm ?r) (cmsgbuf ?r) = ((i, e), w)"
    by (metis prod.collapse)
  ultimately have "ping6_send_probe os p = ret (set_rts (\<lambda>rts. rts\<lparr>confirm := 0\<rparr>) s\<lparr>world := w,
      p_errno := if i < 0 then e else p_errno s\<rparr>, if i = 16 + int (length subject) then 0 else i)"
    using assms(1) sel(1) by (simp add: ping6_send_probe_def Let_def need_def nat_add_distrib)
  moreover have "snd (niquery_check_nonce stack_block ?q c (nonce_of ?q seq)) = uint seq"
  proof -
    have first: "be16 (nonce_of ?q seq ! 0) (nonce_of ?q seq ! 1) = seq" "take 2 (nonce_of ?q seq) = be16_bytes seq"
      "drop 2 (nonce_of ?q seq) = take 6 (md5 (ni_secret ?q @ be16_bytes seq))"
      by (simp_all add: nonce_of_def be16_bytes_def)
    then show ?thesis
      using niquery_nonce_eq [OF _ assms(4) c(2), of stack_block "nonce_of ?q seq" False] nl
      by (simp add: niquery_check_nonce_def NI_NONCE_SIZE_def)
  qed
  ultimately show ?thesis using c(2) hl nl send s(4,5)
    by (intro exI [of _ pkt] exI [of _ "set_rts (\<lambda>rts. rts\<lparr>confirm := 0\<rparr>) s\<lparr>world := w, p_errno := if i < 0 then e else p_errno s\<rparr>"]
        exI [of _ "if i = 16 + int (length subject) then 0 else i"])
      (simp add: pkt_def set_rts_def seq_def [symmetric], simp add: hdr_def)
qed

definition query_rts :: ping_rts where
  "query_rts = sample_rts\<lparr>ni := sample_ni\<lparr>ni_query := 2, ni_subject := Some (zeros 16), ni_subject_len := 16\<rparr>\<rparr>"

theorem query_answered_witness:
  "\<exists>pkt q i. take 8 (drop 8 pkt) = nonce_of (ni query_rts) 1 \<and> ping6_send_probe quiet_os (sample_proc query_rts) = ret (q, i) \<and>
    snd (niquery_check_nonce stack_block (ni (p_rts q)) (nonces q) (take 8 (drop 8 pkt))) = 1"
proof -
  have p: "p_rts (sample_proc query_rts) = query_rts" "nonces (sample_proc query_rts) = initial_nonce_cache"
    "ntransmitted query_rts = 0" "outpack query_rts = zeros 64"
    by (simp_all add: sample_proc_def query_rts_def)
  have n: "ni query_rts = sample_ni\<lparr>ni_query := 2, ni_subject := Some (zeros 16), ni_subject_len := 16\<rparr>"
    by (simp add: query_rts_def)
  have one: "to_u16 (0 + 1) = 1" by (simp add: to_u16_def)
  show ?thesis
    using query_answered [where p = "sample_proc query_rts" and subject = "zeros 16" and os = quiet_os, unfolded p one]
    by (force simp: n niquery_is_enabled_def nonce_inv_initial sample_ni_def niquery_init_nonce_def initial_ni_def)
qed

end
