(* ===== verification/Clockdiff.thy ===== *)
theory Clockdiff
  imports Checksum Iputils
begin

text \<open>
  The program \<open>clockdiff.c\<close>: its own checksum routine, the measurement of the difference of two
  clocks with ICMP time stamp messages or with the IP time stamp option, and \<open>main\<close>.  The replies
  of the network are an explicit sequence: what each \<open>ppoll\<close> and the \<open>recvfrom\<close> behind it give, and
  when; so are the probes' times and the results of \<open>sendto\<close>.
\<close>

definition RANGE_ms :: int where "RANGE_ms = 1"
definition MSGS :: int where "MSGS = 50"
definition TRIALS :: int where "TRIALS = 10"
definition GOOD :: int where "GOOD = 0"
definition UNREACHABLE :: int where "UNREACHABLE = 2"
definition NONSTDTIME :: int where "NONSTDTIME = 3"
definition BREAK :: int where "BREAK = 4"
definition CONTINUE :: int where "CONTINUE = 5"
definition HOSTDOWN :: int where "HOSTDOWN = 0x7fffffff"
definition BIASP :: int where "BIASP = 43199999"
definition BIASN :: int where "BIASN = - 43200000"
definition MODULO :: int where "MODULO = 86400000"
definition PROCESSING_TIME :: int where "PROCESSING_TIME = 0"
definition PACKET_IN :: nat where "PACKET_IN = 1024"

definition EHOSTDOWN :: int where "EHOSTDOWN = 112"

datatype time_format = time_format_ctime | time_format_iso

text \<open>The state of a run, and the variables of a measurement.\<close>

record clock_state =
  interactive :: bool
  cd_id :: u16
  server :: "u8 list"
  ip_opt_len :: int
  measure_delta :: int
  measure_delta1 :: int
  seqno :: u16
  seqno0 :: u16
  cd_acked :: u16
  cd_rtt :: int
  min_rtt :: int
  rtt_sigma :: int
  hisname :: string
  time_fmt :: time_format

record measure_vars =
  packet :: "u8 list"
  msgcount :: int
  min1 :: int
  min2 :: int
  cd_errno :: int

text \<open>
  One round of waiting: the result of \<open>ppoll\<close>; what \<open>recvfrom\<close> then gives, the received bytes or a
  failure; the time read in between; and \<open>errno\<close> after the calls.
\<close>

record poll_event =
  pe_poll :: int
  pe_recv :: "u8 list option"
  pe_time :: timespec
  pe_errno :: int

record send_event =
  se_time :: timespec
  se_count :: int

subsection \<open>The checksum\<close>

text \<open>\<open>addcarry\<close> after each word keeps the sum below 2^16; both ways to load a word give \<open>le16\<close>.\<close>

definition addcarry :: "int \<Rightarrow> int" where
  "addcarry s = (if s AND 0xffff0000 \<noteq> 0 then (s AND 0xffff) + 1 else s)"

fun clock_cksum_loop :: "int \<Rightarrow> u8 list \<Rightarrow> int" where
  "clock_cksum_loop acc (a # b # bs) = clock_cksum_loop (addcarry (acc + uint (le16 a b))) bs"
| "clock_cksum_loop acc [a] = addcarry (acc + uint (le16 a 0))"
| "clock_cksum_loop acc [] = acc"

definition clock_in_cksum :: "u8 list \<Rightarrow> int" where
  "clock_in_cksum bs = (NOT (clock_cksum_loop 0 bs)) AND 0xffff"

subsection \<open>One reply\<close>

text \<open>Milliseconds since midnight UT.\<close>

definition ms_of_day :: "timespec \<Rightarrow> int" where
  "ms_of_day t = (ts_sec t smod (24 * 60 * 60)) * 1000 + ts_nsec t sdiv 1000000"

text \<open>The wrap-around at midnight.\<close>

definition fold_delta :: "int \<Rightarrow> int" where
  "fold_delta d = (if d < BIASN then d + MODULO else if d > BIASP then d - MODULO else d)"

record stamps =
  sendtime :: int
  histime :: int
  histime1 :: int
  recvtime :: int

text \<open>
  The time stamps of the IP option: the entries are an address and a time each; \<open>None\<close> for one
  in a non-standard format.
\<close>

definition IPOPT_TIMESTAMP :: u8 where "IPOPT_TIMESTAMP = 68"
definition IPOPT_TS_PRESPEC :: u8 where "IPOPT_TS_PRESPEC = 3"

definition stamp_at :: "int \<Rightarrow> nat \<Rightarrow> int \<Rightarrow> stamps \<Rightarrow> stamps" where
  "stamp_at olen i t st =
     (if i = 0 then st\<lparr>sendtime := t\<rparr>
      else if i = 1 then st\<lparr>histime := t, histime1 := t\<rparr>
      else if i = 2 then if olen = 4 + 4 * 8 then st\<lparr>histime1 := t\<rparr> else st\<lparr>recvtime := t\<rparr>
      else if i = 3 then st\<lparr>recvtime := t\<rparr> else st)"

fun read_stamps :: "int \<Rightarrow> nat \<Rightarrow> u32 list \<Rightarrow> stamps \<Rightarrow> stamps option" where
  "read_stamps olen i (t # ts) st =
     (if t AND 0x80000000 \<noteq> 0 then None else read_stamps olen (Suc i) ts (stamp_at olen i (uint t) st))"
| "read_stamps olen i [] st = Some st"

definition option_entries :: "u8 list \<Rightarrow> u32 list" where
  "option_entries opt = map (\<lambda>i. be32 (drop (4 + i * 8 + 4) opt)) [0..<(unat (opt ! 2) - 5) div 8]"

text \<open>The times of a reply: those of the option, or the originate time and the local time.\<close>

definition reply_stamps :: "clock_state \<Rightarrow> u8 list \<Rightarrow> u8 list \<Rightarrow> timespec \<Rightarrow> (int + stamps) result" where
  "reply_stamps ctl pkt icp now =
     (if ip_opt_len ctl \<noteq> 0
      then let opt = drop 20 pkt; over = drop_bit 4 (opt ! 3)
           in if opt ! 3 AND 0xF \<noteq> IPOPT_TS_PRESPEC
              then emit [Err (''Wrong timestamp '' @ fmt_d (uint (opt ! 3 AND 0xF)) @ [CHR 0x0A])] (ret (Inl NONSTDTIME))
              else emit (if over \<noteq> 0 \<and> (over \<noteq> 1 \<or> ip_opt_len ctl \<noteq> 4 + 3 * 8)
                         then [Err (''Overflow '' @ fmt_d (uint over) @ '' hops'' @ [CHR 0x0A])] else [])
                   (case read_stamps (ip_opt_len ctl) 0 (option_entries opt)
                           \<lparr>sendtime = 0, histime = 0, histime1 = 0, recvtime = 0\<rparr> of
                      None \<Rightarrow> ret (Inl NONSTDTIME)
                    | Some st \<Rightarrow>
                        if sendtime st AND histime st AND histime1 st AND recvtime st = 0
                        then emit [Err (''wrong timestamps'' @ [CHR 0x0A])] (ret (Inl (- 1)))
                        else ret (Inr st))
      else ret (Inr \<lparr>sendtime = uint (be32 (drop 8 icp)), histime = 0, histime1 = 0, recvtime = ms_of_day now\<rparr>))"

text \<open>
  Whether the packet is a reply to a probe of this measurement.  Identifier and sequence number
  are compared as they are in memory.
\<close>

definition reply_seq :: "u8 list \<Rightarrow> u16" where
  "reply_seq icp = le16 (icp ! 6) (icp ! 7)"

definition clock_reply :: "clock_state \<Rightarrow> u8 list \<Rightarrow> u8 list \<Rightarrow> bool" where
  "clock_reply ctl pkt icp \<longleftrightarrow>
     ((ip_opt_len ctl \<noteq> 0 \<and> icp ! 0 = 0 \<and> pkt ! 20 = IPOPT_TIMESTAMP) \<or> icp ! 0 = 14)
     \<and> le16 (icp ! 4) (icp ! 5) = cd_id ctl
     \<and> seqno0 ctl \<le> reply_seq icp \<and> reply_seq icp \<le> seqno ctl"

text \<open>The estimates of the round trip time, and the smallest differences.\<close>

definition update_rtt :: "int \<Rightarrow> clock_state \<Rightarrow> clock_state" where
  "update_rtt diff ctl =
     (let r = (cd_rtt ctl * 3 + diff) sdiv 4
      in ctl\<lparr>cd_rtt := r, rtt_sigma := (rtt_sigma ctl * 3 + \<bar>diff - r\<bar>) sdiv 4\<rparr>)"

definition keep_deltas :: "int \<Rightarrow> int \<Rightarrow> int \<Rightarrow> clock_state \<Rightarrow> measure_vars \<Rightarrow> int \<times> clock_state \<times> measure_vars" where
  "keep_deltas delta1 delta2 diff ctl mv =
     (let mv = (if delta1 < min1 mv then mv\<lparr>min1 := delta1\<rparr> else mv);
          mv = (if delta2 < min2 mv then mv\<lparr>min2 := delta2\<rparr> else mv);
          ctl = (if delta1 + delta2 < min_rtt ctl
                 then ctl\<lparr>min_rtt := delta1 + delta2,
                          measure_delta1 := to_int32 ((delta1 - delta2) sdiv 2 + PROCESSING_TIME)\<rparr>
                 else ctl)
      in if diff < RANGE_ms then (BREAK, ctl, mv\<lparr>min1 := delta1, min2 := delta2\<rparr>) else (CONTINUE, ctl, mv))"

text \<open>A reply with plausible times is counted; \<open>his\<close> is the remote time of the ICMP message.\<close>

definition use_stamps ::
  "clock_state \<Rightarrow> measure_vars \<Rightarrow> u8 list \<Rightarrow> stamps \<Rightarrow> (int \<times> clock_state \<times> measure_vars) result" where
  "use_stamps ctl mv icp st =
     (let diff = recvtime st - sendtime st
      in if diff < 0 then ret (CONTINUE, ctl, mv)
         else let ctl = update_rtt diff ctl; mv = mv\<lparr>msgcount := msgcount mv + 1\<rparr>;
                  his = (if ip_opt_len ctl = 0 then uint (be32 (drop 12 icp)) else histime st)
              in if ip_opt_len ctl = 0 \<and> be32 (drop 12 icp) AND 0x80000000 \<noteq> 0 then ret (NONSTDTIME, ctl, mv)
                 else emit (if interactive ctl then [Out ''.''] else [])
                   (ret (keep_deltas (fold_delta (his - sendtime st))
                           (fold_delta (recvtime st - (if ip_opt_len ctl \<noteq> 0 then histime1 st else his))) diff ctl mv)))"

definition ack_reply :: "u16 \<Rightarrow> clock_state \<Rightarrow> clock_state" where
  "ack_reply s ctl = (if cd_acked ctl < s then ctl\<lparr>cd_acked := s\<rparr> else ctl)"

text \<open>How long to wait for a reply: seconds and nanoseconds.\<close>

definition reply_timeout :: "clock_state \<Rightarrow> int list" where
  "reply_timeout ctl =
     (let tmo = max (cd_rtt ctl + rtt_sigma ctl) 1
      in [tmo sdiv 1000, (tmo - (tmo sdiv 1000) * 1000) * 1000000])"

text \<open>
  The ICMP header is found with the header length in the buffer; \<open>recvfrom\<close> overwrites only as
  many bytes as it received, and the code does not look at their number.
\<close>

definition measure_inner_loop ::
  "poll_event \<Rightarrow> clock_state \<Rightarrow> measure_vars \<Rightarrow> (int \<times> clock_state \<times> measure_vars) result" where
  "measure_inner_loop e ctl mv =
     emit [Sys ''ppoll'' (reply_timeout ctl)] (let mv = mv\<lparr>cd_errno := pe_errno e\<rparr>
      in if pe_poll e \<le> 0 then ret (BREAK, ctl, mv)
         else case pe_recv e of
                None \<Rightarrow> ret (- 1, ctl, mv)
              | Some bytes \<Rightarrow>
                  let pkt = splice 0 (take PACKET_IN bytes) (packet mv); mv = mv\<lparr>packet := pkt\<rparr>;
                      icp = drop (4 * unat (pkt ! 0 AND 0xF)) pkt
                  in if clock_reply ctl pkt icp
                     then let ctl = ack_reply (reply_seq icp) ctl
                          in and_then (reply_stamps ctl pkt icp (pe_time e))
                               (\<lambda>r. case r of Inl st \<Rightarrow> ret (st, ctl, mv) | Inr st \<Rightarrow> use_stamps ctl mv icp st)
                     else ret (CONTINUE, ctl, mv))"

subsection \<open>The measurement\<close>

text \<open>
  The loops consume the events in order; \<open>Out_Of_Fuel\<close> says that the given events ended before
  the loop did.
\<close>

fun wait_replies ::
  "poll_event list \<Rightarrow> clock_state \<Rightarrow> measure_vars \<Rightarrow> (int \<times> poll_event list \<times> clock_state \<times> measure_vars) result" where
  "wait_replies (e # es) ctl mv =
     and_then (measure_inner_loop e ctl mv) (\<lambda>(r, ctl, mv).
       if r = CONTINUE then wait_replies es ctl mv else ret (r, es, ctl, mv))"
| "wait_replies [] ctl mv = stop_with Out_Of_Fuel"

text \<open>The probe: \<open>struct icmphdr\<close> and twelve bytes, with the time in the first four of them.\<close>

definition clock_header :: "clock_state \<Rightarrow> timespec \<Rightarrow> u16 \<Rightarrow> u8 list" where
  "clock_header ctl now ck =
     [if ip_opt_len ctl \<noteq> 0 then 8 else 13, 0] @ le16_bytes ck @ le16_bytes (cd_id ctl) @ le16_bytes (seqno ctl)
     @ be32_bytes (word_of_int (ms_of_day now)) @ zeros 8"

definition clock_probe :: "clock_state \<Rightarrow> timespec \<Rightarrow> u8 list" where
  "clock_probe ctl now = clock_header ctl now (word_of_int (clock_in_cksum (clock_header ctl now 0)))"

fun measure_loop ::
  "send_event list \<Rightarrow> poll_event list \<Rightarrow> clock_state \<Rightarrow> measure_vars \<Rightarrow> (int \<times> clock_state \<times> measure_vars) result" where
  "measure_loop ses pes ctl mv =
     (if \<not> msgcount mv < MSGS
      then ret (GOOD, ctl\<lparr>measure_delta := to_int32 ((min1 mv - min2 mv) sdiv 2 + PROCESSING_TIME)\<rparr>, mv)
      else if uint (seqno ctl) - uint (cd_acked ctl) > TRIALS
      then ret (HOSTDOWN, ctl, mv\<lparr>cd_errno := EHOSTDOWN\<rparr>)
      else case ses of [] \<Rightarrow> stop_with Out_Of_Fuel
           | se # ses \<Rightarrow>
               let ctl = ctl\<lparr>seqno := seqno ctl + 1\<rparr>
               in emit [Sys ''sendto'' (map uint (clock_probe ctl (se_time se)))]
                    (if se_count se < 0 then ret (UNREACHABLE, ctl, mv\<lparr>cd_errno := EHOSTUNREACH\<rparr>)
                     else and_then (wait_replies pes ctl mv) (\<lambda>(r, pes, ctl, mv).
                            if r = BREAK then measure_loop ses pes ctl mv else ret (r, ctl, mv))))"

declare measure_loop.simps [simp del]

text \<open>The queue is emptied first; a failing \<open>ppoll\<close> counts as readable there.\<close>

fun empty_queue :: "poll_event list \<Rightarrow> measure_vars \<Rightarrow> (bool \<times> poll_event list \<times> measure_vars) result" where
  "empty_queue (e # es) mv =
     (let mv = mv\<lparr>cd_errno := pe_errno e\<rparr>
      in if pe_poll e = 0 then ret (True, es, mv)
         else case pe_recv e of
                None \<Rightarrow> ret (False, es, mv)
              | Some bytes \<Rightarrow> empty_queue es (mv\<lparr>packet := splice 0 (take PACKET_IN bytes) (packet mv)\<rparr>))"
| "empty_queue [] mv = stop_with Out_Of_Fuel"

definition fresh_vars :: measure_vars where
  "fresh_vars = \<lparr>packet = zeros PACKET_IN, msgcount = 0, min1 = 0x7fffffff, min2 = 0x7fffffff, cd_errno = 0\<rparr>"

definition clock_measure ::
  "send_event list \<Rightarrow> poll_event list \<Rightarrow> clock_state \<Rightarrow> (int \<times> clock_state \<times> measure_vars) result" where
  "clock_measure ses pes ctl =
     (let ctl = ctl\<lparr>min_rtt := 0x7fffffff, measure_delta := HOSTDOWN, measure_delta1 := HOSTDOWN\<rparr>
      in and_then (empty_queue pes fresh_vars) (\<lambda>(ok, pes, mv).
           if ok then measure_loop ses pes (ctl\<lparr>cd_acked := 0, seqno := 0, seqno0 := 0\<rparr>) mv
           else ret (- 1, ctl, mv)))"

subsection \<open>\<open>main\<close>\<close>

text \<open>
  What the calls of \<open>main\<close> give: error numbers (0 for success), the resolver's answer, the two
  addresses, the time and \<open>strftime\<close> of the local time for a format.  The command line is what
  \<open>getopt_long\<close> returns, option by option, and the arguments left over.
\<close>

record clock_os =
  co_socket :: int
  co_nice :: int
  co_caps :: int
  co_setuid :: int
  co_tty :: bool
  co_pid :: int
  co_resolve :: "string \<Rightarrow> string + (string \<times> u8 list)"
  co_connect :: int
  co_calloc :: int
  co_sockname :: "int + u8 list"
  co_options :: int
  co_now :: int
  co_strftime :: "string \<Rightarrow> string"
  co_config :: build_config
  co_version :: string

definition drop_rights :: "clock_os \<Rightarrow> 'a result \<Rightarrow> 'a result" where
  "drop_rights os m =
     (let uid_part = (if co_setuid os \<noteq> 0 then error_c (- 1) (co_setuid os) ''setuid'' m else m)
      in if have_libcap (co_config os) \<and> co_caps os \<noteq> 0
         then error_c (- 1) (co_caps os) ''cap_set_proc'' uid_part else uid_part)"

definition clock_usage_text :: string where
  "clock_usage_text = concat (map (\<lambda>l. l @ [CHR 0x0A])
     [[], ''Usage:'', ''  clockdiff [options] <destination>'', [], ''Options:'',
      ''                without -o, use icmp timestamp only (see RFC0792, page 16)'',
      ''  -o            use IP timestamp and icmp echo'',
      ''  -o1           use three-term IP timestamp and icmp echo'',
      ''  -T, --time-format <ctime|iso>'',
      ''                  specify display time format, ctime is the default'',
      ''  -I            alias of --time-format=iso'',
      ''  -h, --help    display this help'',
      ''  -V, --version print version and exit'',
      ''  <destination> DNS name or IP address'', [],
      ''For more details see clockdiff(8).''])"

definition clock_usage :: "clock_os \<Rightarrow> int \<Rightarrow> 'a result" where
  "clock_usage os st = drop_rights os (emit [Err clock_usage_text] (stop_with (Exit st)))"

fun clock_parse_opts :: "clock_os \<Rightarrow> (char \<times> string) list \<Rightarrow> clock_state \<Rightarrow> clock_state result" where
  "clock_parse_opts os ((c, optarg) # rest) ctl =
     (if c = CHR ''o'' then clock_parse_opts os rest (ctl\<lparr>ip_opt_len := 4 + 4 * 8\<rparr>)
      else if c = CHR ''1'' then clock_parse_opts os rest (ctl\<lparr>ip_opt_len := 4 + 3 * 8\<rparr>)
      else if c = CHR ''T''
      then if optarg = ''iso'' then clock_parse_opts os rest (ctl\<lparr>time_fmt := time_format_iso\<rparr>)
           else if optarg = ''ctime'' then clock_parse_opts os rest (ctl\<lparr>time_fmt := time_format_ctime\<rparr>)
           else error_c 1 0 (''invalid time-format argument: '' @ optarg) (clock_parse_opts os rest ctl)
      else if c = CHR ''I'' then clock_parse_opts os rest (ctl\<lparr>time_fmt := time_format_iso\<rparr>)
      else if c = CHR ''V''
      then print (co_version os) (and_then (print_config (co_config os)) (\<lambda>_. stop_with (Exit 0)))
      else if c = CHR ''h'' then clock_usage os 0
      else print (''Try '' @ [CHR 0x27] @ ''clockdiff --help'' @ [CHR 0x27] @ '' for more information.'' @ [CHR 0x0A])
             (stop_with (Exit 1)))"
| "clock_parse_opts os [] ctl = ret ctl"

text \<open>The IP option: addresses of the two hosts, each followed by room for a time.\<close>

definition stamp_option :: "int \<Rightarrow> u8 list \<Rightarrow> u8 list \<Rightarrow> u8 list" where
  "stamp_option olen my his =
     [IPOPT_TIMESTAMP, word_of_int olen, 5, IPOPT_TS_PRESPEC] @ my @ zeros 4 @ his @ zeros 4 @
     (if olen = 4 + 4 * 8 then his @ zeros 4 @ my @ zeros 4 else my @ zeros 4)"

definition set_option :: "clock_os \<Rightarrow> clock_state \<Rightarrow> clock_state result" where
  "set_option os ctl =
     (if ip_opt_len ctl = 0 then ret ctl
      else if co_calloc os \<noteq> 0
      then error_c 1 (co_calloc os) (''allocating '' @ fmt_d (ip_opt_len ctl) @ '' bytes failed'') (ret ctl)
      else case co_sockname os of
             Inl e \<Rightarrow> error_c 1 e ''getsockname'' (ret ctl)
           | Inr my \<Rightarrow>
               emit [Sys ''setsockopt IP_OPTIONS'' (map uint (stamp_option (ip_opt_len ctl) my (server ctl)))]
                 (if co_options os \<noteq> 0
                  then error_c 0 (co_options os) ''IP_OPTIONS (fallback to icmp tstamps)'' (ret (ctl\<lparr>ip_opt_len := 0\<rparr>))
                  else ret ctl))"

definition print_result :: "clock_os \<Rightarrow> clock_state \<Rightarrow> 'a result \<Rightarrow> 'a result" where
  "print_result os ctl =
     (if interactive ctl
      then print ([CHR 0x0A] @ ''host='' @ hisname ctl @ '' rtt='' @ fmt_d (cd_rtt ctl) @ ''('' @ fmt_d (rtt_sigma ctl)
              @ '')ms/'' @ fmt_d (min_rtt ctl) @ ''ms delta='' @ fmt_d (measure_delta ctl) @ ''ms/''
              @ fmt_d (measure_delta1 ctl) @ ''ms ''
              @ co_strftime os (if time_fmt ctl = time_format_iso then ''%Y-%m-%dT%H:%M:%S%z'' else ''%a %b %e %H:%M:%S %Y'')
              @ [CHR 0x0A])
      else print (fmt_d (co_now os) @ '' '' @ fmt_d (measure_delta ctl) @ '' '' @ fmt_d (measure_delta1 ctl) @ [CHR 0x0A]))"

definition report_measure :: "clock_os \<Rightarrow> int \<times> clock_state \<times> measure_vars \<Rightarrow> unit result" where
  "report_measure os =
     (\<lambda>(st, ctl, mv).
        if st < 0 then (if cd_errno mv \<noteq> 0 then error_c 1 (cd_errno mv) ''measure'' (ret ())
                        else error_c 1 0 ''measure: unknown failure'' (ret ()))
        else if st = HOSTDOWN then error_c 1 0 (hisname ctl @ '' is down'') (ret ())
        else if st = NONSTDTIME then error_c 1 0 (hisname ctl @ '' time transmitted in a non-standard format'') (ret ())
        else if st = UNREACHABLE then error_c 1 0 (hisname ctl @ '' is unreachable'') (ret ())
        else print_result os ctl (stop_with (Exit 0)))"

definition first_state :: clock_state where
  "first_state = \<lparr>interactive = False, cd_id = 0, server = [], ip_opt_len = 0, measure_delta = 0, measure_delta1 = 0,
     seqno = 0, seqno0 = 0, cd_acked = 0, cd_rtt = 1000, min_rtt = 0, rtt_sigma = 0, hisname = [],
     time_fmt = time_format_ctime\<rparr>"

definition clock_main ::
  "clock_os \<Rightarrow> send_event list \<Rightarrow> poll_event list \<Rightarrow> (char \<times> string) list \<Rightarrow> string list \<Rightarrow> unit result" where
  "clock_main os ses pes options args =
     and_then (clock_parse_opts os options first_state) (\<lambda>ctl.
       case args of
         [host] \<Rightarrow>
           if co_socket os \<noteq> 0 then error_c 1 (co_socket os) ''socket'' (ret ())
           else if co_nice os \<noteq> 0 then error_c 1 (co_nice os) ''nice'' (ret ())
           else drop_rights os
             (let ctl = ctl\<lparr>interactive := co_tty os, cd_id := to_u16 (co_pid os)\<rparr>
              in case co_resolve os host of
                   Inl msg \<Rightarrow> error_c 1 0 (host @ '': '' @ msg) (ret ())
                 | Inr (canon, addr) \<Rightarrow>
                     let ctl = ctl\<lparr>hisname := canon, server := addr\<rparr>
                     in if co_connect os \<noteq> 0 then error_c 1 (co_connect os) ''connect'' (ret ())
                        else and_then (set_option os ctl) (\<lambda>ctl.
                               and_then (clock_measure ses pes ctl) (report_measure os)))
       | _ \<Rightarrow> clock_usage os 1)"

subsection \<open>The checksum is that of \<open>ping\<close>\<close>

lemma and_high_half:
  fixes s :: int
  shows "s AND 0xffff0000 = 65536 * ((s div 65536) mod 65536)"
proof -
  have "(0xffff0000 :: int) = push_bit 16 (mask 16)" by (simp add: mask_eq_exp_minus_1 push_bit_eq_mult)
  then have "s AND 0xffff0000 = s AND push_bit 16 (mask 16)" by (simp only:)
  also have "\<dots> = push_bit 16 (take_bit 16 (drop_bit 16 s))"
    by (auto intro!: bit_eqI simp: bit_simps)
  finally show ?thesis by (simp add: push_bit_eq_mult take_bit_eq_mod drop_bit_eq_div mult.commute)
qed

lemma addcarry_once:
  assumes "0 \<le> s" "s \<le> 0x1fffe"
  shows "addcarry s = (if s < 65536 then s else s - 65535)"
proof (cases "s < 65536")
  case False
  then have "s div 65536 = 1" using assms by linarith
  moreover have "s mod 65536 = s - 65536" by (rule mod_minus_once) (use False assms in simp_all)
  ultimately show ?thesis
    using False by (simp add: addcarry_def and_high_half and_mask_eq_take_bit_int)
qed (use assms in \<open>simp add: addcarry_def and_high_half\<close>)

lemma addcarry_step:
  assumes "0 \<le> s" "s \<le> 65535" "0 \<le> w" "w \<le> 65535"
  shows "addcarry (s + w) = oc_reduce (s + w)"
proof (rule oc_reduce_unique)
  have "(s + w - 65535) mod 65535 = (s + w) mod 65535" by (simp add: mod_diff_right_eq [of _ "65535", symmetric])
  then show "addcarry (s + w) mod 65535 = (s + w) mod 65535"
    using assms by (simp add: addcarry_once)
qed (use assms in \<open>auto simp: addcarry_once\<close>)

lemma oc_reduce_add: "0 \<le> a \<Longrightarrow> 0 \<le> b \<Longrightarrow> oc_reduce (oc_reduce a + b) = oc_reduce (a + b)"
proof (rule oc_reduce_unique [symmetric])
  assume "0 \<le> a" "0 \<le> b"
  show "0 \<le> oc_reduce (a + b)" "oc_reduce (a + b) \<le> 65535" using oc_reduce_range [of "a + b"] by simp_all
  show "oc_reduce (a + b) mod 65535 = (oc_reduce a + b) mod 65535"
    by (metis oc_reduce_cong mod_add_left_eq)
  have "oc_reduce x = 0 \<longleftrightarrow> x = 0" for x by (simp add: oc_reduce_def)
  then show "oc_reduce (a + b) = 0 \<longleftrightarrow> oc_reduce a + b = 0"
    using \<open>0 \<le> a\<close> \<open>0 \<le> b\<close> oc_reduce_range [of a] by (smt (verit))
qed

lemma clock_cksum_loop_eq: "0 \<le> s \<Longrightarrow> s \<le> 65535 \<Longrightarrow> s = oc_reduce s \<Longrightarrow> clock_cksum_loop s bs = oc_reduce (s + wsum bs)"
proof (induction s bs rule: clock_cksum_loop.induct)
  case (1 acc a b bs)
  define w where "w = uint (le16 a b)"
  have w: "0 \<le> w" "w \<le> 65535" using u16_bounds [of "le16 a b"] by (simp_all add: w_def)
  have "addcarry (acc + w) = oc_reduce (acc + w)" using 1(2,3) w by (rule addcarry_step)
  moreover have "oc_reduce (oc_reduce x) = oc_reduce x" for x
    by (rule oc_reduce_unique [symmetric]) (simp_all add: oc_reduce_range)
  ultimately have "clock_cksum_loop acc (a # b # bs) = oc_reduce (oc_reduce (acc + w) + wsum bs)"
    using 1(1) by (simp add: w_def [symmetric] oc_reduce_range)
  then show ?case using 1(2) w wsum_nonneg [of bs] by (simp add: oc_reduce_add w_def add.assoc)
next
  case (2 acc a)
  have "uint (le16 a 0) = uint a" by (simp add: uint_le16)
  then show ?case using addcarry_step [OF 2(1,2), of "uint a"] u8_bounds [of a] by simp
qed simp

lemma clock_in_cksum_eq: "clock_in_cksum bs = 65535 - oc_reduce (wsum bs)"
proof -
  define r where "r = oc_reduce (wsum bs)"
  have r: "0 \<le> r" "r \<le> 65535" using oc_reduce_range [of "wsum bs"] by (simp_all add: r_def)
  have "clock_cksum_loop 0 bs = r" by (simp add: clock_cksum_loop_eq oc_reduce_def [of 0] r_def)
  moreover have "(- r - 1) mod 65536 = (65535 - r) mod 65536" using mod_add_self2 [of "- r - 1" 65536] by simp
  ultimately show ?thesis
    using r by (simp only: clock_in_cksum_def and_mask_eq_take_bit_int not_int_def r_def [symmetric])
       (simp add: algebra_simps)
qed

interpretation clock_ck: inet_checksum "\<lambda>bs. word_of_int (clock_in_cksum bs)" n for n
proof
  fix bs :: "u8 list"
  have "NOT (word_of_int (clock_in_cksum bs) :: u16) = word_of_int (oc_reduce (wsum bs))"
    using oc_reduce_range [of "wsum bs"]
    by (simp only: word_uint_eq_iff uint_not_u16 uint_word_of_int clock_in_cksum_eq) simp
  then show "uint (NOT (word_of_int (clock_in_cksum bs) :: u16)) mod 65535 = wsum bs mod 65535"
      "NOT (word_of_int (clock_in_cksum bs) :: u16) = 0 \<longleftrightarrow> wsum bs = 0"
    using uint_oc_reduce [of "wsum bs"] by (auto simp: oc_reduce_cong oc_reduce_def simp flip: uint_0_iff)
qed

lemma clock_header_split:
  "clock_header ctl now ck = splice 2 (le16_bytes ck) (clock_header ctl now 0)"
  by (simp add: clock_header_def splice_def le16_bytes_def)

lemma length_clock_header: "length (clock_header ctl now ck) = 20"
  by (simp add: clock_header_def)

text \<open>
  C22: the two checksum routines of the suite agree: that of \<open>clockdiff\<close>, which folds the carry
  after every word, gives what that of \<open>ping\<close> gives on every packet \<open>ping\<close> handles; and every
  probe \<open>clockdiff\<close> sends verifies with it.
\<close>

theorem checksums_agree:
  "(length bs \<le> MAXPACKET \<longrightarrow> clock_in_cksum bs = uint (in_cksum bs 0)) \<and> in_cksum (clock_probe ctl now) 0 = 0"
proof -
  have agree: "clock_in_cksum xs = uint (in_cksum xs 0)" if "length xs \<le> MAXPACKET" for xs
    using that by (simp add: ping_ck.uint_cksum clock_in_cksum_eq)
  have "word_of_int (clock_in_cksum (clock_probe ctl now)) = (0 :: u16)"
    unfolding clock_probe_def
    by (subst clock_header_split, rule clock_ck.store_verifies [where n = 20])
       (simp_all add: length_clock_header, simp_all add: clock_header_def le16_bytes_def)
  then show ?thesis
    using agree [of "clock_probe ctl now"] agree by (simp add: clock_probe_def length_clock_header MAXPACKET_def)
qed

theorem checksums_agree_witness:
  "clock_in_cksum [0xff, 0xff, 1] = uint (in_cksum [0xff, 0xff, 1] 0)"
  by (rule checksums_agree [THEN conjunct1, THEN mp]) (simp add: MAXPACKET_def)

subsection \<open>How exact the measurement is\<close>

text \<open>Across midnight: a difference of at most twelve hours is found from the times of the day.\<close>

lemma fold_delta_exact:
  assumes "BIASN \<le> x" "x \<le> BIASP"
  shows "fold_delta ((s + x) mod MODULO - s mod MODULO) = x"
proof -
  define d where "d = (s + x) mod MODULO - s mod MODULO"
  have d: "- MODULO < d" "d < MODULO"
    using pos_mod_bound [of MODULO "s + x"] pos_mod_sign [of MODULO "s + x"]
      pos_mod_bound [of MODULO s] pos_mod_sign [of MODULO s]
    unfolding d_def MODULO_def by linarith+
  have "d mod MODULO = x mod MODULO" by (simp add: d_def mod_diff_eq)
  then obtain k where k: "d - x = MODULO * k" by (metis mod_eq_dvd_iff dvdE)
  then have "k = 0 \<or> k = 1 \<or> k = - 1"
    using d assms unfolding MODULO_def BIASN_def BIASP_def by linarith
  then have "x = d \<or> x = d - MODULO \<or> x = d + MODULO" using k by auto
  then have "fold_delta d = x"
    using d assms unfolding fold_delta_def MODULO_def BIASN_def BIASP_def by auto
  then show ?thesis by (simp add: d_def)
qed

text \<open>
  Replies that arrive complete and are stamped by clocks that run at the same rate, the remote
  one ahead by \<open>theta\<close> milliseconds, after delays of at most \<open>R\<close> milliseconds each way.
\<close>

definition stamped_reply :: "int \<Rightarrow> int \<Rightarrow> u8 list \<Rightarrow> timespec \<Rightarrow> bool" where
  "stamped_reply theta R icp now \<longleftrightarrow>
     (\<exists>s f b. 0 \<le> f \<and> f \<le> R \<and> 0 \<le> b \<and> b \<le> R \<and> uint (be32 (drop 8 icp)) = s mod MODULO
        \<and> uint (be32 (drop 12 icp)) = (s + f + theta) mod MODULO \<and> ms_of_day now = (s + f + b) mod MODULO)"

definition timely :: "int \<Rightarrow> int \<Rightarrow> poll_event \<Rightarrow> bool" where
  "timely theta R e \<longleftrightarrow>
     (case pe_recv e of None \<Rightarrow> True
      | Some bytes \<Rightarrow> length bytes \<le> PACKET_IN \<and> 4 * unat (bytes ! 0 AND 0xF) + 20 \<le> length bytes \<and>
          (drop (4 * unat (bytes ! 0 AND 0xF)) bytes ! 0 = 14 \<longrightarrow>
           stamped_reply theta R (drop (4 * unat (bytes ! 0 AND 0xF)) bytes) (pe_time e)))"

definition mins_ok :: "int \<Rightarrow> int \<Rightarrow> measure_vars \<Rightarrow> bool" where
  "mins_ok theta R mv \<longleftrightarrow>
     (msgcount mv = 0 \<and> min1 mv = 0x7fffffff \<and> min2 mv = 0x7fffffff)
     \<or> (0 < msgcount mv \<and> (\<exists>f b. 0 \<le> f \<and> f \<le> R \<and> 0 \<le> b \<and> b \<le> R \<and> min1 mv = theta + f \<and> min2 mv = b - theta))"

lemma be32_append: "4 \<le> length xs \<Longrightarrow> be32 (xs @ ys) = be32 xs"
  by (auto simp: be32_def nth_append)

lemma mins_ok_keep:
  assumes "mins_ok theta R mv" "0 \<le> f" "f \<le> R" "0 \<le> b" "b \<le> R" "\<bar>theta\<bar> + R \<le> BIASP"
    and "keep_deltas (theta + f) (b - theta) diff ctl (mv\<lparr>msgcount := msgcount mv + 1\<rparr>) = (r, ctl', mv')"
  shows "mins_ok theta R mv' \<and> ip_opt_len ctl' = ip_opt_len ctl \<and> (r = BREAK \<or> r = CONTINUE)"
proof -
  have small: "theta + f < 0x7fffffff" "b - theta < 0x7fffffff" using assms unfolding BIASP_def by linarith+
  have "mins_ok theta R mv'"
    using assms(1-5,7) small
    by (fastforce simp: keep_deltas_def Let_def mins_ok_def split: if_splits)
  moreover have "ip_opt_len ctl' = ip_opt_len ctl \<and> (r = BREAK \<or> r = CONTINUE)"
    using assms(7) by (auto simp: keep_deltas_def Let_def split: if_splits)
  ultimately show ?thesis by blast
qed

lemma mins_ok_stamps:
  assumes ok: "mins_ok theta R mv" and opt: "ip_opt_len ctl = 0" and bound: "\<bar>theta\<bar> + R \<le> BIASP"
    and reply: "stamped_reply theta R icp now" and st: "st = \<lparr>sendtime = uint (be32 (drop 8 icp)), histime = 0, histime1 = 0, recvtime = ms_of_day now\<rparr>"
  shows "yields (use_stamps ctl mv icp st) (\<lambda>(r, ctl', mv'). r \<noteq> GOOD \<and> ip_opt_len ctl' = 0 \<and> (r = BREAK \<or> r = CONTINUE \<longrightarrow> mins_ok theta R mv'))"
proof -
  obtain s f b where t: "0 \<le> f" "f \<le> R" "0 \<le> b" "b \<le> R" "uint (be32 (drop 8 icp)) = s mod MODULO"
      "uint (be32 (drop 12 icp)) = (s + f + theta) mod MODULO" "ms_of_day now = (s + f + b) mod MODULO"
    using reply unfolding stamped_reply_def by blast
  have "fold_delta ((s + (f + theta)) mod MODULO - s mod MODULO) = f + theta"
    using t(1-4) bound by (intro fold_delta_exact) (auto simp: BIASN_def BIASP_def)
  then have d1: "fold_delta (uint (be32 (drop 12 icp)) - sendtime st) = theta + f"
    by (simp add: st t ac_simps)
  have "fold_delta ((s + f + theta + (b - theta)) mod MODULO - (s + f + theta) mod MODULO) = b - theta"
    using t(1-4) bound by (intro fold_delta_exact) (auto simp: BIASN_def BIASP_def)
  then have d2: "fold_delta (recvtime st - uint (be32 (drop 12 icp))) = b - theta"
    by (simp add: st t ac_simps)
  have keep: "case keep_deltas (theta + f) (b - theta) diff (update_rtt diff ctl) (mv\<lparr>msgcount := msgcount mv + 1\<rparr>) of
      (r, ctl', mv') \<Rightarrow> r \<noteq> GOOD \<and> ip_opt_len ctl' = 0 \<and> (r = BREAK \<or> r = CONTINUE \<longrightarrow> mins_ok theta R mv')" for diff
    using mins_ok_keep [OF ok t(1-4) bound, of diff "update_rtt diff ctl"] opt
    by (auto simp: update_rtt_def Let_def BREAK_def CONTINUE_def GOOD_def split: prod.splits)
  have "ip_opt_len (update_rtt diff ctl) = 0" for diff by (simp add: update_rtt_def Let_def opt)
  then show ?thesis
    using keep [of "recvtime st - sendtime st"] ok opt
    by (auto simp: use_stamps_def Let_def d1 d2 GOOD_def CONTINUE_def NONSTDTIME_def BREAK_def)
qed

lemma measure_inner_mins:
  assumes ok: "mins_ok theta R mv" and opt: "ip_opt_len ctl = 0" and bound: "\<bar>theta\<bar> + R \<le> BIASP"
    and e: "timely theta R e"
  shows "yields (measure_inner_loop e ctl mv)
    (\<lambda>(r, ctl', mv'). r \<noteq> GOOD \<and> ip_opt_len ctl' = 0 \<and> (r = BREAK \<or> r = CONTINUE \<longrightarrow> mins_ok theta R mv'))"
proof (cases "pe_recv e")
  case None
  then show ?thesis
    using ok opt by (auto simp: measure_inner_loop_def Let_def mins_ok_def GOOD_def BREAK_def CONTINUE_def)
next
  case (Some bytes)
  define n where "n = 4 * unat (bytes ! 0 AND 0xF)"
  define rest where "rest = drop (length bytes) (packet mv)"
  have len: "length bytes \<le> PACKET_IN" "n + 20 \<le> length bytes"
    and reply: "drop n bytes ! 0 = 14 \<longrightarrow> stamped_reply theta R (drop n bytes) (pe_time e)"
    using e Some by (auto simp: timely_def n_def)
  define pkt where "pkt = splice 0 (take PACKET_IN bytes) (packet mv)"
  have pkt: "pkt = bytes @ rest" using len by (simp add: pkt_def splice_def rest_def)
  have ihl: "4 * unat (pkt ! 0 AND 0xF) = n" using len by (cases bytes) (simp_all add: pkt n_def)
  define icp where "icp = drop n pkt"
  have icp: "icp = drop n bytes @ rest" using len by (simp add: icp_def pkt)
  have first: "icp ! 0 = drop n bytes ! 0" using len by (simp add: icp nth_append)
  have be: "be32 (drop 8 icp) = be32 (drop 8 (drop n bytes))" "be32 (drop 12 icp) = be32 (drop 12 (drop n bytes))"
    using len by (simp_all add: icp be32_append)
  have stamped: "icp ! 0 = 14 \<longrightarrow> stamped_reply theta R icp (pe_time e)"
    using reply unfolding first stamped_reply_def be .
  define mv1 where "mv1 = mv\<lparr>cd_errno := pe_errno e, packet := pkt\<rparr>"
  have ok1: "mins_ok theta R mv1" "mins_ok theta R (mv\<lparr>cd_errno := pe_errno e\<rparr>)" using ok by (simp_all add: mins_ok_def mv1_def)
  have opt1: "ip_opt_len (ack_reply s ctl) = 0" for s using opt by (simp add: ack_reply_def)
  have "clock_reply ctl pkt icp \<Longrightarrow> icp ! 0 = 14" using opt by (simp add: clock_reply_def)
  then have use: "clock_reply ctl pkt icp \<Longrightarrow>
      yields (use_stamps (ack_reply s ctl) mv1 icp \<lparr>sendtime = uint (be32 (drop 8 icp)), histime = 0, histime1 = 0, recvtime = ms_of_day (pe_time e)\<rparr>)
        (\<lambda>(r, ctl', mv'). r \<noteq> GOOD \<and> ip_opt_len ctl' = 0 \<and> (r = BREAK \<or> r = CONTINUE \<longrightarrow> mins_ok theta R mv'))" for s
    using mins_ok_stamps [OF ok1(1) opt1 bound] stamped by blast
  show ?thesis
    using use ok1 opt
    by (simp add: measure_inner_loop_def Let_def Some pkt_def [symmetric] ihl icp_def [symmetric] mv1_def [symmetric]
        reply_stamps_def opt1 GOOD_def BREAK_def CONTINUE_def)
qed

lemma wait_replies_mins:
  "mins_ok theta R mv \<Longrightarrow> ip_opt_len ctl = 0 \<Longrightarrow> \<bar>theta\<bar> + R \<le> BIASP \<Longrightarrow> (\<forall>e\<in>set es. timely theta R e) \<Longrightarrow>
   yields (wait_replies es ctl mv) (\<lambda>(r, es', ctl', mv'). r \<noteq> GOOD \<and> ip_opt_len ctl' = 0 \<and>
      (\<forall>e\<in>set es'. timely theta R e) \<and> (r = BREAK \<longrightarrow> mins_ok theta R mv'))"
proof (induction es arbitrary: ctl mv)
  case (Cons e es)
  then have "yields (measure_inner_loop e ctl mv)
      (\<lambda>(r, ctl', mv'). r \<noteq> GOOD \<and> ip_opt_len ctl' = 0 \<and> (r = BREAK \<or> r = CONTINUE \<longrightarrow> mins_ok theta R mv'))"
    by (intro measure_inner_mins) simp_all
  then show ?case
    using Cons.IH Cons.prems by (auto elim!: yields_and_then split: if_splits)
qed simp

lemma measure_loop_good:
  assumes "\<not> msgcount mv < MSGS" "mins_ok theta R mv" "\<bar>theta\<bar> + R \<le> BIASP"
  shows "yields (measure_loop ses pes ctl mv) (\<lambda>(r, ctl', mv'). r = GOOD \<longrightarrow> 2 * \<bar>measure_delta ctl' - theta\<bar> \<le> R + 1)"
proof -
  obtain f b where fb: "0 \<le> f" "f \<le> R" "0 \<le> b" "b \<le> R" "min1 mv = theta + f" "min2 mv = b - theta"
    using assms(1,2) by (auto simp: mins_ok_def MSGS_def)
  define x where "x = 2 * theta + (f - b)"
  have x: "min1 mv - min2 mv = x" by (simp add: fb x_def)
  have trunc: "\<bar>2 * (x sdiv 2) - x\<bar> \<le> 1" by (simp add: signed_divide_int_def sgn_if) linarith
  have "\<bar>x\<bar> \<le> 3 * 43199999" using fb assms(3) unfolding x_def BIASP_def by linarith
  then have "- 2147483648 \<le> x sdiv 2" "x sdiv 2 < 2147483648" using trunc by linarith+
  then have delta: "to_int32 ((min1 mv - min2 mv) sdiv 2 + PROCESSING_TIME) = x sdiv 2"
    by (simp add: x PROCESSING_TIME_def)
  have "2 * (x sdiv 2) - 2 * theta \<le> R + 1" "- (R + 1) \<le> 2 * (x sdiv 2) - 2 * theta"
    using trunc fb x_def by linarith+
  then have "2 * \<bar>x sdiv 2 - theta\<bar> \<le> R + 1" by (simp add: abs_if)
  then show ?thesis by (subst measure_loop.simps) (simp add: assms(1) delta)
qed

lemma measure_loop_mins:
  assumes "mins_ok theta R mv" "ip_opt_len ctl = 0" "\<bar>theta\<bar> + R \<le> BIASP" "\<forall>e\<in>set pes. timely theta R e"
  shows "yields (measure_loop ses pes ctl mv) (\<lambda>(r, ctl', mv'). r = GOOD \<longrightarrow> 2 * \<bar>measure_delta ctl' - theta\<bar> \<le> R + 1)"
  using assms
proof (induction ses arbitrary: pes ctl mv)
  case (Cons se ses)
  show ?case
  proof (cases "msgcount mv < MSGS")
    case True
    define ctl1 where "ctl1 = ctl\<lparr>seqno := seqno ctl + 1\<rparr>"
    have "yields (wait_replies pes ctl1 mv) (\<lambda>(r, es', ctl', mv'). r \<noteq> GOOD \<and> ip_opt_len ctl' = 0 \<and>
        (\<forall>e\<in>set es'. timely theta R e) \<and> (r = BREAK \<longrightarrow> mins_ok theta R mv'))"
      using Cons.prems by (intro wait_replies_mins) (simp_all add: ctl1_def)
    then have "yields (and_then (wait_replies pes ctl1 mv) (\<lambda>(r, pes, ctl, mv).
          if r = BREAK then measure_loop ses pes ctl mv else ret (r, ctl, mv)))
        (\<lambda>(r, ctl', mv'). r = GOOD \<longrightarrow> 2 * \<bar>measure_delta ctl' - theta\<bar> \<le> R + 1)"
      by (rule yields_and_then) (use Cons.IH Cons.prems(3) in \<open>auto split: if_splits\<close>)
    then show ?thesis
      by (subst measure_loop.simps) (simp add: True Let_def ctl1_def [symmetric] GOOD_def HOSTDOWN_def UNREACHABLE_def)
  qed (rule measure_loop_good [OF _ Cons.prems(1,3)])
next
  case Nil
  show ?case
  proof (cases "msgcount mv < MSGS")
    case True
    then show ?thesis by (subst measure_loop.simps) (simp add: GOOD_def HOSTDOWN_def)
  qed (rule measure_loop_good [OF _ Nil(1,3)])
qed

lemma failure_not_good: "- 1 \<noteq> GOOD"
  by (simp add: GOOD_def)

lemma empty_queue_keeps:
  "\<forall>e\<in>set es. P e \<Longrightarrow> msgcount mv = 0 \<and> min1 mv = m \<and> min2 mv = m \<Longrightarrow>
   yields (empty_queue es mv) (\<lambda>(ok, es', mv'). (\<forall>e\<in>set es'. P e) \<and> msgcount mv' = 0 \<and> min1 mv' = m \<and> min2 mv' = m)"
  by (induction es mv rule: empty_queue.induct) (auto simp: Let_def split: option.splits)


text \<open>Fifty replies of a clock that is 20 ms ahead, after 5 ms, back after another 6.\<close>

definition sample_stamp :: "poll_event" where
  "sample_stamp = \<lparr>pe_poll = 1,
     pe_recv = Some ([0x45] @ zeros 19 @ [14, 0, 0, 0, 7, 0, 1, 0] @ be32_bytes 1000 @ be32_bytes 1025 @ be32_bytes 1025),
     pe_time = \<lparr>ts_sec = 1, ts_nsec = 11000000\<rparr>, pe_errno = 0\<rparr>"

definition no_event :: "poll_event" where
  "no_event = \<lparr>pe_poll = 0, pe_recv = None, pe_time = \<lparr>ts_sec = 0, ts_nsec = 0\<rparr>, pe_errno = 0\<rparr>"

definition sample_events :: "poll_event list" where
  "sample_events = no_event # replicate 50 sample_stamp @ [no_event]"

definition sample_send :: "send_event" where
  "sample_send = \<lparr>se_time = \<lparr>ts_sec = 1, ts_nsec = 0\<rparr>, se_count = 20\<rparr>"

definition sample_state :: "clock_state \<Rightarrow> bool" where
  "sample_state ctl \<longleftrightarrow> ip_opt_len ctl = 0 \<and> cd_id ctl = 7 \<and> seqno0 ctl = 0 \<and> seqno ctl = 1"

lemma keep_deltas_sample:
  assumes "1 \<le> diff" "sample_state ctl"
  shows "\<exists>ctl' mv'. keep_deltas d1 d2 diff ctl mv = (CONTINUE, ctl', mv') \<and> sample_state ctl' \<and> msgcount mv' = msgcount mv"
  using assms by (simp add: keep_deltas_def Let_def RANGE_ms_def sample_state_def)

lemma sample_round:
  assumes "sample_state ctl"
  shows "\<exists>ctl' mv'. returns (measure_inner_loop sample_stamp ctl mv) (CONTINUE, ctl', mv')
    \<and> sample_state ctl' \<and> msgcount mv' = msgcount mv + 1"
proof -
  define icp where "icp = [14, 0, 0, 0, 7, 0, 1, 0] @ be32_bytes 1000 @ be32_bytes 1025 @ be32_bytes 1025"
  define rest where "rest = drop 40 (packet mv)"
  define pkt where "pkt = [0x45 :: u8] @ zeros 19 @ icp @ rest"
  define mv1 where "mv1 = mv\<lparr>cd_errno := 0, packet := pkt\<rparr>"
  define bytes where "bytes = [0x45 :: u8] @ zeros 19 @ icp"
  have rep: "pe_recv sample_stamp = Some bytes" by (simp add: sample_stamp_def icp_def bytes_def)
  have pkt: "splice 0 (take PACKET_IN bytes) (packet mv) = pkt"
    by (simp add: splice_def pkt_def rest_def PACKET_IN_def icp_def bytes_def)
  have ihl: "4 * unat (pkt ! 0 AND 0xF) = 20" by (simp add: pkt_def)
  define ic where "ic = icp @ rest"
  have icp1: "drop 20 pkt = ic" by (simp add: pkt_def ic_def)
  have be: "be32 (drop 8 ic) = 1000" "be32 (drop 12 ic) = 1025"
    by (simp_all add: ic_def icp_def)
  have cr: "clock_reply ctl pkt ic"
    using assms by (simp add: clock_reply_def reply_seq_def sample_state_def ic_def icp_def le16_def)
  define ctl1 where "ctl1 = update_rtt 11 (ack_reply (reply_seq ic) ctl)"
  have ctl1: "sample_state ctl1" using assms by (simp add: sample_state_def ctl1_def update_rtt_def ack_reply_def Let_def)
  then have opt: "ip_opt_len ctl1 = 0" "ip_opt_len (ack_reply (reply_seq ic) ctl) = 0"
    using assms by (simp_all add: sample_state_def ack_reply_def)
  obtain ctl' mv' where keep: "keep_deltas 25 (- 14) 11 ctl1 (mv1\<lparr>msgcount := msgcount mv + 1\<rparr>) = (CONTINUE, ctl', mv')"
      "sample_state ctl'" "msgcount mv' = msgcount mv + 1"
    using keep_deltas_sample [OF _ ctl1, of 11 25 "- 14" "mv1\<lparr>msgcount := msgcount mv + 1\<rparr>"] by auto
  have ev: "pe_errno sample_stamp = 0" "pe_poll sample_stamp = 1" "ms_of_day (pe_time sample_stamp) = 1011"
    by (simp_all add: sample_stamp_def ms_of_day_def signed_modulo_int_def signed_divide_int_def)
  have fold: "fold_delta 25 = 25" "fold_delta (- 14) = - 14" by (simp_all add: fold_delta_def BIASN_def BIASP_def)
  have "returns (use_stamps (ack_reply (reply_seq ic) ctl) mv1 ic
      \<lparr>sendtime = 1000, histime = 0, histime1 = 0, recvtime = 1011\<rparr>) (CONTINUE, ctl', mv')"
    using keep(1) by (simp add: use_stamps_def Let_def be fold opt ctl1_def [symmetric] mv1_def)
  moreover have "mv\<lparr>cd_errno := pe_errno sample_stamp, packet := pkt\<rparr> = mv1" by (simp add: mv1_def ev)
  ultimately have "returns (measure_inner_loop sample_stamp ctl mv) (CONTINUE, ctl', mv')"
    by (simp add: measure_inner_loop_def rep pkt ihl icp1 cr Let_def reply_stamps_def opt be ev(2,3))
  with keep show ?thesis by blast
qed

lemma sample_rounds:
  "sample_state ctl \<Longrightarrow> \<exists>ctl' mv'. returns (wait_replies (replicate n sample_stamp @ [no_event]) ctl mv) (BREAK, [], ctl', mv')
    \<and> msgcount mv' = msgcount mv + int n"
proof (induction n arbitrary: ctl mv)
  case 0
  show ?case by (simp add: measure_inner_loop_def no_event_def Let_def BREAK_def CONTINUE_def)
next
  case (Suc n)
  obtain ctl1 mv1 where 1: "returns (measure_inner_loop sample_stamp ctl mv) (CONTINUE, ctl1, mv1)"
      "sample_state ctl1" "msgcount mv1 = msgcount mv + 1"
    using sample_round [OF Suc.prems] by blast
  obtain ctl2 mv2 where 2: "returns (wait_replies (replicate n sample_stamp @ [no_event]) ctl1 mv1) (BREAK, [], ctl2, mv2)"
      "msgcount mv2 = msgcount mv1 + int n"
    using Suc.IH [OF 1(2)] by blast
  have "returns (wait_replies (replicate (Suc n) sample_stamp @ [no_event]) ctl mv) (BREAK, [], ctl2, mv2)"
    by (simp, rule returns_and_thenI [OF 1(1)]) (simp add: 2)
  with 1 2 show ?case by force
qed

lemma sample_measure:
  "\<exists>ctl mv. returns (clock_measure [sample_send] sample_events (first_state\<lparr>cd_id := 7\<rparr>)) (GOOD, ctl, mv)"
proof -
  define ctl where "ctl = first_state\<lparr>cd_id := 7, min_rtt := 0x7fffffff, measure_delta := HOSTDOWN,
    measure_delta1 := HOSTDOWN, cd_acked := 0, seqno0 := 0, seqno := 1\<rparr>"
  obtain ctl' mv' where 1: "returns (wait_replies (replicate 50 sample_stamp @ [no_event]) ctl fresh_vars) (BREAK, [], ctl', mv')"
      "msgcount mv' = 50"
    using sample_rounds [of ctl 50 fresh_vars] by (auto simp: ctl_def sample_state_def first_state_def fresh_vars_def)
  have "\<exists>c. returns (measure_loop [] [] ctl' mv') (GOOD, c, mv')"
    by (subst measure_loop.simps) (simp add: 1 MSGS_def)
  then obtain c where "returns (measure_loop [] [] ctl' mv') (GOOD, c, mv')" ..
  then have c: "returns (and_then (wait_replies (replicate 50 sample_stamp @ [no_event]) ctl fresh_vars)
      (\<lambda>(r, pes, ctl, mv). if r = BREAK then measure_loop [] pes ctl mv else ret (r, ctl, mv))) (GOOD, c, mv')"
    by (intro returns_and_thenI [OF 1(1)]) simp
  have "returns (clock_measure [sample_send] sample_events (first_state\<lparr>cd_id := 7\<rparr>)) (GOOD, c, mv')"
    using c unfolding ctl_def
    by (simp add: clock_measure_def sample_events_def Let_def no_event_def fresh_vars_def measure_loop.simps [of "[_]"]
        MSGS_def TRIALS_def sample_send_def)
  then show ?thesis by blast
qed



subsection \<open>A host that does not answer\<close>

lemma silent_rounds:
  assumes "uint (cd_acked ctl) = 0" "uint (seqno ctl) = int (11 - n)" "n \<le> 11" "msgcount mv = 0"
    and "n \<le> length ses" "n \<le> length pes" "\<forall>e\<in>set pes. pe_poll e = 0" "\<forall>s\<in>set ses. 0 \<le> se_count s"
  shows "\<exists>ctl' mv'. returns (measure_loop ses pes ctl mv) (HOSTDOWN, ctl', mv') \<and> cd_errno mv' = EHOSTDOWN
    \<and> probes_sent (fst (measure_loop ses pes ctl mv)) = n"
  using assms
proof (induction n arbitrary: ses pes ctl mv)
  case 0
  then show ?case by (subst (1 2) measure_loop.simps) (simp add: MSGS_def TRIALS_def)
next
  case (Suc n)
  obtain se ses1 where ses: "ses = se # ses1" using Suc.prems(5) by (cases ses) auto
  obtain e pes1 where pes: "pes = e # pes1" using Suc.prems(6) by (cases pes) auto
  define ctl1 where "ctl1 = ctl\<lparr>seqno := seqno ctl + 1\<rparr>"
  define mv1 where "mv1 = mv\<lparr>cd_errno := pe_errno e\<rparr>"
  have seq: "uint (seqno ctl1) = int (11 - n)"
    using Suc.prems(2,3) by (simp add: ctl1_def uint_word_ariths)
  obtain ctl' mv' where IH: "returns (measure_loop ses1 pes1 ctl1 mv1) (HOSTDOWN, ctl', mv')" "cd_errno mv' = EHOSTDOWN"
      "probes_sent (fst (measure_loop ses1 pes1 ctl1 mv1)) = n"
    using Suc.IH [of ctl1 mv1 ses1 pes1] Suc.prems seq by (auto simp: ses pes ctl1_def mv1_def)
  have "measure_inner_loop e ctl1 mv = emit [Sys ''ppoll'' (reply_timeout ctl1)] (ret (BREAK, ctl1, mv1))"
    using Suc.prems(7) by (simp add: pes measure_inner_loop_def Let_def mv1_def)
  then have w: "wait_replies pes ctl1 mv = emit [Sys ''ppoll'' (reply_timeout ctl1)] (ret (BREAK, pes1, ctl1, mv1))"
    by (simp add: pes BREAK_def CONTINUE_def)
  have "measure_loop ses pes ctl mv =
      emit [Sys ''sendto'' (map uint (clock_probe ctl1 (se_time se))), Sys ''ppoll'' (reply_timeout ctl1)] (measure_loop ses1 pes1 ctl1 mv1)"
    using Suc.prems(1-4,8) by (subst measure_loop.simps) (simp add: ses MSGS_def TRIALS_def Let_def ctl1_def [symmetric] w)
  then show ?case using IH by auto
qed

text \<open>
  C15: a host that never answers is reported as down: when every wait times out and every
  \<open>sendto\<close> succeeds, \<open>clock_measure\<close> gives up with \<open>HOSTDOWN\<close> after exactly \<open>TRIALS\<close> and one
  probes.
\<close>

theorem silent_host_down:
  assumes "\<forall>e\<in>set pes. pe_poll e = 0" "\<forall>s\<in>set ses. 0 \<le> se_count s" "12 \<le> length pes" "11 \<le> length ses"
  shows "\<exists>ctl' mv. returns (clock_measure ses pes ctl) (HOSTDOWN, ctl', mv) \<and> cd_errno mv = EHOSTDOWN
    \<and> int (probes_sent (fst (clock_measure ses pes ctl))) = TRIALS + 1"
proof -
  obtain e pes1 where pes: "pes = e # pes1" using assms(3) by (cases pes) auto
  define ctl1 where "ctl1 = ctl\<lparr>min_rtt := 0x7fffffff, measure_delta := HOSTDOWN,
    measure_delta1 := HOSTDOWN, cd_acked := 0, seqno := 0, seqno0 := 0\<rparr>"
  define mv1 where "mv1 = fresh_vars\<lparr>cd_errno := pe_errno e\<rparr>"
  have run: "clock_measure ses pes ctl = measure_loop ses pes1 ctl1 mv1"
    using assms(1) by (simp add: clock_measure_def pes Let_def ctl1_def mv1_def)
  show ?thesis
    unfolding run using silent_rounds [of ctl1 11 mv1 ses pes1] assms
    by (auto simp: ctl1_def mv1_def fresh_vars_def pes TRIALS_def)
qed

theorem silent_host_down_witness:
  "\<exists>ctl' mv. returns (clock_measure (replicate 11 sample_send) (replicate 12 no_event) first_state) (HOSTDOWN, ctl', mv)"
  using silent_host_down [of "replicate 12 no_event" "replicate 11 sample_send" first_state]
  by (auto simp: no_event_def sample_send_def)

text \<open>
  With the IP option, times are refused when no bit is common to all of them: the code joins
  them with \<open>&\<close> where it means to ask whether one of them is 0.
\<close>

lemma nonzero_stamps_refused:
  "reply_stamps (first_state\<lparr>ip_opt_len := 28\<rparr>)
     (zeros 20 @ [68, 28, 29, 0x13] @ zeros 4 @ be32_bytes 4096 @ zeros 4 @ be32_bytes 8192 @ zeros 4 @ be32_bytes 8200)
     icp now = emit [Err (''wrong timestamps'' @ [CHR 0x0A])] (ret (Inl (- 1)))"
  by code_simp

end
