(* ===== verification/Tracepath.thy ===== *)
theory Tracepath
  imports Iputils
begin

text \<open>
  The program \<open>tracepath.c\<close>: probes with growing \<open>ttl\<close>, the errors they cause, the history that
  finds the probe an error is about, and \<open>main\<close>.  What the kernel gives is an explicit sequence of
  its own for the error queue, for \<open>sendto\<close> and for \<open>recv\<close>; a loop that outlasts its sequence ends
  in \<open>Out_Of_Fuel\<close>.
\<close>

definition MAX_PROBES :: nat where "MAX_PROBES = 10"
definition MAX_HOPS_DEFAULT :: int where "MAX_HOPS_DEFAULT = 30"
definition MAX_HOPS_LIMIT :: int where "MAX_HOPS_LIMIT = 255"
definition HOST_COLUMN_SIZE :: nat where "HOST_COLUMN_SIZE = 52"
definition HIS_ARRAY_SIZE :: nat where "HIS_ARRAY_SIZE = 64"
definition DEFAULT_OVERHEAD_IPV4 :: int where "DEFAULT_OVERHEAD_IPV4 = 28"
definition DEFAULT_OVERHEAD_IPV6 :: int where "DEFAULT_OVERHEAD_IPV6 = 48"
definition DEFAULT_MTU_IPV4 :: int where "DEFAULT_MTU_IPV4 = 65535"
definition DEFAULT_MTU_IPV6 :: int where "DEFAULT_MTU_IPV6 = 128000"
definition DEFAULT_BASEPORT :: int where "DEFAULT_BASEPORT = 44444"

definition ECONNREFUSED :: int where "ECONNREFUSED = 111"
definition ETIMEDOUT :: int where "ETIMEDOUT = 110"
definition EPROTO :: int where "EPROTO = 71"
definition ENETUNREACH :: int where "ENETUNREACH = 101"

subsection \<open>The state\<close>

record hhistory =
  hops :: int
  sendtime :: timespec

text \<open>
  A message of the error queue: its length and, when it is as long as a \<open>struct probehdr\<close>, the
  \<open>ttl\<close> and the time in it; the port the probe was sent to; and the control data in order.
\<close>

record probehdr =
  ph_ttl :: u32
  ph_ts :: timespec

definition sizeof_probehdr :: int where "sizeof_probehdr = 24"

datatype control =
  Recverr6 extended_err | Hoplimit6 int | Other6 int | Recverr4 extended_err | Ttl4 u8 | Other4 int | Other_level

record error_report =
  er_size :: int
  er_hdr :: probehdr
  er_port :: u16
  er_control :: "control list"

datatype recv_result = Recv_error int | Report error_report

text \<open>
  The state of a run.  \<open>tp_ttl\<close> is \<open>ttl\<close>, an 8-bit variable; \<open>pkt_size\<close> is the size \<open>pktbuf\<close> was
  allocated with.  \<open>tp_errors\<close> are the results of reading the error queue, each with the time read
  before the call; \<open>tp_sends\<close> the times and results of \<open>sendto\<close>; \<open>tp_replies\<close> the results of \<open>recv\<close>.
\<close>

record trace_state =
  his :: "hhistory list"
  hisptr :: nat
  base_port :: u16
  tp_ttl :: u8
  max_hops :: int
  overhead :: int
  mtu :: int
  pkt_size :: int
  hops_to :: int
  hops_from :: int
  no_resolve :: bool
  show_both :: bool
  mapped :: bool
  ipv6_family :: bool
  tp_errors :: "(timespec \<times> recv_result) list"
  tp_sends :: "(timespec \<times> int) list"
  tp_replies :: "int list"

text \<open>The resolver: \<open>None\<close> where \<open>getnameinfo\<close> fails.\<close>

record trace_os =
  to_numeric :: "u8 list \<Rightarrow> string option"
  to_name :: "u8 list \<Rightarrow> string option"
  to_setsockopt :: "string \<Rightarrow> int \<Rightarrow> int"
  to_malloc :: int
  to_config :: build_config
  to_version :: string

definition data_wait :: "'a result \<Rightarrow> 'a result" where
  "data_wait m = emit [Sys ''select'' [1, 0]] m"

text \<open>The host column: the name, in parentheses the address, and at least one blank.\<close>

definition print_host :: "trace_state \<Rightarrow> string \<Rightarrow> string \<Rightarrow> string" where
  "print_host ctl a b =
     (let s = a @ (if show_both ctl then '' ('' @ b @ '')'' else []);
          plen = (if length s \<ge> HOST_COLUMN_SIZE then HOST_COLUMN_SIZE - 1 else length s)
      in s @ replicate (HOST_COLUMN_SIZE - plen) (CHR '' ''))"

subsection \<open>\<open>recverr\<close>\<close>

text \<open>The difference of the ports, which finds the slot of the history.\<close>

definition report_slot :: "trace_state \<Rightarrow> error_report \<Rightarrow> int" where
  "report_slot ctl r = uint (er_port r) - uint (base_port ctl)"

definition slot_used :: "trace_state \<Rightarrow> int \<Rightarrow> bool" where
  "slot_used ctl slot \<longleftrightarrow>
     0 \<le> slot \<and> slot < int HIS_ARRAY_SIZE - 1 \<and> hops (his ctl ! nat slot) \<noteq> 0"

definition clear_slot :: "nat \<Rightarrow> trace_state \<Rightarrow> trace_state" where
  "clear_slot k ctl = ctl\<lparr>his := (his ctl)[k := (his ctl ! k)\<lparr>hops := 0\<rparr>]\<rparr>"

text \<open>
  What is known of the probe: its hops, -1 if unknown; when it was sent; and whether the payload
  came back corrupted.
\<close>

definition probe_of ::
  "trace_state \<Rightarrow> error_report \<Rightarrow> (int \<times> timespec option \<times> bool) \<times> trace_state" where
  "probe_of ctl r =
     (let slot = report_slot ctl r; h = his ctl ! nat slot;
          (known, ctl) = (if slot_used ctl slot
                          then ((hops h, Some (sendtime h)), clear_slot (nat slot) ctl)
                          else ((- 1, None), ctl))
      in if er_size r = sizeof_probehdr
         then if ph_ttl (er_hdr r) = 0 \<or> (ts_sec (ph_ts (er_hdr r)) = 0 \<and> ts_nsec (ph_ts (er_hdr r)) = 0)
              then ((fst known, snd known, True), ctl)
              else ((to_int32 (uint (ph_ttl (er_hdr r))), Some (ph_ts (er_hdr r)), False), ctl)
         else ((fst known, snd known, False), ctl))"

text \<open>The control data: the last error, the last \<open>ttl\<close>, -1 if there is none.\<close>

primrec read_control :: "control list \<Rightarrow> extended_err option \<times> int \<Rightarrow> (extended_err option \<times> int) result" where
  "read_control [] s = ret s"
| "read_control (c # cs) s =
     (case c of
        Recverr6 e \<Rightarrow> read_control cs (Some e, snd s)
      | Hoplimit6 n \<Rightarrow> read_control cs (fst s, n)
      | Other6 t \<Rightarrow> print (''cmsg6:'' @ fmt_d t @ [CHR 0x0A] @ '' '') (read_control cs s)
      | Recverr4 e \<Rightarrow> read_control cs (Some e, snd s)
      | Ttl4 n \<Rightarrow> read_control cs (fst s, uint n)
      | Other4 t \<Rightarrow> print (''cmsg4:'' @ fmt_d t @ [CHR 0x0A] @ '' '') (read_control cs s)
      | Other_level \<Rightarrow> read_control cs s)"

definition or_unknown :: "string option \<Rightarrow> string" where
  "or_unknown s = (case s of Some t \<Rightarrow> t | None \<Rightarrow> ''???'')"

definition report_source :: "trace_os \<Rightarrow> trace_state \<Rightarrow> extended_err \<Rightarrow> int \<Rightarrow> string" where
  "report_source os ctl e sndhops =
     (if ee_origin e = SO_EE_ORIGIN_LOCAL
      then pad_left (CHR '' '') 2 (fmt_d (uint (tp_ttl ctl))) @ ''?: '' @ pad_right 32 ''[LOCALHOST]'' @ '' ''
      else if ee_origin e = SO_EE_ORIGIN_ICMP6 \<or> ee_origin e = SO_EE_ORIGIN_ICMP
      then (if sndhops > 0 then pad_left (CHR '' '') 2 (fmt_d sndhops) @ '':  ''
            else pad_left (CHR '' '') 2 (fmt_d (uint (tp_ttl ctl))) @ ''?: '') @
           (let abuf = (if no_resolve ctl \<or> show_both ctl then or_unknown (to_numeric os (ee_offender e)) else []);
                hnamebuf = (if \<not> no_resolve ctl \<or> show_both ctl then or_unknown (to_name os (ee_offender e)) else [])
            in if no_resolve ctl then print_host ctl abuf hnamebuf else print_host ctl hnamebuf abuf)
      else [])"

definition report_time :: "timespec \<Rightarrow> timespec option \<Rightarrow> bool \<Rightarrow> string" where
  "report_time now retts broken =
     (case retts of None \<Rightarrow> []
      | Some t \<Rightarrow>
          let d = timespecsub now t
          in pad_left (CHR '' '') 3 (fmt_d (ts_sec d * 1000 + ts_nsec d sdiv 1000000)) @ ''.'' @
             fmt_0d 3 ((ts_nsec d smod 1000000) sdiv 1000) @ ''ms '' @
             (if broken then ''(This broken router returned corrupted payload) '' else []))"

text \<open>The hops back, from the \<open>ttl\<close> that is left of 64, 128 or 255.\<close>

definition hops_back :: "int \<Rightarrow> int" where
  "hops_back rethops =
     (if rethops \<le> 64 then 65 - rethops else if rethops \<le> 128 then 129 - rethops else 256 - rethops)"

definition ttl_exceeded :: "extended_err \<Rightarrow> bool" where
  "ttl_exceeded e \<longleftrightarrow>
     (ee_origin e = SO_EE_ORIGIN_ICMP \<and> ee_type e = 11 \<and> ee_code e = 0)
     \<or> (ee_origin e = SO_EE_ORIGIN_ICMP6 \<and> ee_type e = 3 \<and> ee_code e = 0)"

text \<open>
  The outcome by the error: \<open>Some v\<close> when \<open>recverr\<close> returns \<open>v\<close>, \<open>None\<close> when it reads on; and the
  new \<open>progress\<close>.
\<close>

definition report_outcome ::
  "extended_err \<Rightarrow> int \<Rightarrow> int \<Rightarrow> int \<Rightarrow> trace_state \<Rightarrow> (int option \<times> int \<times> trace_state) result" where
  "report_outcome e sndhops rethops progress ctl =
     (let nl = [CHR 0x0A]; r = ee_errno e
      in if r = ETIMEDOUT then print nl (ret (None, progress, ctl))
         else if r = EMSGSIZE
         then let m = to_int32 (uint (ee_info e))
              in print (''pmtu '' @ fmt_d m @ nl) (ret (None, m, ctl\<lparr>mtu := m\<rparr>))
         else if r = ECONNREFUSED
         then print (''reached'' @ nl)
                (ret (Some 0, progress,
                      ctl\<lparr>hops_to := (if sndhops < 0 then uint (tp_ttl ctl) else sndhops), hops_from := rethops\<rparr>))
         else if r = EPROTO then print (''!P'' @ nl) (ret (Some 0, progress, ctl))
         else if r = EHOSTUNREACH
         then if ttl_exceeded e
              then print ((if rethops \<ge> 0 \<and> ((sndhops \<ge> 0 \<and> rethops \<noteq> sndhops)
                                             \<or> (sndhops < 0 \<and> rethops \<noteq> uint (tp_ttl ctl)))
                           then ''asymm '' @ pad_left (CHR '' '') 2 (fmt_d rethops) @ '' '' else []) @ nl)
                     (ret (None, progress, ctl))
              else print (''!H'' @ nl) (ret (Some 0, progress, ctl))
         else if r = ENETUNREACH then print (''!N'' @ nl) (ret (Some 0, progress, ctl))
         else if r = EACCES then print (''!A'' @ nl) (ret (Some 0, progress, ctl))
         else print nl (error_c 0 r ''NET ERROR'' (ret (Some 0, progress, ctl))))"

definition handle_report ::
  "trace_os \<Rightarrow> timespec \<Rightarrow> error_report \<Rightarrow> trace_state \<Rightarrow> (int option \<times> int \<times> trace_state) result" where
  "handle_report os now r ctl =
     (let progress = mtu ctl; ((sndhops, retts, broken), ctl) = probe_of ctl r
      in and_then (read_control (er_control r) (None, - 1)) (\<lambda>(e, rethops).
           case e of
             None \<Rightarrow> print (''no info'' @ [CHR 0x0A]) (ret (Some 0, progress, ctl))
           | Some e \<Rightarrow>
               print (report_source os ctl e sndhops @ report_time now retts broken)
                 (report_outcome e sndhops (hops_back rethops) progress ctl)))"

fun recverr_from ::
  "trace_os \<Rightarrow> (timespec \<times> recv_result) list \<Rightarrow> int \<Rightarrow> trace_state
     \<Rightarrow> (int \<times> (timespec \<times> recv_result) list \<times> trace_state) result" where
  "recverr_from os ((now, ev) # evs) progress ctl =
     (case ev of
        Recv_error e \<Rightarrow> if e = EAGAIN then ret (progress, evs, ctl) else recverr_from os evs progress ctl
      | Report r \<Rightarrow>
          and_then (handle_report os now r ctl) (\<lambda>(v, progress, ctl).
            case v of Some v \<Rightarrow> ret (v, evs, ctl) | None \<Rightarrow> recverr_from os evs progress ctl))"
| "recverr_from os [] progress ctl = stop_with Out_Of_Fuel"

definition recverr :: "trace_os \<Rightarrow> trace_state \<Rightarrow> (int \<times> trace_state) result" where
  "recverr os ctl =
     and_then (recverr_from os (tp_errors ctl) (- 1) ctl) (\<lambda>(v, evs, ctl). ret (v, ctl\<lparr>tp_errors := evs\<rparr>))"

subsection \<open>\<open>probe_ttl\<close>\<close>

text \<open>
  The attempts to send: the slot is filled before each, and emptied when the probe was not sent.
  A cleared error (a positive result of \<open>recverr\<close>) starts the ten attempts anew.  The value is
  \<open>None\<close> when the loop is left with the number of the attempt.
\<close>

definition fill_slot :: "timespec \<Rightarrow> trace_state \<Rightarrow> trace_state" where
  "fill_slot t ctl = ctl\<lparr>his := (his ctl)[hisptr ctl := \<lparr>hops = uint (tp_ttl ctl), sendtime = t\<rparr>]\<rparr>"

definition send_effect :: "timespec \<Rightarrow> trace_state \<Rightarrow> effect" where
  "send_effect t ctl =
     Sys ''sendto'' [uint (base_port ctl + word_of_nat (hisptr ctl)), mtu ctl - overhead ctl,
                     uint (tp_ttl ctl), ts_sec t, ts_nsec t]"

fun send_attempts ::
  "trace_os \<Rightarrow> (timespec \<times> int) list \<Rightarrow> nat \<Rightarrow> trace_state
     \<Rightarrow> (int option \<times> nat \<times> (timespec \<times> int) list \<times> trace_state) result" where
  "send_attempts os ss i ctl =
     (if i < MAX_PROBES
      then case ss of [] \<Rightarrow> stop_with Out_Of_Fuel
           | (t, n) # ss \<Rightarrow>
               let ctl = fill_slot t ctl
               in emit [send_effect t ctl]
                    (if n > 0 then ret (None, i, ss, ctl)
                     else and_then (recverr os ctl) (\<lambda>(res, ctl).
                            let ctl = clear_slot (hisptr ctl) ctl
                            in if res = 0 then ret (Some 0, i, ss, ctl)
                               else if res > 0 then send_attempts os ss 0 ctl
                               else send_attempts os ss (Suc i) ctl))
      else ret (None, i, ss, ctl))"

declare send_attempts.simps [simp del]

text \<open>\<open>memset\<close> clears as many bytes of the buffer as the present \<open>mtu\<close> says.\<close>

definition probe_ttl :: "trace_os \<Rightarrow> trace_state \<Rightarrow> (int \<times> trace_state) result" where
  "probe_ttl os ctl =
     (if mtu ctl < 0 \<or> pkt_size ctl < mtu ctl then stop_with Undefined
      else and_then (send_attempts os (tp_sends ctl) 0 ctl) (\<lambda>(v, i, ss, ctl).
        let ctl = ctl\<lparr>tp_sends := ss\<rparr>
        in case v of Some v \<Rightarrow> ret (v, ctl)
           | None \<Rightarrow>
               let ctl = ctl\<lparr>hisptr := (hisptr ctl + 1) AND (HIS_ARRAY_SIZE - 1)\<rparr>
               in if i < MAX_PROBES
                  then data_wait (case tp_replies ctl of [] \<Rightarrow> stop_with Out_Of_Fuel
                       | n # ns \<Rightarrow>
                           let ctl = ctl\<lparr>tp_replies := ns\<rparr>
                           in if n > 0
                              then print (pad_left (CHR '' '') 2 (fmt_d (uint (tp_ttl ctl))) @ ''?: reply received 8)'' @ [CHR 0x0A])
                                     (ret (0, ctl))
                              else recverr os ctl)
                  else print (pad_left (CHR '' '') 2 (fmt_d (uint (tp_ttl ctl))) @ '':  send failed'' @ [CHR 0x0A])
                         (ret (0, ctl))))"

subsection \<open>\<open>main\<close>\<close>

text \<open>
  The loops of \<open>main\<close>: three probes for each number of hops, started anew whenever the path MTU
  changes.  Every probe takes a result of \<open>sendto\<close>, so the rounds are bounded by their number.
\<close>

definition fewer_sends :: "trace_state \<Rightarrow> int \<times> trace_state \<Rightarrow> bool" where
  "fewer_sends ctl = (\<lambda>(v, ctl'). length (tp_sends ctl') < length (tp_sends ctl))"

lemma handle_report_sends: "yields (handle_report os now r ctl) (\<lambda>(v, p, ctl'). tp_sends ctl' = tp_sends ctl)"
proof -
  have probe: "tp_sends (snd (probe_of ctl r)) = tp_sends ctl"
    by (simp add: probe_of_def Let_def clear_slot_def)
  have out: "yields (report_outcome e s b p c) (\<lambda>(v, p, ctl'). tp_sends ctl' = tp_sends c)" for e s b p c
    by (simp add: report_outcome_def Let_def)
  have out': "tp_sends c = tp_sends ctl \<Longrightarrow> yields (report_outcome e s b p c) (\<lambda>(v, p, ctl'). tp_sends ctl' = tp_sends ctl)" for e s b p c
    using out [of e s b p c] by simp
  show ?thesis
    using probe unfolding handle_report_def Let_def
    by (auto simp: split: prod.splits option.splits intro!: out' yields_and_then [where Q = "\<lambda>_. True"] simp: yields_def [of "read_control _ _"])
qed

lemma recverr_from_sends:
  "yields (recverr_from os evs p ctl) (\<lambda>(v, evs', ctl'). tp_sends ctl' = tp_sends ctl)"
proof (induction evs arbitrary: p ctl)
  case (Cons ev evs)
  obtain now e where ev: "ev = (now, e)" by fastforce
  have IH: "tp_sends c = tp_sends ctl \<Longrightarrow> yields (recverr_from os evs q c) (\<lambda>(v, evs', ctl'). tp_sends ctl' = tp_sends ctl)" for q c
    using Cons [of q c] by simp
  have "yields (and_then (handle_report os now r ctl) (\<lambda>(v, progress, ctl).
      case v of Some v \<Rightarrow> ret (v, evs, ctl) | None \<Rightarrow> recverr_from os evs progress ctl))
    (\<lambda>(v, evs', ctl'). tp_sends ctl' = tp_sends ctl)" for r
    by (rule yields_and_then [OF handle_report_sends])
       (auto split: option.splits intro: IH)
  then show ?case using Cons by (simp add: ev split: recv_result.splits)
qed simp

lemma recverr_sends: "yields (recverr os ctl) (\<lambda>(v, ctl'). tp_sends ctl' = tp_sends ctl)"
  unfolding recverr_def by (rule yields_and_then [OF recverr_from_sends]) auto

lemma send_attempts_sends:
  "yields (send_attempts os ss i ctl) (\<lambda>(v, j, ss', ctl'). length ss' \<le> length ss \<and> (i < MAX_PROBES \<longrightarrow> length ss' < length ss))"
proof (induction ss arbitrary: i ctl)
  case Nil
  show ?case by (subst send_attempts.simps) simp
next
  case (Cons s ss)
  obtain t n where s: "s = (t, n)" by fastforce
  have "yields (and_then (recverr os c) (\<lambda>(res, ctl).
      let ctl = clear_slot (hisptr ctl) ctl
      in if res = 0 then ret (Some 0, i, ss, ctl)
         else if res > 0 then send_attempts os ss 0 ctl
         else send_attempts os ss (Suc i) ctl))
      (\<lambda>(v, j, ss', ctl'). length ss' \<le> Suc (length ss) \<and> length ss' < Suc (length ss))" for c
    by (rule yields_and_then [where Q = "\<lambda>_. True"])
       (auto simp: Let_def yields_def [of "recverr _ _"] intro!: yields_mono [OF Cons])
  then show ?case
    by (subst send_attempts.simps) (auto simp: s Let_def intro: yields_mono)
qed

lemma probe_ttl_sends: "yields (probe_ttl os ctl) (fewer_sends ctl)"
proof -
  have rec: "yields (recverr os c) (\<lambda>(v, ctl'). length (tp_sends ctl') < length (tp_sends ctl))"
    if "length (tp_sends c) < length (tp_sends ctl)" for c
    using that by (auto intro: yields_mono [OF recverr_sends])
  have "yields (send_attempts os (tp_sends ctl) 0 ctl) (\<lambda>(v, i, ss, c). length ss < length (tp_sends ctl))"
    using send_attempts_sends [of os "tp_sends ctl" 0 ctl] by (auto simp: MAX_PROBES_def elim: yields_mono)
  then show ?thesis
    unfolding probe_ttl_def fewer_sends_def
    by (auto simp: Let_def data_wait_def split: option.splits list.splits intro!: rec elim!: yields_and_then)
qed

text \<open>\<open>and_then\<close> as the function package sees it: the continuation is needed for the value returned.\<close>

lemma and_then_cong [fundef_cong]:
  "m = m' \<Longrightarrow> (\<And>a. returns m' a \<Longrightarrow> f a = g a) \<Longrightarrow> and_then m f = and_then m' g"
  by (auto simp: and_then_def returns_def split: sum.splits)

lemma probe_ttl_fewer: "returns (probe_ttl os ctl) (v, ctl') \<Longrightarrow> length (tp_sends ctl') < length (tp_sends ctl)"
  using probe_ttl_sends [of os ctl] by (auto simp: yields_def returns_def fewer_sends_def)

text \<open>The loop over \<open>i\<close>; \<open>restart\<close> is its start with 0.  The result is the last one of \<open>probe_ttl\<close>.\<close>

function hop_tries :: "trace_os \<Rightarrow> nat \<Rightarrow> int \<Rightarrow> trace_state \<Rightarrow> (int \<times> trace_state) result" where
  "hop_tries os i res ctl =
     (if i < 3
      then and_then (probe_ttl os ctl) (\<lambda>(res, ctl').
             if mtu ctl' \<noteq> mtu ctl then hop_tries os 0 res ctl'
             else if res = 0 \<or> res > 0 then ret (res, ctl')
             else hop_tries os (Suc i) res ctl')
      else ret (res, ctl))"
  by auto
termination
  by (relation "measure (\<lambda>(os, i, res, ctl). length (tp_sends ctl))") (auto dest: probe_ttl_fewer)

declare hop_tries.simps [simp del]

text \<open>The \<open>ttl\<close> of the outgoing probes.\<close>

definition or_fail :: "int \<Rightarrow> string \<Rightarrow> 'a result \<Rightarrow> 'a result" where
  "or_fail e what m = (if e \<noteq> 0 then error_c 1 e what m else m)"

definition set_ttl :: "trace_os \<Rightarrow> trace_state \<Rightarrow> 'a result \<Rightarrow> 'a result" where
  "set_ttl os ctl m =
     (let on = uint (tp_ttl ctl); v4 = or_fail (to_setsockopt os ''IP_TTL'' on) ''IP_TTL'' m
      in if ipv6_family ctl
         then or_fail (to_setsockopt os ''IPV6_UNICAST_HOPS'' on) ''IPV6_UNICAST_HOPS'' (if mapped ctl then v4 else m)
         else v4)"

text \<open>
  The loop over \<open>ttl\<close>; the value says whether it was left by \<open>goto done\<close>.  It consumes a probe in
  every round, so its recursion is bounded by them.
\<close>

lemma hop_tries_sends: "yields (hop_tries os i res ctl) (\<lambda>(v, ctl'). length (tp_sends ctl') \<le> length (tp_sends ctl)
    \<and> (i < 3 \<longrightarrow> length (tp_sends ctl') < length (tp_sends ctl)))"
proof (induction os i res ctl rule: hop_tries.induct)
  case (1 os i res ctl)
  show ?case
  proof (cases "i < 3")
    case True
    have "yields (and_then (probe_ttl os ctl) (\<lambda>(res, ctl').
             if mtu ctl' \<noteq> mtu ctl then hop_tries os 0 res ctl'
             else if res = 0 \<or> res > 0 then ret (res, ctl')
             else hop_tries os (Suc i) res ctl')) (\<lambda>(v, ctl'). length (tp_sends ctl') < length (tp_sends ctl))"
      unfolding yields_def
    proof (intro allI impI)
      fix a
      assume "snd (and_then (probe_ttl os ctl) (\<lambda>(res, ctl').
             if mtu ctl' \<noteq> mtu ctl then hop_tries os 0 res ctl'
             else if res = 0 \<or> res > 0 then ret (res, ctl')
             else hop_tries os (Suc i) res ctl')) = Inr a"
      then obtain r c where p: "returns (probe_ttl os ctl) (r, c)"
        and a: "returns (if mtu c \<noteq> mtu ctl then hop_tries os 0 r c
             else if r = 0 \<or> r > 0 then ret (r, c) else hop_tries os (Suc i) r c) a"
        by (auto simp flip: returns_def simp: returns_and_then)
      have "length (tp_sends c) < length (tp_sends ctl)" by (rule probe_ttl_fewer [OF p])
      then show "case a of (v, ctl') \<Rightarrow> length (tp_sends ctl') < length (tp_sends ctl)"
        using a 1 [OF True p refl] by (auto simp: yields_def returns_def split: if_splits prod.splits)
    qed
    then show ?thesis by (subst hop_tries.simps) (auto simp: True elim: yields_mono)
  qed (subst hop_tries.simps, simp)
qed

lemma hop_tries_fewer: "returns (hop_tries os 0 res ctl) (v, ctl') \<Longrightarrow> length (tp_sends ctl') < length (tp_sends ctl)"
  using hop_tries_sends [of os 0 res ctl] by (auto simp: yields_def returns_def)

definition no_reply :: "int \<Rightarrow> trace_state \<Rightarrow> 'a result \<Rightarrow> 'a result" where
  "no_reply res ctl =
     (if res < 0 then print (pad_left (CHR '' '') 2 (fmt_d (uint (tp_ttl ctl))) @ '':  no reply'' @ [CHR 0x0A]) else (\<lambda>m. m))"

function trace_hops :: "trace_os \<Rightarrow> trace_state \<Rightarrow> (bool \<times> trace_state) result" where
  "trace_hops os ctl =
     (if uint (tp_ttl ctl) \<le> max_hops ctl
      then set_ttl os ctl (and_then (hop_tries os 0 (- 1) ctl) (\<lambda>(res, ctl).
             if res = 0 then ret (True, ctl)
             else no_reply res ctl (trace_hops os (ctl\<lparr>tp_ttl := tp_ttl ctl + 1\<rparr>))))
      else ret (False, ctl))"
  by auto
termination
  by (relation "measure (\<lambda>(os, ctl). length (tp_sends ctl))") (auto dest: hop_tries_fewer)

declare trace_hops.simps [simp del]

definition resume_line :: "trace_state \<Rightarrow> string" where
  "resume_line ctl =
     ''     Resume: pmtu '' @ fmt_d (mtu ctl) @ '' '' @
     (if hops_to ctl \<ge> 0 then ''hops '' @ fmt_d (hops_to ctl) @ '' '' else []) @
     (if hops_from ctl \<ge> 0 then ''back '' @ fmt_d (hops_from ctl) @ '' '' else []) @ [CHR 0x0A]"

definition trace :: "trace_os \<Rightarrow> trace_state \<Rightarrow> unit result" where
  "trace os ctl =
     and_then (trace_hops os (ctl\<lparr>tp_ttl := 1\<rparr>)) (\<lambda>(found, ctl).
       print ((if found then [] else ''     Too many hops: pmtu '' @ fmt_d (mtu ctl) @ [CHR 0x0A]) @ resume_line ctl)
         (stop_with (Exit 0)))"

text \<open>The command line: the options as \<open>getopt\<close> gives them; the family is 0 for \<open>AF_UNSPEC\<close>.\<close>

definition trace_usage_text :: string where
  "trace_usage_text = concat (map (\<lambda>l. l @ [CHR 0x0A])
     [[], ''Usage'', ''  tracepath [options] <destination>'', [], ''Options:'',
      ''  -4             use IPv4'', ''  -6             use IPv6'',
      ''  -b             print both name and IP'', ''  -l <length>    use packet <length>'',
      ''  -m <hops>      use maximum <hops>'', ''  -n             no reverse DNS name resolution'',
      ''  -p <port>      use destination <port>'', ''  -V             print version and exit'',
      ''  <destination>  DNS name or IP address'', [], ''For more details see tracepath(8).''])"

definition trace_usage :: "'a result" where
  "trace_usage = emit [Err trace_usage_text] (stop_with (Exit (- 1)))"

definition trace_family :: "string \<Rightarrow> int" where
  "trace_family argv0 = (if last argv0 = CHR ''4'' then 2 else if last argv0 = CHR ''6'' then 10 else 0)"

definition two_families :: "'a result \<Rightarrow> 'a result" where
  "two_families m = error_c 2 0 ''Only one -4 or -6 option may be specified'' m"

fun trace_options :: "trace_os \<Rightarrow> (char \<times> string) list \<Rightarrow> int \<Rightarrow> trace_state \<Rightarrow> (int \<times> trace_state) result" where
  "trace_options os ((ch, optarg) # rest) family ctl =
     (if ch = CHR ''4''
      then (if family = 10 then two_families else (\<lambda>m. m)) (trace_options os rest 2 ctl)
      else if ch = CHR ''6''
      then (if family = 2 then two_families else (\<lambda>m. m)) (trace_options os rest 10 ctl)
      else if ch = CHR ''n'' then trace_options os rest family (ctl\<lparr>no_resolve := True\<rparr>)
      else if ch = CHR ''b'' then trace_options os rest family (ctl\<lparr>show_both := True\<rparr>)
      else if ch = CHR ''l''
      then and_then (strtol_or_err (Some optarg) invalid_argument 0 int_max)
             (\<lambda>n. trace_options os rest family (ctl\<lparr>mtu := n\<rparr>))
      else if ch = CHR ''m''
      then and_then (strtol_or_err (Some optarg) invalid_argument 0 MAX_HOPS_LIMIT)
             (\<lambda>n. trace_options os rest family (ctl\<lparr>max_hops := n\<rparr>))
      else if ch = CHR ''p''
      then and_then (strtol_or_err (Some optarg) invalid_argument 0 65535)
             (\<lambda>n. trace_options os rest family (ctl\<lparr>base_port := to_u16 n\<rparr>))
      else if ch = CHR ''V''
      then print (to_version os) (and_then (print_config (to_config os)) (\<lambda>_. stop_with (Exit 0)))
      else trace_usage)"
| "trace_options os [] family ctl = ret (family, ctl)"

text \<open>The old form \<open>host/port\<close> of the destination.\<close>

definition split_host :: "string \<Rightarrow> trace_state \<Rightarrow> (string \<times> trace_state) result" where
  "split_host host ctl =
     (if base_port ctl = 0
      then case dropWhile (\<lambda>c. c \<noteq> CHR ''/'') host of
             [] \<Rightarrow> ret (host, ctl\<lparr>base_port := to_u16 DEFAULT_BASEPORT\<rparr>)
           | _ # port \<Rightarrow>
               and_then (strtol_or_err (Some port) invalid_argument 0 65535)
                 (\<lambda>n. ret (takeWhile (\<lambda>c. c \<noteq> CHR ''/'') host, ctl\<lparr>base_port := to_u16 n\<rparr>))
      else ret (host, ctl))"

text \<open>
  The addresses the resolver found: the family of each, the error number of \<open>socket\<close> (0 for
  success) and whether it is an IPv4 address mapped into IPv6.  \<open>socket_fd\<close> is 0 before the first
  attempt, so a list without a usable family leaves no address and no error: \<open>ctl.ai->ai_family\<close>
  then reads through a null pointer.
\<close>

record trace_addr =
  ta_family :: int
  ta_socket :: int
  ta_mapped :: bool

fun choose_addr :: "trace_addr list \<Rightarrow> int \<Rightarrow> trace_addr result" where
  "choose_addr (a # as) err =
     (if ta_family a \<noteq> 10 \<and> ta_family a \<noteq> 2 then choose_addr as err
      else if ta_socket a \<noteq> 0 then choose_addr as (ta_socket a) else ret a)"
| "choose_addr [] err = (if err \<noteq> 0 then error_c 1 err ''socket/connect'' (stop_with Undefined) else stop_with Undefined)"

definition pktlen_error :: "int \<Rightarrow> 'a result" where
  "pktlen_error over =
     error_c 1 0 (''pktlen must be within: '' @ fmt_d over @ '' < value <= '' @ fmt_d int_max) (stop_with Undefined)"

definition with_overhead :: "int \<Rightarrow> int \<Rightarrow> (trace_state \<Rightarrow> 'a result) \<Rightarrow> trace_state \<Rightarrow> 'a result" where
  "with_overhead over mtu0 m ctl =
     (let ctl = ctl\<lparr>overhead := over\<rparr>; ctl = (if mtu ctl = 0 then ctl\<lparr>mtu := mtu0\<rparr> else ctl)
      in if mtu ctl \<le> over then pktlen_error over else m ctl)"

text \<open>The socket options; \<open>IPV6_PMTUDISC_DO\<close> and \<open>IPV6_2292HOPLIMIT\<close> are tried second.\<close>

definition setup_ipv4 :: "trace_os \<Rightarrow> (trace_state \<Rightarrow> 'a result) \<Rightarrow> trace_state \<Rightarrow> 'a result" where
  "setup_ipv4 os m =
     with_overhead DEFAULT_OVERHEAD_IPV4 DEFAULT_MTU_IPV4 (\<lambda>ctl.
       or_fail (to_setsockopt os ''IP_MTU_DISCOVER'' 3) ''IP_MTU_DISCOVER''
         (or_fail (to_setsockopt os ''IP_RECVERR'' 1) ''IP_RECVERR''
           (or_fail (to_setsockopt os ''IP_RECVTTL'' 1) ''IP_RECVTTL'' (m ctl))))"

definition setup_ipv6 :: "trace_os \<Rightarrow> bool \<Rightarrow> (trace_state \<Rightarrow> 'a result) \<Rightarrow> trace_state \<Rightarrow> 'a result" where
  "setup_ipv6 os map4 m =
     with_overhead DEFAULT_OVERHEAD_IPV6 DEFAULT_MTU_IPV6 (\<lambda>ctl.
       or_fail (if to_setsockopt os ''IPV6_MTU_DISCOVER'' 3 = 0 then 0 else to_setsockopt os ''IPV6_MTU_DISCOVER'' 2)
         ''IPV6_MTU_DISCOVER''
         (or_fail (to_setsockopt os ''IPV6_RECVERR'' 1) ''IPV6_RECVERR''
           (or_fail (if to_setsockopt os ''IPV6_HOPLIMIT'' 1 = 0 then 0 else to_setsockopt os ''IPV6_2292HOPLIMIT'' 1)
             ''IPV6_HOPLIMIT''
             (if map4 then setup_ipv4 os m (ctl\<lparr>mapped := True\<rparr>) else m ctl))))"

definition first_trace_state ::
  "(timespec \<times> recv_result) list \<Rightarrow> (timespec \<times> int) list \<Rightarrow> int list \<Rightarrow> trace_state" where
  "first_trace_state errs sends replies =
     \<lparr>his = replicate HIS_ARRAY_SIZE \<lparr>hops = 0, sendtime = \<lparr>ts_sec = 0, ts_nsec = 0\<rparr>\<rparr>, hisptr = 0, base_port = 0,
       tp_ttl = 0, max_hops = MAX_HOPS_DEFAULT, overhead = 0, mtu = 0, pkt_size = 0, hops_to = - 1, hops_from = - 1,
       no_resolve = False, show_both = False, mapped = False, ipv6_family = False,
       tp_errors = errs, tp_sends = sends, tp_replies = replies\<rparr>"

text \<open>
  \<open>main\<close> with the resolver as a function of the host, the port and the family: its message when
  it fails, or the addresses.  \<open>to_malloc\<close> is 0 when the allocation of \<open>pktbuf\<close> succeeds.
\<close>

definition trace_run :: "trace_os \<Rightarrow> trace_addr \<Rightarrow> trace_state \<Rightarrow> unit result" where
  "trace_run os a ctl =
     (let go = (\<lambda>ctl. or_fail (to_malloc os) ''malloc'' (trace os (ctl\<lparr>pkt_size := mtu ctl\<rparr>)))
      in if ta_family a = 10 then setup_ipv6 os (ta_mapped a) go (ctl\<lparr>ipv6_family := True\<rparr>)
         else setup_ipv4 os go (ctl\<lparr>ipv6_family := False\<rparr>))"

definition trace_main ::
  "trace_os \<Rightarrow> (string \<Rightarrow> string \<Rightarrow> int \<Rightarrow> string + trace_addr list) \<Rightarrow> trace_state
     \<Rightarrow> string \<Rightarrow> (char \<times> string) list \<Rightarrow> string list \<Rightarrow> unit result" where
  "trace_main os resolve ctl argv0 options args =
     and_then (trace_options os options (trace_family argv0) ctl) (\<lambda>(family, ctl).
       case args of
         [host] \<Rightarrow>
           and_then (split_host host ctl) (\<lambda>(host, ctl).
             case resolve host (fmt_d (uint (base_port ctl))) family of
               Inl msg \<Rightarrow> error_c 1 0 (host @ '': '' @ msg) (stop_with Abort)
             | Inr as \<Rightarrow> and_then (choose_addr as 0) (\<lambda>a. trace_run os a ctl))
       | _ \<Rightarrow> trace_usage)"

subsection \<open>Every access to the history is inside it\<close>

definition trace_ok :: "trace_state \<Rightarrow> bool" where
  "trace_ok ctl \<longleftrightarrow>
     length (his ctl) = HIS_ARRAY_SIZE \<and> hisptr ctl < HIS_ARRAY_SIZE \<and> (\<forall>h\<in>set (his ctl). 0 \<le> hops h \<and> hops h \<le> 255)"

lemma slot_in_range: "trace_ok ctl \<Longrightarrow> slot_used ctl k \<Longrightarrow> nat k < length (his ctl)"
  by (simp add: trace_ok_def slot_used_def HIS_ARRAY_SIZE_def nat_less_iff)

lemma trace_ok_clear [intro]: "trace_ok ctl \<Longrightarrow> k < HIS_ARRAY_SIZE \<Longrightarrow> trace_ok (clear_slot k ctl)"
  by (auto simp: trace_ok_def clear_slot_def dest!: set_update_subset_insert [THEN subsetD])

lemma trace_ok_fill [intro]: "trace_ok ctl \<Longrightarrow> trace_ok (fill_slot t ctl)"
  using u8_bounds [of "tp_ttl ctl"]
  by (auto simp: trace_ok_def fill_slot_def dest!: set_update_subset_insert [THEN subsetD])

lemma trace_ok_simps [simp]:
  "trace_ok (ctl\<lparr>mtu := a\<rparr>) = trace_ok ctl" "trace_ok (ctl\<lparr>hops_to := b, hops_from := c\<rparr>) = trace_ok ctl"
  "trace_ok (ctl\<lparr>tp_errors := evs\<rparr>) = trace_ok ctl" "trace_ok (ctl\<lparr>tp_sends := ss\<rparr>) = trace_ok ctl"
  "trace_ok (ctl\<lparr>tp_replies := ns\<rparr>) = trace_ok ctl" "trace_ok (ctl\<lparr>tp_ttl := t\<rparr>) = trace_ok ctl"
  by (simp_all add: trace_ok_def)

lemma next_slot: "(n + 1) AND (HIS_ARRAY_SIZE - 1) < HIS_ARRAY_SIZE"
  using take_bit_eq_mask [of 6 "n + 1"] by (simp add: HIS_ARRAY_SIZE_def mask_eq_exp_minus_1 take_bit_eq_mod flip: take_bit_eq_mask)

lemma trace_ok_next [intro]:
  "trace_ok ctl \<Longrightarrow> trace_ok (ctl\<lparr>tp_sends := ss, hisptr := Suc (hisptr ctl) AND HIS_ARRAY_SIZE - Suc 0\<rparr>)"
  using next_slot [of "hisptr ctl"] by (simp add: trace_ok_def)

lemma probe_of_ok: "trace_ok ctl \<Longrightarrow> trace_ok (snd (probe_of ctl r))"
  using slot_in_range [of ctl "report_slot ctl r"] by (auto simp: probe_of_def Let_def trace_ok_def [of ctl])

lemma handle_report_ok:
  assumes "trace_ok ctl"
  shows "yields (handle_report os now r ctl) (\<lambda>(v, p, ctl'). trace_ok ctl')"
proof -
  have out: "trace_ok c \<Longrightarrow> yields (report_outcome e s b p c) (\<lambda>(v, p, ctl'). trace_ok ctl')" for e s b p c
    by (simp add: report_outcome_def Let_def)
  show ?thesis
    using probe_of_ok [OF assms, of r] unfolding handle_report_def Let_def
    by (auto split: prod.splits option.splits intro!: out yields_and_then [where Q = "\<lambda>_. True"]
        simp: yields_def [of "read_control _ _"])
qed

lemma recverr_from_ok: "trace_ok ctl \<Longrightarrow> yields (recverr_from os evs p ctl) (\<lambda>(v, evs', ctl'). trace_ok ctl')"
proof (induction evs arbitrary: p ctl)
  case (Cons ev evs)
  obtain now e where ev: "ev = (now, e)" by fastforce
  have "yields (and_then (handle_report os now r ctl) (\<lambda>(v, progress, ctl).
      case v of Some v \<Rightarrow> ret (v, evs, ctl) | None \<Rightarrow> recverr_from os evs progress ctl)) (\<lambda>(v, evs', ctl'). trace_ok ctl')" for r
    by (rule yields_and_then [OF handle_report_ok [OF Cons.prems]]) (auto split: option.splits intro: Cons.IH)
  then show ?case using Cons by (simp add: ev split: recv_result.splits)
qed simp

lemma recverr_ok: "trace_ok ctl \<Longrightarrow> yields (recverr os ctl) (\<lambda>(v, ctl'). trace_ok ctl')"
  unfolding recverr_def by (rule yields_and_then [OF recverr_from_ok]) auto

lemma send_attempts_ok: "trace_ok ctl \<Longrightarrow> yields (send_attempts os ss i ctl) (\<lambda>(v, j, ss', ctl'). trace_ok ctl')"
proof (induction ss arbitrary: i ctl)
  case Nil
  then show ?case by (subst send_attempts.simps) simp
next
  case (Cons s ss)
  obtain t n where s: "s = (t, n)" by fastforce
  have fill: "trace_ok (fill_slot t ctl)" using Cons.prems by auto
  have "yields (and_then (recverr os (fill_slot t ctl)) (\<lambda>(res, ctl).
      let ctl = clear_slot (hisptr ctl) ctl
      in if res = 0 then ret (Some 0, i, ss, ctl)
         else if res > 0 then send_attempts os ss 0 ctl
         else send_attempts os ss (Suc i) ctl)) (\<lambda>(v, j, ss', ctl'). trace_ok ctl')"
    by (rule yields_and_then [OF recverr_ok [OF fill]])
       (auto simp: Let_def trace_ok_def [THEN iffD1] intro!: Cons.IH trace_ok_clear)
  then show ?case using Cons.prems fill by (subst send_attempts.simps) (simp add: s Let_def)
qed

lemma probe_ttl_ok: "trace_ok ctl \<Longrightarrow> yields (probe_ttl os ctl) (\<lambda>(v, ctl'). trace_ok ctl')"
  unfolding probe_ttl_def
  by (auto simp: Let_def data_wait_def split: option.splits list.splits
      intro!: recverr_ok trace_ok_next elim!: yields_and_then [OF send_attempts_ok])

lemma hop_tries_ok: "trace_ok ctl \<Longrightarrow> yields (hop_tries os i res ctl) (\<lambda>(v, ctl'). trace_ok ctl')"
proof (induction os i res ctl rule: hop_tries.induct)
  case (1 os i res ctl)
  show ?case
  proof (cases "i < 3")
    case True
    have "yields (probe_ttl os ctl) (\<lambda>(r, c). returns (probe_ttl os ctl) (r, c) \<and> trace_ok c)"
      using probe_ttl_ok [OF "1.prems", of os] by (auto simp: yields_def returns_def)
    then have "yields (and_then (probe_ttl os ctl) (\<lambda>(res, ctl').
             if mtu ctl' \<noteq> mtu ctl then hop_tries os 0 res ctl'
             else if res = 0 \<or> res > 0 then ret (res, ctl')
             else hop_tries os (Suc i) res ctl')) (\<lambda>(v, ctl'). trace_ok ctl')"
      by (rule yields_and_then) (use "1.IH" True in \<open>auto split: if_splits\<close>)
    then show ?thesis by (subst hop_tries.simps) (simp add: True)
  qed (use "1.prems" in \<open>subst hop_tries.simps, simp\<close>)
qed



subsection \<open>Which probe an answer is for\<close>

text \<open>
  C16: a refused connection ends the trace with the number of hops of the probe it is about: when
  the report comes back to the port of slot \<open>k\<close> without the payload, \<open>recverr\<close> returns 0 and notes
  as hops to the destination the \<open>ttl\<close> kept in the slot, and as hops back those the report has
  travelled.  The last of the 64 slots is the exception: the code never looks into it and takes
  the present \<open>ttl\<close> instead, also for a late answer.
\<close>

theorem reached_hops:
  assumes "trace_ok ctl" "k < HIS_ARRAY_SIZE" "hops (his ctl ! k) \<noteq> 0"
    and "tp_errors ctl = (now, Report r) # evs" "er_size r \<noteq> sizeof_probehdr"
    and "uint (er_port r) = uint (base_port ctl) + int k"
    and "returns (read_control (er_control r) (None, - 1)) (Some e, n)" "ee_errno e = ECONNREFUSED"
  shows "\<exists>ctl'. returns (recverr os ctl) (0, ctl') \<and> tp_errors ctl' = evs \<and> hops_from ctl' = hops_back n
    \<and> hops_to ctl' = (if k < HIS_ARRAY_SIZE - 1 then hops (his ctl ! k) else uint (tp_ttl ctl))"
proof -
  have slot: "report_slot ctl r = int k" using assms(6) by (simp add: report_slot_def)
  have used: "slot_used ctl (int k) \<longleftrightarrow> k < HIS_ARRAY_SIZE - 1"
    using assms(2,3) by (auto simp: slot_used_def HIS_ARRAY_SIZE_def)
  have pos: "\<not> hops (his ctl ! k) < 0"
    using assms(1,2) by (auto simp: trace_ok_def not_less)
  define c where "c = snd (probe_of ctl r)"
  define s where "s = fst (fst (probe_of ctl r))"
  have probe: "s = (if k < HIS_ARRAY_SIZE - 1 then hops (his ctl ! k) else - 1)" "tp_ttl c = tp_ttl ctl"
    using assms(5) by (simp_all add: s_def c_def probe_of_def Let_def slot used clear_slot_def)
  obtain t b where split: "probe_of ctl r = ((s, t, b), c)" by (metis c_def s_def prod.collapse)
  define d where "d = c\<lparr>hops_to := (if s < 0 then uint (tp_ttl c) else s), hops_from := hops_back n\<rparr>"
  have "returns (handle_report os now r ctl) (Some 0, mtu ctl, d)"
    unfolding handle_report_def split Let_def prod.case
    by (rule returns_and_thenI [OF assms(7)])
       (simp add: report_outcome_def assms(8) ECONNREFUSED_def ETIMEDOUT_def EMSGSIZE_def d_def)
  then have "returns (recverr_from os (tp_errors ctl) (- 1) ctl) (0, evs, d)"
    by (simp add: assms(4), elim returns_and_thenI) simp
  then have "returns (recverr os ctl) (0, d\<lparr>tp_errors := evs\<rparr>)"
    unfolding recverr_def by (rule returns_and_thenI) simp
  then show ?thesis using probe pos by (intro exI) (auto simp: d_def)
qed

text \<open>Nobody resolves names; the kernel accepts every \<open>ttl\<close> but 0.\<close>

definition plain_os :: trace_os where
  "plain_os = \<lparr>to_numeric = (\<lambda>_. None), to_name = (\<lambda>_. None), to_setsockopt = (\<lambda>what n. if n = 0 then EINVAL else 0),
     to_malloc = 0, to_config = \<lparr>have_libcap = True, use_idn = True, enable_nls = True, have_error_h = True,
     have_getrandom = True, have_fpending = True\<rparr>, to_version = []\<rparr>"

definition refused :: error_report where
  "refused = \<lparr>er_size = 8, er_hdr = \<lparr>ph_ttl = 0, ph_ts = \<lparr>ts_sec = 0, ts_nsec = 0\<rparr>\<rparr>, er_port = 44445,
     er_control = [Ttl4 60, Recverr4 \<lparr>ee_origin = 2, ee_errno = 111, ee_type = 3, ee_code = 3, ee_info = 0, ee_offender = []\<rparr>]\<rparr>"

definition tracing :: trace_state where
  "tracing = (first_trace_state [(\<lparr>ts_sec = 9, ts_nsec = 0\<rparr>, Report refused)] [] [])
     \<lparr>base_port := 44444, tp_ttl := 7, hisptr := 5,
      his := replicate HIS_ARRAY_SIZE \<lparr>hops = 4, sendtime = \<lparr>ts_sec = 8, ts_nsec = 0\<rparr>\<rparr>\<rparr>"

theorem reached_hops_witness:
  "\<exists>ctl'. returns (recverr plain_os tracing) (0, ctl') \<and> hops_to ctl' = 4 \<and> hops_from ctl' = 5"
proof -
  have "\<exists>ctl'. returns (recverr plain_os tracing) (0, ctl') \<and> tp_errors ctl' = [] \<and> hops_from ctl' = hops_back 60
    \<and> hops_to ctl' = (if 1 < HIS_ARRAY_SIZE - 1 then hops (his tracing ! 1) else uint (tp_ttl tracing))"
    by (rule reached_hops [where r = refused and now = "\<lparr>ts_sec = 9, ts_nsec = 0\<rparr>"
          and e = "\<lparr>ee_origin = 2, ee_errno = 111, ee_type = 3, ee_code = 3, ee_info = 0, ee_offender = []\<rparr>"])
       (simp_all add: tracing_def trace_ok_def first_trace_state_def HIS_ARRAY_SIZE_def refused_def sizeof_probehdr_def ECONNREFUSED_def)
  then show ?thesis by (auto simp: tracing_def HIS_ARRAY_SIZE_def hops_back_def)
qed

subsection \<open>A network that does not answer\<close>

text \<open>\<open>n\<close> probes can be sent; no error and no reply comes.\<close>

definition nobody_answers :: "nat \<Rightarrow> trace_state \<Rightarrow> bool" where
  "nobody_answers n ctl \<longleftrightarrow>
     0 \<le> mtu ctl \<and> mtu ctl \<le> pkt_size ctl \<and> n \<le> length (tp_errors ctl) \<and> n \<le> length (tp_sends ctl)
     \<and> n \<le> length (tp_replies ctl) \<and> (\<forall>e\<in>set (tp_errors ctl). snd e = Recv_error EAGAIN)
     \<and> (\<forall>s\<in>set (tp_sends ctl). snd s > 0) \<and> (\<forall>r\<in>set (tp_replies ctl). r \<le> 0)"

definition same_trace :: "trace_state \<Rightarrow> trace_state \<Rightarrow> bool" where
  "same_trace c d \<longleftrightarrow> mtu d = mtu c \<and> tp_ttl d = tp_ttl c \<and> max_hops d = max_hops c \<and> ipv6_family d = ipv6_family c"

lemma silent_probe:
  assumes "nobody_answers (Suc n) ctl"
  shows "\<exists>c. returns (probe_ttl os ctl) (- 1, c) \<and> nobody_answers n c \<and> same_trace ctl c
    \<and> probes_sent (fst (probe_ttl os ctl)) = 1"
proof -
  obtain ev evs where e: "tp_errors ctl = ev # evs" using assms by (cases "tp_errors ctl") (auto simp: nobody_answers_def)
  obtain s ss where s: "tp_sends ctl = s # ss" using assms by (cases "tp_sends ctl") (auto simp: nobody_answers_def)
  obtain r rs where r: "tp_replies ctl = r # rs" using assms by (cases "tp_replies ctl") (auto simp: nobody_answers_def)
  obtain now where ev: "ev = (now, Recv_error EAGAIN)" using assms e by (cases ev) (auto simp: nobody_answers_def)
  obtain t m where st: "s = (t, m)" "m > 0" using assms s by (cases s) (auto simp: nobody_answers_def)
  define c where "c = (fill_slot t ctl)\<lparr>tp_sends := ss, hisptr := (hisptr ctl + 1) AND (HIS_ARRAY_SIZE - 1),
    tp_replies := rs, tp_errors := evs\<rparr>"
  have "\<not> r > 0" "\<not> mtu ctl < 0" "\<not> pkt_size ctl < mtu ctl" using assms r by (auto simp: nobody_answers_def)
  then have "probe_ttl os ctl = emit [send_effect t (fill_slot t ctl), Sys ''select'' [1, 0]] (ret (- 1, c))"
    by (simp add: probe_ttl_def s st send_attempts.simps [of _ "_ # _"] MAX_PROBES_def Let_def data_wait_def
        fill_slot_def r recverr_def e ev c_def)
  moreover have "nobody_answers n c \<and> same_trace ctl c"
    using assms by (simp add: c_def nobody_answers_def same_trace_def fill_slot_def e s r)
  ultimately show ?thesis by (simp add: send_effect_def)
qed

lemma silent_tries:
  assumes "nobody_answers (n + (3 - i)) ctl" "i \<le> 3"
  shows "\<exists>c. returns (hop_tries os i (- 1) ctl) (- 1, c) \<and> nobody_answers n c \<and> same_trace ctl c
    \<and> probes_sent (fst (hop_tries os i (- 1) ctl)) = 3 - i"
  using assms
proof (induction "3 - i" arbitrary: i ctl)
  case 0
  then show ?case by (subst (1 2) hop_tries.simps) (simp add: same_trace_def)
next
  case (Suc d)
  then have i: "i < 3" "d = 3 - Suc i" by simp_all
  obtain c where c: "returns (probe_ttl os ctl) (- 1, c)" "nobody_answers (n + (3 - Suc i)) c" "same_trace ctl c"
      "probes_sent (fst (probe_ttl os ctl)) = 1"
  proof -
    have "n + (3 - i) = Suc (n + (3 - Suc i))" using i by simp
    then have "nobody_answers (Suc (n + (3 - Suc i))) ctl" using Suc.prems(1) by (simp only:)
    then show ?thesis using silent_probe that by blast
  qed
  obtain d where d: "returns (hop_tries os (Suc i) (- 1) c) (- 1, d)" "nobody_answers n d" "same_trace c d"
      "probes_sent (fst (hop_tries os (Suc i) (- 1) c)) = 3 - Suc i"
    using Suc.hyps(1) [OF i(2) c(2)] i by auto
  have "mtu c = mtu ctl" using c(3) by (simp add: same_trace_def)
  then have step: "hop_tries os i (- 1) ctl = emit (fst (probe_ttl os ctl)) (hop_tries os (Suc i) (- 1) c)"
    using c(1) i(1) by (subst hop_tries.simps) (simp add: and_then_def returns_def)
  show ?case
    using c d i by (simp add: step) (auto simp: same_trace_def)
qed


definition silent_trace :: "int \<Rightarrow> trace_state" where
  "silent_trace m = (first_trace_state (replicate 765 (\<lparr>ts_sec = 9, ts_nsec = 0\<rparr>, Recv_error EAGAIN))
     (replicate 765 (\<lparr>ts_sec = 9, ts_nsec = 0\<rparr>, 100)) (replicate 765 (- 1)))
     \<lparr>base_port := 44444, tp_ttl := 1, max_hops := m, overhead := 28, mtu := 1500, pkt_size := 1500\<rparr>"


end
