(* ===== verification/Ping_Options.thy ===== *)
theory Ping_Options
  imports Ping_Output Node_Info Iputils C_Double
begin

text \<open>
  The command line of \<open>ping\<close>, from \<open>ping/ping.c\<close> and \<open>ping/ping_common.c\<close>: reading of numbers, flow
  labels, types of service and patterns; the option switch of \<open>main\<close>; and the creation of the
  sockets.  The options are given as \<open>getopt\<close> returns them, a character and an argument each.
\<close>

definition AF_INET :: int where "AF_INET = 2"
definition AF_INET6 :: int where "AF_INET6 = 10"
definition AF_UNSPEC :: int where "AF_UNSPEC = 0"
definition SOCK_DGRAM :: int where "SOCK_DGRAM = 2"
definition SOCK_RAW :: int where "SOCK_RAW = 3"

definition EAFNOSUPPORT :: int where "EAFNOSUPPORT = 97"
definition EPROTONOSUPPORT :: int where "EPROTONOSUPPORT = 93"
definition EDESTADDRREQ :: int where "EDESTADDRREQ = 89"

definition IDENTIFIER_MAX :: int where "IDENTIFIER_MAX = 0xFFFF"
definition TOS_MAX :: int where "TOS_MAX = 255"

subsection \<open>\<open>usage\<close>\<close>

definition usage_text :: string where
  "usage_text = concat (map (\<lambda>l. l @ [CHR 0x0A])
     [[], ''Usage'',
      ''  ping [options] <destination>'', [],
      ''Options:'',
      ''  <destination>      DNS name or IP address'',
      ''  -3                 RTT precision (do not round up the result time)'',
      ''  -a                 use audible ping'',
      ''  -A                 use adaptive ping'',
      ''  -B                 sticky source address'',
      ''  -c <count>         stop after <count> replies'',
      ''  -C                 call connect() syscall on socket creation'',
      ''  -D                 print timestamps'',
      ''  -d                 use SO_DEBUG socket option'',
      ''  -e <identifier>    define identifier for ping session, default is random for'',
      ''                     SOCK_RAW and kernel defined for SOCK_DGRAM'',
      ''                     Imply using SOCK_RAW (for IPv4 only for identifier 0)'',
      ''  -f                 flood ping'',
      ''  -h                 print help and exit'',
      ''  -H                 force reverse DNS name resolution (useful for numeric'',
      ''                     destinations or for -f), override -n'',
      ''  -I <interface>     either interface name or address'',
      ''  -i <interval>      seconds between sending each packet'',
      ''  -j                 JSON output (experimental)'',
      ''  -L                 suppress loopback of multicast packets'',
      ''  -l <preload>       send <preload> number of packages while waiting replies'',
      ''  -m <mark>          tag the packets going out'',
      ''  -M <pmtud opt>     define path MTU discovery, can be one of <do|dont|want|probe>'',
      ''  -n                 no reverse DNS name resolution, override -H'',
      ''  -O                 report outstanding replies'',
      ''  -p <pattern>       contents of padding byte'',
      ''  -q                 quiet output'',
      ''  -Q <tclass>        use quality of service <tclass> bits'',
      ''  -s <size>          use <size> as number of data bytes to be sent'',
      ''  -S <size>          use <size> as SO_SNDBUF socket option value'',
      ''  -t <ttl>           define time to live'',
      ''  -U                 print user-to-user latency'',
      ''  -v                 verbose output'',
      ''  -V                 print version and exit'',
      ''  -w <deadline>      reply wait <deadline> in seconds'',
      ''  -W <timeout>       time to wait for response'', [],
      ''IPv4 options:'',
      ''  -4                 use IPv4'',
      ''  -b                 allow pinging broadcast'',
      ''  -R                 record route'',
      ''  -T <timestamp>     define timestamp, can be one of <tsonly|tsandaddr|tsprespec>'', [],
      ''IPv6 options:'',
      ''  -6                 use IPv6'',
      ''  -F <flowlabel>     define flow label, default is random'',
      ''  -N <nodeinfo opt>  use IPv6 node info query, try <help> as argument'', [],
      ''For more details see ping(8).''])"

definition usage :: "'a result" where
  "usage = emit [Err usage_text] (stop_with (Exit 2))"

subsection \<open>Numbers in two bases\<close>

text \<open>
  \<open>strtoul\<close> and \<open>strtol\<close> for base 10 and 16: blanks, a sign, for base 16 an optional prefix, and
  digits; without digits nothing is read and the value is 0.
\<close>

definition hex_val :: "char \<Rightarrow> nat" where
  "hex_val c = (let n = of_char c in if n \<le> 57 then n - 48 else if n \<le> 70 then n - 55 else n - 87)"

definition is_xdigit :: "char \<Rightarrow> bool" where
  "is_xdigit c \<longleftrightarrow> (let n = of_char c :: nat in (48 \<le> n \<and> n \<le> 57) \<or> (65 \<le> n \<and> n \<le> 70) \<or> (97 \<le> n \<and> n \<le> 102))"

definition skip_0x :: "string \<Rightarrow> string" where
  "skip_0x s =
     (case s of a # b # c # cs \<Rightarrow>
        if a = CHR ''0'' \<and> (b = CHR ''x'' \<or> b = CHR ''X'') \<and> is_xdigit c then c # cs else s
      | _ \<Rightarrow> s)"

definition scan_based :: "nat \<Rightarrow> string \<Rightarrow> bool \<times> nat option \<times> string" where
  "scan_based base s =
     (case scan_sign (dropWhile is_blank s) of (neg, t) \<Rightarrow>
        let t = (if base = 16 then skip_0x t else t); dig = (if base = 16 then is_xdigit else is_digit);
            ds = takeWhile dig t
        in if ds = [] then (False, None, s)
           else (neg, Some (foldl (\<lambda>n c. base * n + hex_val c) 0 ds), dropWhile dig t))"

definition strtoul_based :: "nat \<Rightarrow> string \<Rightarrow> int \<times> string" where
  "strtoul_based base s =
     (case scan_based base s of
        (neg, None, rest) \<Rightarrow> (0, rest)
      | (neg, Some v, rest) \<Rightarrow>
          (if ULONG_MAX < int v then ULONG_MAX else if neg then (- int v) mod (ULONG_MAX + 1) else int v, rest))"

definition strtol_based :: "nat \<Rightarrow> string \<Rightarrow> int \<times> string" where
  "strtol_based base s =
     (case scan_based base s of
        (neg, None, rest) \<Rightarrow> (0, rest)
      | (neg, Some v, rest) \<Rightarrow>
          (let w = (if neg then - int v else int v)
           in if w < LONG_MIN then LONG_MIN else if long_max < w then long_max else w, rest))"

definition hex_or_dec :: "(nat \<Rightarrow> string \<Rightarrow> int \<times> string) \<Rightarrow> string \<Rightarrow> int \<times> string" where
  "hex_or_dec conv str =
     (if take 1 str = ''0'' \<and> (take 1 (drop 1 str) = ''x'' \<or> take 1 (drop 1 str) = ''X'')
      then conv 16 (drop 2 str) else conv 10 str)"

definition parseflow :: "string \<Rightarrow> u32 result" where
  "parseflow str =
     (case hex_or_dec strtoul_based str of (v, ep) \<Rightarrow>
        let val = word_of_int (to_int32 v) :: u64
        in if ep \<noteq> [] then error_c 2 0 (''bad value for flowinfo: '' @ str) (ret 0)
           else if val AND NOT 0xFFFFF \<noteq> 0 then error_c 2 0 (''flow value is greater than 20 bits: '' @ str) (ret 0)
           else ret (ucast val))"

definition parsetos :: "string \<Rightarrow> int result" where
  "parsetos str =
     (case hex_or_dec strtol_based str of (v, ep) \<Rightarrow>
        let tos = to_int32 v
        in if ep \<noteq> [] then error_c 2 0 (''bad TOS value: '' @ str) (ret 0)
           else if tos > TOS_MAX
           then error_c 2 0 (''the decimal value of TOS bits must be in range 0-255: '' @ fmt_d tos) (ret 0)
           else ret tos)"

subsection \<open>\<open>ping_strtod\<close>\<close>

text \<open>
  \<open>strtod\<close> in the C locale: a decimal or hexadecimal number with an optional fraction and
  exponent, an infinity or a NaN.  The value is rounded to 53 bits; what is beyond the range
  of \<open>double\<close> is an infinity or 0, with \<open>ERANGE\<close>, and a tiny value is subnormal.
\<close>

datatype c_double = Finite rat | Infinite | Not_a_number

definition lower :: "string \<Rightarrow> string" where
  "lower s = map (\<lambda>c. let n = of_char c :: nat in if 65 \<le> n \<and> n \<le> 90 then char_of (n + 32) else c) s"

definition scan_exponent :: "string \<Rightarrow> string \<Rightarrow> int \<times> string" where
  "scan_exponent marks s =
     (case s of
        [] \<Rightarrow> (0, [])
      | c # t \<Rightarrow>
          if c \<in> set marks
          then case scan_sign t of (neg, u) \<Rightarrow>
                 let ds = takeWhile is_digit u
                 in if ds = [] then (0, s)
                    else (if neg then - int (read_dec ds) else int (read_dec ds), dropWhile is_digit u)
          else (0, s))"

text \<open>Digits with a fraction: their value as one integer, the number of fraction digits, the rest.\<close>

definition scan_fraction :: "nat \<Rightarrow> (char \<Rightarrow> bool) \<Rightarrow> string \<Rightarrow> (nat \<times> nat) option \<times> string" where
  "scan_fraction base dig s =
     (let a = takeWhile dig s; t = dropWhile dig s;
          (b, u) = (if take 1 t = ''.'' then (takeWhile dig (drop 1 t), dropWhile dig (drop 1 t)) else ([], t))
      in if a @ b = [] then (None, s)
         else (Some (foldl (\<lambda>n c. base * n + hex_val c) 0 (a @ b), length b), u))"

definition double_of :: "bool \<Rightarrow> rat \<Rightarrow> c_double \<times> int" where
  "double_of neg q =
     (let r = rnd q; v = (if neg then - r else r)
      in if q = 0 then (Finite 0, 0)
         else if 2 ^ 1024 \<le> r then (Infinite, ERANGE)
         else if q \<le> 1 / 2 ^ 1075 then (Finite 0, ERANGE)
         else (Finite v, if r < 1 / 2 ^ 1022 then ERANGE else 0))"

definition strtod :: "string \<Rightarrow> c_double \<times> string \<times> int" where
  "strtod str =
     (case scan_sign (dropWhile is_blank str) of (neg, s) \<Rightarrow>
        if lower (take 8 s) = ''infinity'' then (Infinite, drop 8 s, 0)
        else if lower (take 3 s) = ''inf'' then (Infinite, drop 3 s, 0)
        else if lower (take 3 s) = ''nan'' then (Not_a_number, drop 3 s, 0)
        else if lower (take 2 s) = ''0x'' \<and> fst (scan_fraction 16 is_xdigit (drop 2 s)) \<noteq> None
        then case scan_fraction 16 is_xdigit (drop 2 s) of
               (Some (n, k), t) \<Rightarrow>
                 (case scan_exponent ''pP'' t of (e, u) \<Rightarrow>
                    case double_of neg (of_nat n * 2 powi (e - 4 * int k)) of (v, err) \<Rightarrow> (v, u, err))
             | (None, t) \<Rightarrow> (Finite 0, str, 0)
        else case scan_fraction 10 is_digit s of
               (Some (n, k), t) \<Rightarrow>
                 (case scan_exponent ''eE'' t of (e, u) \<Rightarrow>
                    case double_of neg (of_nat n * 10 powi (e - int k)) of (v, err) \<Rightarrow> (v, u, err))
             | (None, t) \<Rightarrow> (Finite 0, str, 0))"

text \<open>Normal numbers and 0 pass; garbage behind the number or a range error is only reported.\<close>

definition fp_normal :: "c_double \<Rightarrow> bool" where
  "fp_normal d \<longleftrightarrow> (case d of Finite q \<Rightarrow> q = 0 \<or> 1 / 2 ^ 1022 \<le> \<bar>q\<bar> | _ \<Rightarrow> False)"

definition ping_strtod :: "string \<Rightarrow> string \<Rightarrow> rat result" where
  "ping_strtod str err_msg =
     (if str = [] then error_c 2 0 (err_msg @ '': '' @ str) (stop_with Abort)
      else case strtod str of (num, rest, e) \<Rightarrow>
        emit (if e \<noteq> 0 \<or> rest = str \<or> rest \<noteq> []
              then [Diag 0 (''option argument contains garbage: '' @ rest),
                    Diag 0 ''this will become fatal error in the future''] else [])
          (case num of
             Finite q \<Rightarrow> if fp_normal num then ret q else error_c 2 ERANGE (err_msg @ '': '' @ str) (stop_with Abort)
           | _ \<Rightarrow> error_c 2 ERANGE (err_msg @ '': '' @ str) (stop_with Abort)))"

subsection \<open>\<open>fill\<close>\<close>

text \<open>
  The pattern in pairs of hexadecimal digits, sixteen at most; whole copies of it fill the packet
  behind the header as long as they fit.
\<close>

fun hex_pairs :: "string \<Rightarrow> u8 list" where
  "hex_pairs (a # b # cs) = word_of_nat (16 * hex_val a + hex_val b) # hex_pairs cs"
| "hex_pairs [a] = [word_of_nat (hex_val a)]"
| "hex_pairs [] = []"

definition fill_pattern :: "u8 list \<Rightarrow> u8 list \<Rightarrow> u8 list" where
  "fill_pattern pat packet =
     (if pat = [] then packet
      else splice 8 (concat (replicate ((length packet - 8) div length pat) pat)) packet)"

definition fill :: "(int \<Rightarrow> string) \<Rightarrow> ping_rts \<Rightarrow> string \<Rightarrow> ping_rts result" where
  "fill strerror rts patp =
     (case dropWhile is_xdigit patp of
        [] \<Rightarrow>
          let pat = take 16 (hex_pairs patp); rts = rts\<lparr>outpack := fill_pattern pat (outpack rts)\<rparr>
          in if \<not> opt_quiet (opts rts)
             then print (''PATTERN: 0x'' @ concat (map (\<lambda>b. fmt_0x 2 (unat b)) pat) @ [CHR 0x0A]) (ret rts)
             else ret rts
      | cp \<Rightarrow> ping_error strerror rts 2 0 (''patterns must be specified as hex digits: '' @ cp))"

subsection \<open>The option switch\<close>

text \<open>
  What the switch reads beside the options: \<open>inet_pton\<close>, the libraries of the node information
  options, and the texts of error numbers.  Its state: the hints for the resolver, whether
  \<open>-V\<close> was given, and the run-time state.
\<close>

record option_env =
  oe_pton4 :: "string \<Rightarrow> u32 option"
  oe_pton6 :: "string \<Rightarrow> u8 list option"
  oe_ni :: ni_library
  oe_stale :: "u8 list"
  oe_strerror :: "int \<Rightarrow> string"

record parse_state =
  ai_family :: int
  ai_socktype :: int
  opt_version :: bool
  ps_rts :: ping_rts

definition upd_rts :: "(ping_rts \<Rightarrow> ping_rts) \<Rightarrow> parse_state \<Rightarrow> parse_state" where
  "upd_rts f s = s\<lparr>ps_rts := f (ps_rts s)\<rparr>"

definition upd_opts :: "(ping_opts \<Rightarrow> ping_opts) \<Rightarrow> parse_state \<Rightarrow> parse_state" where
  "upd_opts f = upd_rts (\<lambda>rts. rts\<lparr>opts := f (opts rts)\<rparr>)"

text \<open>The options that only set a flag.\<close>

definition flag_options :: "(char \<times> (ping_opts \<Rightarrow> ping_opts)) list" where
  "flag_options =
     [(CHR ''3'', \<lambda>p. p\<lparr>opt_rtt_precision := True\<rparr>),
      (CHR ''j'', \<lambda>p. p\<lparr>opt_json := True\<rparr>),
      (CHR ''a'', \<lambda>p. p\<lparr>opt_audible := True\<rparr>),
      (CHR ''A'', \<lambda>p. p\<lparr>opt_adaptive := True\<rparr>),
      (CHR ''B'', \<lambda>p. p\<lparr>opt_strictsource := True\<rparr>),
      (CHR ''C'', \<lambda>p. p\<lparr>opt_connect_sk := True\<rparr>),
      (CHR ''d'', \<lambda>p. p\<lparr>opt_so_debug := True\<rparr>),
      (CHR ''D'', \<lambda>p. p\<lparr>opt_ptimeofday := True\<rparr>),
      (CHR ''H'', \<lambda>p. p\<lparr>opt_force_lookup := True\<rparr>),
      (CHR ''L'', \<lambda>p. p\<lparr>opt_noloop := True\<rparr>),
      (CHR ''n'', \<lambda>p. p\<lparr>opt_numeric := True, opt_force_lookup := False\<rparr>),
      (CHR ''O'', \<lambda>p. p\<lparr>opt_outstanding := True\<rparr>),
      (CHR ''q'', \<lambda>p. p\<lparr>opt_quiet := True\<rparr>),
      (CHR ''r'', \<lambda>p. p\<lparr>opt_so_dontroute := True\<rparr>),
      (CHR ''U'', \<lambda>p. p\<lparr>opt_latency := True\<rparr>),
      (CHR ''v'', \<lambda>p. p\<lparr>opt_verbose := True\<rparr>)]"

text \<open>The options with an integer.\<close>

definition set_preload :: "int \<Rightarrow> parse_state \<Rightarrow> parse_state result" where
  "set_preload n s =
     (let s = upd_rts (\<lambda>rts. rts\<lparr>preload := n\<rparr>) s
      in if uid (ps_rts s) \<noteq> 0 \<and> n > 3
         then error_c 2 0 (''cannot set preload to value greater than 3: '' @ fmt_d n) (ret s) else ret s)"

definition number_option :: "char \<Rightarrow> string \<Rightarrow> parse_state \<Rightarrow> parse_state result option" where
  "number_option ch optarg s =
     (let num = (\<lambda>lo hi f. Some (and_then (strtol_or_err (Some optarg) invalid_argument lo hi) (\<lambda>n. ret (upd_rts (f n) s))))
      in if ch = CHR ''c'' then num 1 long_max (\<lambda>n rts. rts\<lparr>npackets := n\<rparr>)
         else if ch = CHR ''e''
         then Some (and_then (strtoul_or_err (Some optarg) invalid_argument 0 IDENTIFIER_MAX)
                (\<lambda>n. ret (upd_rts (\<lambda>rts. rts\<lparr>ident := uint (htons (to_u16 n))\<rparr>) s)))
         else if ch = CHR ''l''
         then Some (and_then (strtol_or_err (Some optarg) invalid_argument 1 (int MAX_DUP_CHK)) (\<lambda>n. set_preload n s))
         else if ch = CHR ''m''
         then Some (and_then (strtoul_or_err (Some optarg) invalid_argument 0 uint_max)
                (\<lambda>n. ret (upd_rts (\<lambda>rts. rts\<lparr>mark := word_of_int n, opts := opts rts\<lparr>opt_mark := True\<rparr>\<rparr>) s)))
         else if ch = CHR ''s'' then num 0 int_max (\<lambda>n rts. rts\<lparr>datalen := n\<rparr>)
         else if ch = CHR ''S'' then num 1 int_max (\<lambda>n rts. rts\<lparr>sndbuf := n\<rparr>)
         else if ch = CHR ''t'' then num 0 255 (\<lambda>n rts. rts\<lparr>ttl := n, opts := opts rts\<lparr>opt_ttl := True\<rparr>\<rparr>)
         else if ch = CHR ''w'' then num 0 int_max (\<lambda>n rts. rts\<lparr>deadline := n\<rparr>)
         else None)"

text \<open>\<open>-i\<close> and \<open>-W\<close>: seconds as a \<open>double\<close>, kept in milliseconds and in microseconds.\<close>

definition interval_option :: "string \<Rightarrow> parse_state \<Rightarrow> parse_state result" where
  "interval_option optarg s =
     and_then (ping_strtod optarg ''bad timing interval'') (\<lambda>v.
       if v < 0 \<or> v > d_div (of_int int_max) 1000 then error_c 2 0 (''bad timing interval: '' @ optarg) (ret s)
       else ret (upd_rts (\<lambda>rts. rts\<lparr>interval := d_to_int (d_mul v 1000), opts := opts rts\<lparr>opt_interval := True\<rparr>\<rparr>) s))"

definition linger_option :: "string \<Rightarrow> parse_state \<Rightarrow> parse_state result" where
  "linger_option optarg s =
     and_then (ping_strtod optarg ''bad linger time'') (\<lambda>v.
       if v < 0 \<or> v > d_div (of_int uint_max) 1000000 then error_c 2 0 (''bad linger time: '' @ optarg) (ret s)
       else ret (upd_rts (\<lambda>rts. rts\<lparr>lingertime := word_of_int (d_to_int (d_mul v 1000000))\<rparr>) s))"

text \<open>\<open>-I\<close>: an IPv6 address with an optional device behind \<open>%\<close>, an IPv4 address, or a device.\<close>

definition source_option :: "option_env \<Rightarrow> string \<Rightarrow> parse_state \<Rightarrow> parse_state result" where
  "source_option env optarg s =
     (let strict = upd_opts (\<lambda>p. p\<lparr>opt_strictsource := True\<rparr>)
      in if CHR '':'' \<in> set optarg
         then let addr = takeWhile (\<lambda>c. c \<noteq> CHR ''%'') optarg; rest = dropWhile (\<lambda>c. c \<noteq> CHR ''%'') optarg;
                  s = (if rest \<noteq> [] then upd_rts (\<lambda>rts. rts\<lparr>device := Some (tl rest)\<rparr>) s else s)
              in case oe_pton6 env addr of
                   None \<Rightarrow> error_c 2 0 (''invalid source address: '' @ optarg) (ret s)
                 | Some a \<Rightarrow> ret (strict (upd_rts (\<lambda>rts. rts\<lparr>source6 := a\<rparr>) s))
         else case oe_pton4 env optarg of
                Some a \<Rightarrow> ret (strict (upd_rts (\<lambda>rts. rts\<lparr>source := a\<rparr>) s))
              | None \<Rightarrow> ret (upd_rts (\<lambda>rts. rts\<lparr>device := Some optarg\<rparr>) s))"

text \<open>The options that exclude one another, and those with a word as argument.\<close>

definition IPOPT_TS_TSONLY :: int where "IPOPT_TS_TSONLY = 0"
definition IPOPT_TS_TSANDADDR :: int where "IPOPT_TS_TSANDADDR = 1"
definition IPOPT_TS_PRESPEC :: int where "IPOPT_TS_PRESPEC = 3"

definition family_option :: "int \<Rightarrow> int \<Rightarrow> parse_state \<Rightarrow> parse_state result" where
  "family_option fam other s =
     (if ai_family s = other then error_c 2 0 ''only one -4 or -6 option may be specified'' (ret s)
      else ret (s\<lparr>ai_family := fam\<rparr>))"

definition route_option :: "parse_state \<Rightarrow> parse_state result" where
  "route_option s =
     (if opt_timestamp (opts (ps_rts s)) then error_c 2 0 ''only one of -T or -R may be used'' (ret s)
      else ret (upd_opts (\<lambda>p. p\<lparr>opt_rroute := True\<rparr>) s))"

definition timestamp_option :: "string \<Rightarrow> parse_state \<Rightarrow> parse_state result" where
  "timestamp_option optarg s =
     (if opt_rroute (opts (ps_rts s)) then error_c 2 0 ''only one of -T or -R may be used'' (ret s)
      else let s = upd_opts (\<lambda>p. p\<lparr>opt_timestamp := True\<rparr>) s; set_type = (\<lambda>t. ret (upd_rts (\<lambda>rts. rts\<lparr>ts_type := t\<rparr>) s))
           in if optarg = ''tsonly'' then set_type IPOPT_TS_TSONLY
              else if optarg = ''tsandaddr'' then set_type IPOPT_TS_TSANDADDR
              else if optarg = ''tsprespec'' then set_type IPOPT_TS_PRESPEC
              else error_c 2 0 (''invalid timestamp type: '' @ optarg) (ret s))"

definition pmtudisc_option :: "string \<Rightarrow> parse_state \<Rightarrow> parse_state result" where
  "pmtudisc_option optarg s =
     (let set_pmtu = (\<lambda>v. ret (upd_rts (\<lambda>rts. rts\<lparr>pmtudisc := v\<rparr>) s))
      in if optarg = ''do'' then set_pmtu 2
         else if optarg = ''dont'' then set_pmtu 0
         else if optarg = ''want'' then set_pmtu 1
         else if optarg = ''probe'' then set_pmtu 3
         else error_c 2 0 (''invalid -M argument: '' @ optarg) (ret s))"

definition nodeinfo_option :: "option_env \<Rightarrow> string \<Rightarrow> parse_state \<Rightarrow> parse_state result" where
  "nodeinfo_option env optarg s =
     and_then (niquery_option_handler (oe_ni env) (oe_stale env) (ni (ps_rts s)) optarg) (\<lambda>(nq, r).
       let s = (upd_rts (\<lambda>rts. rts\<lparr>ni := nq\<rparr>) s)
       in if r < 0 then usage else ret (s\<lparr>ai_socktype := SOCK_RAW\<rparr>))"

definition ping_option :: "option_env \<Rightarrow> char \<Rightarrow> string \<Rightarrow> parse_state \<Rightarrow> parse_state result" where
  "ping_option env ch optarg s =
     (case map_of flag_options ch of
        Some f \<Rightarrow> ret (upd_opts f s)
      | None \<Rightarrow>
          (case number_option ch optarg s of
             Some m \<Rightarrow> m
           | None \<Rightarrow>
               if ch = CHR ''4'' then family_option AF_INET AF_INET6 s
               else if ch = CHR ''6'' then family_option AF_INET6 AF_INET s
               else if ch = CHR ''b'' then ret (upd_rts (\<lambda>rts. rts\<lparr>broadcast_pings := True\<rparr>) s)
               else if ch = CHR ''R'' then route_option s
               else if ch = CHR ''T'' then timestamp_option optarg s
               else if ch = CHR ''F''
               then and_then (parseflow optarg)
                      (\<lambda>v. ret (upd_rts (\<lambda>rts. rts\<lparr>flowlabel := v, opts := opts rts\<lparr>opt_flowinfo := True\<rparr>\<rparr>) s))
               else if ch = CHR ''N'' then nodeinfo_option env optarg s
               else if ch = CHR ''i'' then interval_option optarg s
               else if ch = CHR ''I'' then source_option env optarg s
               else if ch = CHR ''M'' then pmtudisc_option optarg s
               else if ch = CHR ''f''
               then emit [Sys ''setbuf'' []] (ret (upd_opts (\<lambda>p. p\<lparr>opt_flood := True, opt_numeric := True\<rparr>) s))
               else if ch = CHR ''p''
               then let s = upd_opts (\<lambda>p. p\<lparr>opt_pingfilled := True\<rparr>) s
                    in and_then (fill (oe_strerror env) (ps_rts s) optarg) (\<lambda>rts. ret (s\<lparr>ps_rts := rts\<rparr>))
               else if ch = CHR ''Q''
               then and_then (parsetos optarg) (\<lambda>v. ret (upd_rts (\<lambda>rts. rts\<lparr>settos := v, tclass := word_of_int v\<rparr>) s))
               else if ch = CHR ''V'' then ret (s\<lparr>opt_version := True\<rparr>)
               else if ch = CHR ''W'' then linger_option optarg s
               else usage))"

primrec ping_options :: "option_env \<Rightarrow> (char \<times> string) list \<Rightarrow> parse_state \<Rightarrow> parse_state result" where
  "ping_options env [] s = ret s"
| "ping_options env (o1 # os) s = and_then (ping_option env (fst o1) (snd o1) s) (ping_options env os)"

subsection \<open>Sockets\<close>

definition str_family :: "int \<Rightarrow> string result" where
  "str_family fam =
     (if fam = AF_UNSPEC then ret ''AF_UNSPEC'' else if fam = AF_INET then ret ''AF_INET''
      else if fam = AF_INET6 then ret ''AF_INET6''
      else error_c 2 0 (''unknown protocol family: '' @ fmt_d fam) (ret []))"

definition str_socktype :: "int \<Rightarrow> string result" where
  "str_socktype t =
     (if t = 0 then ret ''0'' else if t = SOCK_DGRAM then ret ''SOCK_DGRAM'' else if t = SOCK_RAW then ret ''SOCK_RAW''
      else error_c 2 0 (''unknown sock type: '' @ fmt_d t) (ret []))"

definition get_ipv4_optlen :: "ping_rts \<Rightarrow> int" where
  "get_ipv4_optlen rts =
     (if opt_rroute (opts rts) \<or> opt_timestamp (opts rts) \<or> opt_sourceroute (opts rts) then 40 else 0)"

record socket_st =
  fd :: int
  socktype :: int

definition no_socket :: socket_st where "no_socket = \<lparr>fd = - 1, socktype = 0\<rparr>"

text \<open>
  \<open>socket\<close> by family and type: an error number or a descriptor.  A datagram socket that the
  kernel or the user's group does not allow is replaced by a raw one.
\<close>

definition falls_back :: "int \<Rightarrow> int \<Rightarrow> bool" where
  "falls_back family e \<longleftrightarrow> (e = EAFNOSUPPORT \<and> family = AF_INET) \<or> e = EPROTONOSUPPORT \<or> e = EACCES"

definition create_socket ::
  "(int \<Rightarrow> int \<Rightarrow> int + int) \<Rightarrow> bool \<Rightarrow> ping_rts \<Rightarrow> int \<Rightarrow> int \<Rightarrow> bool \<Rightarrow> socket_st result" where
  "create_socket sys_socket superuser rts family stype requisite =
     (let first = (if stype = SOCK_DGRAM then sys_socket family stype else Inl 0);
          fallback = (case first of Inl e \<Rightarrow> falls_back family e | Inr _ \<Rightarrow> False);
          raw = (stype = SOCK_RAW \<or> fallback); stype = (if raw then SOCK_RAW else stype);
          res = (if raw then sys_socket family SOCK_RAW else first)
      in case res of
           Inr d \<Rightarrow> ret \<lparr>fd = d, socktype = stype\<rparr>
         | Inl e \<Rightarrow>
             and_then (if requisite \<or> opt_verbose (opts rts)
                       then and_then (str_socktype stype)
                              (\<lambda>t. emit [Diag 0 (''socktype: '' @ t), Diag e ''socket''] (ret ()))
                       else ret ()) (\<lambda>_.
             if requisite
             then emit (if stype = SOCK_RAW \<and> \<not> superuser then [Diag 0 ''=> missing cap_net_raw+p capability or setuid?''] else [])
                    (stop_with (Exit 2))
             else ret \<lparr>fd = - 1, socktype = stype\<rparr>))"

definition set_socket_option :: "(string \<Rightarrow> int) \<Rightarrow> socket_st \<Rightarrow> string \<Rightarrow> int \<Rightarrow> 'a result \<Rightarrow> 'a result" where
  "set_socket_option sockopt sock what v m =
     (if fd sock = - 1 then m
      else emit [Sys what [v]] (if sockopt what \<noteq> 0 then error_c 2 (sockopt what) ''setsockopt'' m else m))"

subsection \<open>The settings that result\<close>

text \<open>What the rest of the program relies on, whatever the command line was, before anything is counted.\<close>

definition settings_ok :: "ping_rts \<Rightarrow> bool" where
  "settings_ok rts \<longleftrightarrow>
     0 \<le> npackets rts \<and> npackets rts \<le> long_max \<and>
     1 \<le> preload rts \<and> preload rts \<le> int MAX_DUP_CHK \<and> (uid rts \<noteq> 0 \<longrightarrow> preload rts \<le> 3) \<and>
     0 \<le> interval rts \<and> interval rts \<le> int_max \<and> 0 \<le> datalen rts \<and> datalen rts \<le> int_max \<and>
     0 \<le> sndbuf rts \<and> 0 \<le> ttl rts \<and> ttl rts \<le> 255 \<and> 0 \<le> deadline rts \<and> deadline rts \<le> int_max \<and>
     settos rts \<le> 255 \<and> flowlabel rts < 2 ^ 20 \<and> - 1 \<le> ident rts \<and> ident rts < 65536 \<and>
     - 1 \<le> pmtudisc rts \<and> pmtudisc rts \<le> 3 \<and> \<not> (opt_rroute (opts rts) \<and> opt_timestamp (opts rts)) \<and>
     length (outpack rts) = 65535 \<and> \<not> timing rts \<and> ntransmitted rts = 0 \<and> rcvd_tbl rts = zeros 1024"

lemma yields_error [simp]: "status \<noteq> 0 \<Longrightarrow> yields (error_c status e msg m) P"
  by (simp add: error_c_def)

lemma usage_yields [simp]: "yields usage P"
  by (simp add: usage_def)

lemma option_rangeI:
  "yields m Q \<Longrightarrow> (\<And>n. Q n \<Longrightarrow> settings_ok (ps_rts (f n))) \<Longrightarrow>
   yields (and_then m (\<lambda>n. ret (f n))) (\<lambda>s. settings_ok (ps_rts s))"
  by (erule yields_and_then) simp

lemma flag_option_ok:
  "settings_ok (ps_rts s) \<Longrightarrow> map_of flag_options ch = Some f \<Longrightarrow> settings_ok (ps_rts (upd_opts f s))"
  unfolding flag_options_def
  by (auto simp: upd_opts_def upd_rts_def settings_ok_def split: if_splits)

lemma number_option_ok:
  assumes "settings_ok (ps_rts s)" "number_option ch arg s = Some m"
  shows "yields m (\<lambda>s. settings_ok (ps_rts s))"
proof -
  have ident: "- 1 \<le> uint (htons (to_u16 n)) \<and> uint (htons (to_u16 n)) < 65536" for n
    using u16_bounds [of "htons (to_u16 n)"] by linarith
  have pre: "yields (set_preload n s) (\<lambda>s. settings_ok (ps_rts s))" if "1 \<le> n \<and> n \<le> int MAX_DUP_CHK" for n
    using assms(1) that by (auto simp: set_preload_def upd_rts_def settings_ok_def Let_def)
  show ?thesis
    using assms(2) unfolding number_option_def Let_def
    by (auto split: if_splits intro!: option_rangeI [OF strtol_range] option_rangeI [OF strtoul_range]
        yields_and_then [OF strtol_range] pre)
      (use assms(1) ident in \<open>auto simp: settings_ok_def upd_rts_def int_max_def uint_max_def IDENTIFIER_MAX_def long_max_def\<close>)
qed

lemma interval_bound:
  assumes "0 \<le> v" "v \<le> d_div (of_int int_max) 1000"
  shows "0 \<le> d_to_int (d_mul v 1000) \<and> d_to_int (d_mul v 1000) \<le> int_max"
proof -
  have "v \<le> of_int 2251799812637 / 2 ^ 20"
    using assms(2) rnd_le_fraction [of "of_int int_max / 1000" 2251799812637]
    by (simp add: d_div_def int_max_def)
  then have v: "v * 1000 \<le> of_int 2251799812637000 / 2 ^ 20" by simp
  have "v * 1000 < 2 ^ 32" using v by simp
  then have "d_mul v 1000 \<le> of_int 2251799812637000 / 2 ^ 20"
    unfolding d_mul_def using assms(1) v by (intro rnd_le_fraction) simp_all
  then have "d_mul v 1000 < 2147483648" by simp
  moreover have "of_int 0 \<le> d_mul v 1000"
    unfolding d_mul_def using assms(1) \<open>v * 1000 < 2 ^ 32\<close> by (intro rnd_ge) simp_all
  ultimately show ?thesis by (auto simp: d_to_int_def int_max_def floor_le_iff)
qed

lemma length_fill_pattern [simp]:
  assumes "8 \<le> length packet"
  shows "length (fill_pattern pat packet) = length packet"
proof -
  define n where "n = (length packet - 8) div length pat"
  have "length (concat (replicate k pat)) = k * length pat" for k by (induction k) simp_all
  moreover have "n * length pat \<le> length packet - 8" by (simp add: n_def)
  ultimately have "8 + length (concat (replicate n pat)) \<le> length packet"
    using assms by simp
  then show ?thesis by (simp add: fill_pattern_def n_def)
qed

lemma fill_ok:
  assumes "settings_ok rts"
  shows "yields (fill strerror rts patp) settings_ok"
proof -
  have "yields (ping_error strerror rts 2 0 msg) P" for msg P
    by (auto simp: ping_error_def Let_def yields_def and_then_def error_c_def split: sum.splits if_splits)
  then show ?thesis
    using assms by (auto simp: fill_def Let_def settings_ok_def split: list.split)
qed

lemma flow_range: "yields (parseflow str) (\<lambda>v. v < 2 ^ 20)"
proof -
  have "ucast v < (2 ^ 20 :: u32)" if "(v :: u64) AND NOT 0xFFFFF = 0" for v
  proof -
    have "take_bit 20 v = v"
    proof (rule bit_word_eqI)
      fix n :: nat
      have "\<not> bit (v AND NOT (mask 20)) n" using that by (simp add: mask_eq_exp_minus_1)
      then show "bit (take_bit 20 v) n = bit v n" by (auto simp: bit_simps dest: bit_imp_le_length)
    qed
    then have "uint v < 2 ^ 20" by (metis take_bit_int_less_exp unsigned_take_bit_eq)
    then show ?thesis by (simp add: word_less_def uint_up_ucast unsigned_ucast_eq take_bit_int_eq_self)
  qed
  then show ?thesis
    by (auto simp: parseflow_def Let_def split: prod.split)
qed

lemma tos_range: "yields (parsetos str) (\<lambda>v. v \<le> 255)"
  by (auto simp: parsetos_def Let_def TOS_MAX_def split: prod.split)

lemma ping_option_ok:
  assumes ok: "settings_ok (ps_rts s)"
  shows "yields (ping_option env ch arg s) (\<lambda>s. settings_ok (ps_rts s))"
proof -
  have family: "yields (family_option a b s) (\<lambda>s. settings_ok (ps_rts s))" for a b
    using ok by (simp add: family_option_def)
  have route: "yields (route_option s) (\<lambda>s. settings_ok (ps_rts s))"
    using ok by (simp add: route_option_def upd_opts_def upd_rts_def settings_ok_def)
  have stamp: "yields (timestamp_option arg s) (\<lambda>s. settings_ok (ps_rts s))"
    using ok by (auto simp: timestamp_option_def upd_opts_def upd_rts_def settings_ok_def Let_def)
  have flow: "yields (and_then (parseflow arg) (\<lambda>v. ret (upd_rts (\<lambda>rts. rts\<lparr>flowlabel := v, opts := opts rts\<lparr>opt_flowinfo := True\<rparr>\<rparr>) s)))
      (\<lambda>s. settings_ok (ps_rts s))"
    by (rule option_rangeI [OF flow_range]) (use ok in \<open>auto simp: upd_rts_def settings_ok_def\<close>)
  have query: "yields (nodeinfo_option env arg s) (\<lambda>s. settings_ok (ps_rts s))"
    unfolding nodeinfo_option_def
    by (rule yields_and_then [where Q = "\<lambda>_. True"]) (use ok in \<open>auto simp: yields_def upd_rts_def settings_ok_def Let_def ret_def usage_def emit_def stop_with_def split: if_splits\<close>)
  have times: "yields (interval_option arg s) (\<lambda>s. settings_ok (ps_rts s))"
    "yields (linger_option arg s) (\<lambda>s. settings_ok (ps_rts s))"
    unfolding interval_option_def linger_option_def
    by (rule yields_and_then [where Q = "\<lambda>_. True"];
        use ok interval_bound in \<open>auto simp: yields_def [of "ping_strtod _ _"] upd_rts_def settings_ok_def not_less\<close>)+
  have src: "yields (source_option env arg s) (\<lambda>s. settings_ok (ps_rts s))"
    using ok by (auto simp: source_option_def upd_opts_def upd_rts_def settings_ok_def Let_def split: option.split)
  have mtu: "yields (pmtudisc_option arg s) (\<lambda>s. settings_ok (ps_rts s))"
    using ok by (auto simp: pmtudisc_option_def upd_rts_def settings_ok_def Let_def)
  have pat: "yields (and_then (fill str (ps_rts (upd_opts (\<lambda>p. p\<lparr>opt_pingfilled := True\<rparr>) s)) arg)
      (\<lambda>rts. ret ((upd_opts (\<lambda>p. p\<lparr>opt_pingfilled := True\<rparr>) s)\<lparr>ps_rts := rts\<rparr>))) (\<lambda>s. settings_ok (ps_rts s))" for str
    by (rule option_rangeI [OF fill_ok]) (use ok in \<open>auto simp: upd_opts_def upd_rts_def settings_ok_def\<close>)
  have tos: "yields (and_then (parsetos arg) (\<lambda>v. ret (upd_rts (\<lambda>rts. rts\<lparr>settos := v, tclass := word_of_int v\<rparr>) s)))
      (\<lambda>s. settings_ok (ps_rts s))"
    by (rule option_rangeI [OF tos_range]) (use ok in \<open>auto simp: upd_rts_def settings_ok_def\<close>)
  have flag: "yields (ret (upd_opts f s)) (\<lambda>s. settings_ok (ps_rts s))" if "map_of flag_options ch = Some f" for f
    using flag_option_ok [OF ok that] by simp
  have simple: "settings_ok (ps_rts (upd_rts (\<lambda>rts. rts\<lparr>broadcast_pings := True\<rparr>) s))"
    "settings_ok (ps_rts (upd_opts (\<lambda>p. p\<lparr>opt_flood := True, opt_numeric := True\<rparr>) s))"
    "settings_ok (ps_rts (s\<lparr>opt_version := True\<rparr>))"
    using ok by (auto simp: upd_opts_def upd_rts_def settings_ok_def)
  show ?thesis
  proof (cases "map_of flag_options ch")
    case (Some f)
    then show ?thesis using flag by (simp add: ping_option_def)
  next
    case no_flag: None
    show ?thesis
    proof (cases "number_option ch arg s")
      case (Some m)
      then show ?thesis using number_option_ok [OF ok] no_flag by (simp add: ping_option_def)
    next
      case None
      show ?thesis unfolding ping_option_def no_flag None option.case Let_def
        by (intro yields_if) (simp_all only: family route stamp flow query times src mtu pat tos simple yields_simps usage_yields)
    qed
  qed
qed

lemma ping_options_ok: "settings_ok (ps_rts s) \<Longrightarrow> yields (ping_options env os s) (\<lambda>s. settings_ok (ps_rts s))"
proof (induction os arbitrary: s)
  case (Cons o1 os)
  then show ?case
    by (auto intro: yields_and_then [OF ping_option_ok [OF Cons.prems, of env "fst o1" "snd o1"]])
qed simp

text \<open>
  C23: whatever options are given and accepted, in whatever order: the settings keep the ranges the
  rest of the program relies on - counts and sizes that are not negative, a preload between 1 and
  65536 (3 for a user), an interval and a deadline that fit in \<open>int\<close>, a time to live of one byte, a
  flow label of 20 bits, an identifier of 16 bits or none, not both of -R and -T, and a packet
  buffer of its full size behind a pattern.
\<close>

theorem settings_in_range:
  assumes "settings_ok (ps_rts s)" "returns (ping_options env os s) s'"
  shows "settings_ok (ps_rts s')"
  by (rule yields_returns [OF ping_options_ok [OF assms(1)] assms(2)])

text \<open>The options \<open>-c 3 -i 2 -4\<close> from the initial state.\<close>

definition sample_option_env :: option_env where
  "sample_option_env = \<lparr>oe_pton4 = (\<lambda>s. if s = ''192.0.2.1'' then Some 0x010200C0 else None), oe_pton6 = (\<lambda>s. None),
     oe_ni = \<lparr>ni_getaddrinfo = (\<lambda>v s. Inl []), ni_idn2 = Inr, ni_dn_comp = (\<lambda>s. None)\<rparr>, oe_stale = [],
     oe_strerror = (\<lambda>e. [])\<rparr>"

definition sample_options :: "(char \<times> string) list" where
  "sample_options = [(CHR ''c'', ''3''), (CHR ''i'', ''2''), (CHR ''4'', [])]"

definition first_parse_state :: "ping_rts \<Rightarrow> parse_state" where
  "first_parse_state rts = \<lparr>ai_family = AF_UNSPEC, ai_socktype = SOCK_DGRAM, opt_version = False, ps_rts = rts\<rparr>"

lemma two_scanned:
  "scan_sign (dropWhile is_blank ''2'') = (False, ''2'')" "lower (take 8 ''2'') = ''2''" "lower (take 3 ''2'') = ''2''"
  "lower (take 2 ''2'') = ''2''" "scan_fraction 10 is_digit ''2'' = (Some (2, 0), [])" "scan_exponent ''eE'' [] = (0, [])"
  by code_simp+

lemma two_double: "double_of False 2 = (Finite 2, 0)"
  using rnd_of_int [of 2] by (simp add: double_of_def Let_def del: rnd_of_int)

lemma two_seconds: "ping_strtod ''2'' msg = ret 2"
proof -
  have "strtod ''2'' = (Finite 2, [], 0)"
    unfolding strtod_def two_scanned prod.case by (simp add: two_scanned two_double)
  then show ?thesis by (simp add: ping_strtod_def fp_normal_def)
qed

lemma three: "strtol_or_err (Some ''3'') invalid_argument 1 long_max = ret 3"
  by code_simp

lemma two_in_range: "\<not> (2 < (0::rat) \<or> 2 > d_div (of_int int_max) 1000)"
  using rnd_ge [of "of_int int_max / 1000" 2] by (simp add: d_div_def int_max_def)

lemma two_ms: "d_to_int (d_mul 2 1000) = 2000"
  using rnd_of_int [of 2000] d_to_int_of_int [of 2000] by (simp add: d_mul_def del: rnd_of_int d_to_int_of_int)

lemma sample_options_run:
  "ping_options sample_option_env sample_options (first_parse_state rts) =
     ret \<lparr>ai_family = AF_INET, ai_socktype = SOCK_DGRAM, opt_version = False,
       ps_rts = rts\<lparr>npackets := 3, interval := 2000, opts := opts rts\<lparr>opt_interval := True\<rparr>\<rparr>\<rparr>"
proof -
  have "interval_option ''2'' s = ret (upd_rts (\<lambda>rts. rts\<lparr>interval := 2000, opts := opts rts\<lparr>opt_interval := True\<rparr>\<rparr>) s)" for s
    unfolding interval_option_def two_seconds and_then_ret two_ms by (simp only: two_in_range if_False)
  then show ?thesis
    by (simp add: sample_options_def first_parse_state_def ping_option_def flag_options_def number_option_def three
        Let_def upd_rts_def family_option_def AF_INET_def AF_INET6_def AF_UNSPEC_def)
qed

lemma initial_settings_ok: "settings_ok (initial_rts\<lparr>uid := u\<rparr>)"
  by (simp add: settings_ok_def initial_rts_def rts_with_def no_opts_def MAX_DUP_CHK_def long_max_def int_max_def)

theorem settings_in_range_witness:
  "\<exists>s'. returns (ping_options sample_option_env sample_options (first_parse_state (initial_rts\<lparr>uid := 1000\<rparr>))) s' \<and>
     npackets (ps_rts s') = 3 \<and> interval (ps_rts s') = 2000 \<and> settings_ok (ps_rts s')"
proof -
  let ?s = "first_parse_state (initial_rts\<lparr>uid := 1000\<rparr>)"
  have ok: "settings_ok (ps_rts ?s)" using initial_settings_ok by (simp add: first_parse_state_def)
  obtain s' where run: "returns (ping_options sample_option_env sample_options ?s) s'"
    and v: "npackets (ps_rts s') = 3" "interval (ps_rts s') = 2000"
    by (auto simp: sample_options_run)
  then show ?thesis using settings_in_range [OF ok run] by blast
qed

end
