(* ===== verification/Ping_Setup.thy ===== *)
theory Ping_Setup
  imports Ping_Run Ping6 Ping_Options
begin

text \<open>
  What happens between the command line and the first probe: \<open>ping4_run\<close> of \<open>ping/ping.c\<close> and
  \<open>ping6_run\<close> of \<open>ping/ping6_common.c\<close> with \<open>iface_name2index\<close>, \<open>bind_to_device\<close>, \<open>if_name2index\<close> and
  \<open>ping_print_packet\<close>.  Each is split where the process begins: the preparation, which may also
  go on to the next address of the target, and the start, which announces the run and hands a
  process to \<open>main_loop\<close>.
\<close>

definition ENETUNREACH :: int where "ENETUNREACH = 101"
definition NI_MAXHOST :: nat where "NI_MAXHOST = 1025"
definition MIN_MULTICAST_USER_INTERVAL_MS :: int where "MIN_MULTICAST_USER_INTERVAL_MS = 1000"

subsection \<open>The system\<close>

text \<open>An address of the target as \<open>getaddrinfo\<close> gives it.\<close>

record addrinfo =
  a_family :: int
  a_addr4 :: u32
  a_addr6 :: "u8 list"
  a_scope :: int
  a_canonname :: "string option"

text \<open>
  The system as one call of \<open>ping4_run\<close> or \<open>ping6_run\<close> meets it: the outcomes of its calls, 0 or
  an error number, by the option's name and arguments for \<open>setsockopt\<close> (\<open>True\<close> is the socket that
  finds the source address), by the attempt for \<open>connect\<close>.
\<close>

record net_env =
  ne_strerror :: "int \<Rightarrow> string"
  ne_caps :: cap_env
  ne_aton :: "string \<Rightarrow> u32 option"
  ne_getaddrinfo4 :: "string \<Rightarrow> string + addrinfo"
  ne_socket :: "int \<Rightarrow> int"
  ne_opt :: "bool \<Rightarrow> string \<Rightarrow> int list \<Rightarrow> int"
  ne_ifindex :: "string \<Rightarrow> int option"
  ne_connect :: "nat \<Rightarrow> int"
  ne_getsockname4 :: "int + u32"
  ne_getsockname6 :: "int + u8 list"
  ne_ifaddrs4 :: "int + (string \<times> u32) list"
  ne_ifaddrs6 :: "int + (string \<times> u8 list) list"
  ne_bind :: int
  ne_rcvbuf :: "int option"
  ne_malloc :: int
  ne_flowlabel :: "u32 \<Rightarrow> u32"
  ne_now :: timeval
  ne_setup :: setup_env

text \<open>\<open>setsockopt\<close> with a fatal error, and with a warning.\<close>

definition must_set :: "net_env \<Rightarrow> bool \<Rightarrow> string \<Rightarrow> int list \<Rightarrow> string \<Rightarrow> 'a result \<Rightarrow> 'a result" where
  "must_set env probe opt args msg m =
     (let e = ne_opt env probe opt args in emit [Sys opt args] (if e \<noteq> 0 then error_c 2 e msg m else m))"

definition try_set :: "net_env \<Rightarrow> bool \<Rightarrow> string \<Rightarrow> int list \<Rightarrow> string \<Rightarrow> 'a result \<Rightarrow> 'a result" where
  "try_set env probe opt args msg m =
     (let e = ne_opt env probe opt args in emit [Sys opt args] (if e \<noteq> 0 then error_c 0 e msg m else m))"

definition device_name :: "ping_rts \<Rightarrow> string" where
  "device_name rts = (case device rts of Some d \<Rightarrow> d | None \<Rightarrow> [])"

definition iface_name2index :: "net_env \<Rightarrow> ping_rts \<Rightarrow> int result" where
  "iface_name2index env rts =
     (case ne_ifindex env (take (IFNAMSIZ - 1) (device_name rts)) of
        Some i \<Rightarrow> ret i | None \<Rightarrow> error_c 2 0 (''unknown iface: '' @ device_name rts) (stop_with Abort))"

definition if_name2index :: "net_env \<Rightarrow> string \<Rightarrow> int result" where
  "if_name2index env ifname =
     (case ne_ifindex env ifname of
        Some i \<Rightarrow> if i = 0 then error_c 2 0 (''unknown iface: '' @ ifname) (stop_with Abort) else ret i
      | None \<Rightarrow> error_c 2 0 (''unknown iface: '' @ ifname) (stop_with Abort))"

definition in_multicast :: "u32 \<Rightarrow> bool" where
  "in_multicast addr \<longleftrightarrow> (ucast addr :: u8) AND 0xF0 = 0xE0"

definition bind_to_device :: "net_env \<Rightarrow> ping_rts \<Rightarrow> bool \<Rightarrow> u32 \<Rightarrow> unit result" where
  "bind_to_device env rts probe addr =
     enable_capability_raw (ne_caps env) (emit [Sys ''SO_BINDTODEVICE'' []] (disable_capability_raw (ne_caps env)
       (let e = ne_opt env probe ''SO_BINDTODEVICE'' []
        in if e = 0 then ret ()
           else if in_multicast addr
           then and_then (iface_name2index env rts) (\<lambda>i. must_set env probe ''IP_MULTICAST_IF'' [i] ''IP_MULTICAST_IF'' (ret ()))
           else error_c 2 e (''SO_BINDTODEVICE '' @ device_name rts) (ret ()))))"

subsection \<open>\<open>ping4_run\<close>: the targets\<close>

text \<open>Several operands are the hops of a route, which the options limit.\<close>

definition check_operands4 :: "nat \<Rightarrow> ping_rts \<Rightarrow> ping_rts result" where
  "check_operands4 argc rts =
     (if argc \<le> 1 then ret rts
      else if opt_rroute (opts rts) then usage
      else if opt_timestamp (opts rts)
      then (if ts_type rts \<noteq> IPOPT_TS_PRESPEC \<or> argc > 5 then usage else ret rts)
      else if argc > 10 then usage
      else ret (rts\<lparr>opts := opts rts\<lparr>opt_sourceroute := True\<rparr>\<rparr>))"

text \<open>
  Each operand in turn is looked up; all but the last become hops.  The array \<open>route\<close> has ten
  elements.
\<close>

definition lookup_target :: "net_env \<Rightarrow> addrinfo \<Rightarrow> bool \<Rightarrow> ping_rts \<Rightarrow> string \<Rightarrow> ping_rts result" where
  "lookup_target env ai hop rts target =
     (case ne_aton env target of
        Some a \<Rightarrow>
          let rts = rts\<lparr>whereto := a, hostname := target\<rparr>
          in ret (if hop then rts else rts\<lparr>opts := opts rts\<lparr>opt_numeric := True\<rparr>\<rparr>)
      | None \<Rightarrow>
          (let use = (\<lambda>r. ret (rts\<lparr>whereto := a_addr4 r,
                  hostname := take (NI_MAXHOST - 1) (case a_canonname r of Some c \<Rightarrow> c | None \<Rightarrow> target)\<rparr>))
           in if hop
              then case ne_getaddrinfo4 env target of
                     Inl msg \<Rightarrow> error_c 2 0 (target @ '': '' @ msg) (stop_with Abort)
                   | Inr r \<Rightarrow> use r
              else use ai))"

definition add_hop :: "ping_rts \<Rightarrow> ping_rts result" where
  "add_hop rts =
     (if nroute rts < length (route rts)
      then ret (rts\<lparr>route := (route rts)[nroute rts := whereto rts], nroute := nroute rts + 1\<rparr>)
      else stop_with Undefined)"

fun resolve_targets :: "net_env \<Rightarrow> addrinfo \<Rightarrow> ping_rts \<Rightarrow> string list \<Rightarrow> ping_rts result" where
  "resolve_targets env ai rts [] = ret rts"
| "resolve_targets env ai rts (target # targets) =
     and_then (lookup_target env ai (targets \<noteq> []) rts target) (\<lambda>rts.
     and_then (if targets \<noteq> [] then add_hop rts else ret rts) (\<lambda>rts.
     resolve_targets env ai rts targets))"

subsection \<open>The source address\<close>

text \<open>
  The connection of the probing socket: \<open>False\<close> is to go on to the next address.
\<close>

definition connect_probe4 :: "net_env \<Rightarrow> ping_rts \<Rightarrow> u32 \<Rightarrow> bool \<Rightarrow> bool result" where
  "connect_probe4 env rts dst further =
     emit [Sys ''connect'' [uint dst]]
       (let e = ne_connect env 0
        in if e = 0 then ret True
           else if e = EACCES
           then if \<not> broadcast_pings rts
                then error_c 2 0 ''Do you want to ping broadcast? Then -b. If not, check your local firewall rules'' (stop_with Abort)
                else emit [Err (''WARNING: pinging broadcast address'' @ newline)]
                  (must_set env True ''SO_BROADCAST'' [1] ''cannot set broadcasting''
                    (emit [Sys ''connect'' [uint dst]]
                      (if ne_connect env 1 \<noteq> 0 then error_c 2 (ne_connect env 1) ''connect'' (stop_with Abort) else ret True)))
           else if (e = EHOSTUNREACH \<or> e = ENETUNREACH) \<and> further then ret False
           else error_c 2 e ''connect'' (stop_with Abort))"

definition warn_other_device :: "bool \<Rightarrow> ping_rts \<Rightarrow> effect list" where
  "warn_other_device found rts =
     (if found then [] else [Diag 0 (''Warning: source address might be selected on device other than: '' @ device_name rts)])"

definition own_address4 :: "net_env \<Rightarrow> ping_rts \<Rightarrow> ping_rts result" where
  "own_address4 env rts =
     (case ne_getsockname4 env of
        Inl e \<Rightarrow> error_c 2 e ''getsockname'' (stop_with Abort)
      | Inr a \<Rightarrow>
          (let rts = rts\<lparr>source := a\<rparr>
           in if device rts = None then ret rts
              else case ne_ifaddrs4 env of
                     Inl e \<Rightarrow> error_c 2 e ''gatifaddrs failed'' (stop_with Abort)
                   | Inr as \<Rightarrow> emit (warn_other_device ((device_name rts, a) \<in> set as) rts) (ret rts)))"

text \<open>
  The run-time state, and whether the address can be used: then with \<open>dst\<close>, which only the probe
  sets; otherwise the code returns -1 and \<open>main\<close> goes on to the next address, with what was written
  to the run-time state so far.
\<close>

datatype attempt = Ready (attempt_dst: "u32 option") | Next_Address

definition probe_source4 :: "net_env \<Rightarrow> bool \<Rightarrow> ping_rts \<Rightarrow> (ping_rts \<times> attempt) result" where
  "probe_source4 env further rts =
     emit [Sys ''socket'' [AF_INET, SOCK_DGRAM]]
       (if ne_socket env AF_INET \<noteq> 0 then error_c 2 (ne_socket env AF_INET) ''socket'' (stop_with Abort)
        else and_then (if device rts \<noteq> None
                       then and_then (bind_to_device env rts True (whereto rts)) (\<lambda>_. bind_to_device env rts False (whereto rts))
                       else ret ()) (\<lambda>_.
             and_then (if settos rts \<noteq> 0
                       then try_set env True ''IP_TOS'' [settos rts] ''warning: QOS sockopts'' (ret ())
                       else ret ()) (\<lambda>_.
             and_then (sock_setmark (ne_strerror env) (ne_caps env) (ne_opt env True ''SO_MARK'' []) rts) (\<lambda>rts.
             let dst = (if nroute rts \<noteq> 0 then route rts ! 0 else whereto rts)
             in and_then (connect_probe4 env rts dst further) (\<lambda>connected.
                if connected then and_then (own_address4 env rts) (\<lambda>rts. ret (rts, Ready (Some dst))) else ret (rts, Next_Address))))))"

definition choose_source4 :: "net_env \<Rightarrow> bool \<Rightarrow> ping_rts \<Rightarrow> (ping_rts \<times> attempt) result" where
  "choose_source4 env further rts =
     (if source rts = 0 then probe_source4 env further rts
      else and_then (if device rts \<noteq> None then bind_to_device env rts False (whereto rts) else ret ())
             (\<lambda>_. ret (rts, Ready None)))"

subsection \<open>The options of the IPv4 socket\<close>

definition multicast_checks :: "string \<Rightarrow> string \<Rightarrow> ping_rts \<Rightarrow> ping_rts result" where
  "multicast_checks kind fragment rts =
     (let rts = rts\<lparr>multicast := True\<rparr>
      in if uid rts \<noteq> 0 \<and> interval rts < MIN_MULTICAST_USER_INTERVAL_MS
         then error_c 2 0 (''minimal interval for '' @ kind @ '' ping for user must be >= '' @
                fmt_d MIN_MULTICAST_USER_INTERVAL_MS @ '' ms, use -i '' @
                str_interval MIN_MULTICAST_USER_INTERVAL_MS @ '' (or higher)'') (stop_with Abort)
         else if uid rts \<noteq> 0 \<and> pmtudisc rts \<ge> 0 \<and> pmtudisc rts \<noteq> 2
         then error_c 2 0 fragment (stop_with Abort)
         else ret (if pmtudisc rts < 0 then rts\<lparr>pmtudisc := 2\<rparr> else rts))"

definition multicast4 :: "ping_rts \<Rightarrow> ping_rts result" where
  "multicast4 rts =
     (let rts = (if whereto rts = 0 then rts\<lparr>whereto := source rts\<rparr> else rts)
      in if broadcast_pings rts \<or> in_multicast (whereto rts)
         then multicast_checks ''broadcast'' ''broadcast ping does not fragment'' rts else ret rts)"

text \<open>A datagram socket is bound to the identifier as its port.\<close>

definition set_ident :: "ping_rts \<Rightarrow> socket_st \<Rightarrow> bool" where
  "set_ident rts sock \<longleftrightarrow> ident rts > 0 \<and> socktype sock = SOCK_DGRAM"

definition bind_source :: "net_env \<Rightarrow> string \<Rightarrow> ping_rts \<Rightarrow> socket_st \<Rightarrow> unit result" where
  "bind_source env msg rts sock =
     (if opt_strictsource (opts rts) \<or> set_ident rts sock
      then emit [Sys ''bind'' [if set_ident rts sock then ident rts else 0]]
             (if ne_bind env \<noteq> 0 then error_c 2 (ne_bind env) msg (ret ()) else ret ())
      else ret ())"

definition icmp_filter_data :: u32 where
  "icmp_filter_data =
     NOT (push_bit 4 1 OR push_bit 3 1 OR push_bit 11 1 OR push_bit 12 1 OR push_bit 5 1 OR push_bit 0 1)"

definition receive_options4 :: "net_env \<Rightarrow> socket_st \<Rightarrow> unit result" where
  "receive_options4 env sock =
     and_then (if socktype sock = SOCK_RAW
               then try_set env False ''ICMP_FILTER'' [uint icmp_filter_data] ''WARNING: setsockopt(ICMP_FILTER)'' (ret ())
               else ret ()) (\<lambda>_.
     emit [Sys ''IP_RECVERR'' [1]]
       (emit (if ne_opt env False ''IP_RECVERR'' [1] \<noteq> 0
              then [Diag 0 ''WARNING: your kernel is veeery old. No problems.''] else [])
       (if socktype sock = SOCK_DGRAM
        then try_set env False ''IP_RECVTTL'' [1] ''WARNING: setsockopt(IP_RECVTTL)''
               (try_set env False ''IP_RETOPTS'' [1] ''WARNING: setsockopt(IP_RETOPTS)'' (ret ()))
        else ret ())))"

text \<open>The IP options, in an array of 40 bytes.\<close>

definition RSPACE :: nat where "RSPACE = 40"

definition rr_option :: "u8 list" where
  "rr_option = splice 0 [1, 7, 39, 4] (zeros RSPACE)"

fun put_hops :: "nat \<Rightarrow> nat \<Rightarrow> u32 list \<Rightarrow> u8 list \<Rightarrow> u8 list result" where
  "put_hops off step [] buf = ret buf"
| "put_hops off step (h # hs) buf =
     (if off + 4 \<le> length buf then put_hops (off + step) step hs (splice off (le32_bytes h) buf) else stop_with Undefined)"

definition ts_length :: "ping_rts \<Rightarrow> u8" where
  "ts_length rts =
     (if ts_type rts = IPOPT_TS_PRESPEC then word_of_nat (4 + nroute rts * 8)
      else if ts_type rts = IPOPT_TS_TSONLY then 40 else 36)"

definition ts_option :: "ping_rts \<Rightarrow> u8 list result" where
  "ts_option rts =
     (let buf = splice 0 [68, ts_length rts, 5, word_of_int (ts_type rts)] (zeros RSPACE)
      in if ts_type rts = IPOPT_TS_PRESPEC then put_hops 4 8 (take (nroute rts) (route rts)) buf else ret buf)"

definition sr_option :: "ping_rts \<Rightarrow> u8 list result" where
  "sr_option rts =
     put_hops 4 4 (take (nroute rts) (route rts))
       (splice 0 [1, if opt_so_dontroute (opts rts) then 137 else 131, word_of_nat (3 + nroute rts * 4), 4] (zeros RSPACE))"

definition bytes_of :: "u8 list \<Rightarrow> int list" where
  "bytes_of bs = map uint bs"

definition ip_options4 :: "net_env \<Rightarrow> ping_rts \<Rightarrow> unit result" where
  "ip_options4 env rts =
     and_then (if opt_rroute (opts rts)
               then must_set env False ''IP_OPTIONS'' (bytes_of rr_option) ''record route'' (ret ()) else ret ()) (\<lambda>_.
     and_then (if opt_timestamp (opts rts)
               then and_then (ts_option rts) (\<lambda>buf.
                 let n = unat (buf ! 1); first = bytes_of (take n buf); second = bytes_of (take n (buf[3 := 2]))
                 in emit [Sys ''IP_OPTIONS'' first]
                      (if ne_opt env False ''IP_OPTIONS'' first \<noteq> 0
                       then must_set env False ''IP_OPTIONS'' second ''ts option'' (ret ()) else ret ()))
               else ret ()) (\<lambda>_.
     if opt_sourceroute (opts rts)
     then and_then (sr_option rts) (\<lambda>buf.
            must_set env False ''IP_OPTIONS'' (bytes_of (take (4 + nroute rts * 4) buf)) ''record route'' (ret ()))
     else ret ()))"

definition packet_estimate :: "int \<Rightarrow> ping_rts \<Rightarrow> int" where
  "packet_estimate overhead rts = (let hold = datalen rts + 8 in hold + ((hold + 511) sdiv 512) * overhead)"

definition send_options4 :: "net_env \<Rightarrow> ping_rts \<Rightarrow> unit result" where
  "send_options4 env rts =
     and_then (if broadcast_pings rts
               then must_set env False ''SO_BROADCAST'' [1] ''cannot set broadcasting'' (ret ()) else ret ()) (\<lambda>_.
     and_then (if opt_noloop (opts rts)
               then must_set env False ''IP_MULTICAST_LOOP'' [0] ''cannot disable multicast loopback'' (ret ())
               else ret ()) (\<lambda>_.
     if opt_ttl (opts rts)
     then must_set env False ''IP_MULTICAST_TTL'' [ttl rts] ''cannot set multicast time-to-live''
            (must_set env False ''IP_TTL'' [ttl rts] ''cannot set unicast time-to-live'' (ret ()))
     else ret ()))"

text \<open>All of \<open>ping4_run\<close> before the packet is announced.\<close>

definition configure4 :: "net_env \<Rightarrow> socket_st \<Rightarrow> ping_rts \<Rightarrow> ping_rts result" where
  "configure4 env sock rts =
     and_then (multicast4 rts) (\<lambda>rts.
     and_then (if pmtudisc rts \<ge> 0
               then must_set env False ''IP_MTU_DISCOVER'' [pmtudisc rts] ''IP_MTU_DISCOVER'' (ret ()) else ret ()) (\<lambda>_.
     and_then (bind_source env ''bind'' rts sock) (\<lambda>_.
     and_then (receive_options4 env sock) (\<lambda>_.
     and_then (ip_options4 env rts) (\<lambda>_.
     let rts = rts\<lparr>optlen := get_ipv4_optlen rts\<rparr>
     in and_then (sock_setbufs (ne_strerror env) (ne_rcvbuf env) rts (packet_estimate (optlen rts + 20 + 16 + 64 + 160) rts)) (\<lambda>rts.
        and_then (send_options4 env rts) (\<lambda>_.
        let rts = (if datalen rts \<ge> int SIZEOF_TIMEVAL then rts\<lparr>timing := True\<rparr> else rts)
        in if ne_malloc env \<noteq> 0 then error_c 2 (ne_malloc env) ''memory allocation failed'' (ret rts) else ret rts)))))))"

definition prepare4 ::
    "net_env \<Rightarrow> addrinfo \<Rightarrow> bool \<Rightarrow> socket_st \<Rightarrow> string list \<Rightarrow> ping_rts \<Rightarrow> (ping_rts \<times> attempt) result" where
  "prepare4 env ai further sock argv rts =
     and_then (check_operands4 (length argv) rts) (\<lambda>rts.
     and_then (resolve_targets env ai rts argv) (\<lambda>rts.
     and_then (choose_source4 env further rts) (\<lambda>(rts, chosen).
     case chosen of
       Next_Address \<Rightarrow> ret (rts, Next_Address)
     | Ready dst \<Rightarrow> and_then (configure4 env sock rts) (\<lambda>rts. ret (rts, Ready dst)))))"

subsection \<open>\<open>ping6_run\<close>\<close>

text \<open>
  What lives longer than a call: the first hop with its scope, the static \<open>scope_id\<close>, and whether
  the subject of a node information query is the address of the target itself (the code keeps a
  pointer to \<open>whereto6\<close>).
\<close>

record static6 =
  first_addr :: "u8 list"
  first_scope :: int
  scope_id :: int
  subject_is_target :: bool

definition initial_static6 :: static6 where
  "initial_static6 = \<lparr>first_addr = zeros 16, first_scope = 0, scope_id = 0, subject_is_target = False\<rparr>"

definition in6_linklocal :: "u8 list \<Rightarrow> bool" where
  "in6_linklocal a \<longleftrightarrow> a ! 0 = 0xFE \<and> a ! 1 AND 0xC0 = 0x80"

definition in6_mc_linklocal :: "u8 list \<Rightarrow> bool" where
  "in6_mc_linklocal a \<longleftrightarrow> a ! 0 = 0xFF \<and> a ! 1 AND 0x0F = 2"

definition in6_multicast :: "u8 list \<Rightarrow> bool" where
  "in6_multicast a \<longleftrightarrow> a ! 0 = 0xFF"

definition in6_unspecified :: "u8 list \<Rightarrow> bool" where
  "in6_unspecified a \<longleftrightarrow> a = zeros 16"

definition init_query6 :: "net_env \<Rightarrow> static6 \<Rightarrow> ping_rts \<Rightarrow> static6 \<times> ping_rts" where
  "init_query6 env st rts =
     (if niquery_is_enabled (ni rts)
      then let nq = niquery_init_nonce (ne_now env) (word_of_int (se_pid (ne_setup env))) (ni rts)
           in if niquery_is_subject_valid nq then (st, rts\<lparr>ni := nq\<rparr>)
              else (st\<lparr>subject_is_target := True\<rparr>,
                    rts\<lparr>ni := nq\<lparr>ni_subject := Some (whereto6 rts), ni_subject_len := 16,
                        ni_subject_type := IPUTILS_NI_ICMP6_SUBJ_IPV6\<rparr>\<rparr>)
      else (st, rts))"

definition target6 :: "ping_rts \<Rightarrow> string list \<Rightarrow> string result" where
  "target6 rts argv =
     (case argv of
        [] \<Rightarrow> if ni_query (ni rts) < 0 \<and> ni_subject_type (ni rts) \<noteq> IPUTILS_NI_ICMP6_SUBJ_FQDN then usage
              else (case ni_group (ni rts) of Some g \<Rightarrow> ret g | None \<Rightarrow> stop_with Undefined)
      | [t] \<Rightarrow> ret t
      | _ \<Rightarrow> usage)"

text \<open>The target and, in the first call, the first hop.\<close>

definition set_target6 :: "static6 \<Rightarrow> addrinfo \<Rightarrow> string \<Rightarrow> ping_rts \<Rightarrow> ping_rts" where
  "set_target6 st ai target rts =
     rts\<lparr>whereto6 := a_addr6 ai, hostname := target,
       opts := (if CHR '':'' \<in> set target then opts rts\<lparr>opt_numeric := True\<rparr> else opts rts),
       ni := (if subject_is_target st then ni rts\<lparr>ni_subject := Some (a_addr6 ai)\<rparr> else ni rts)\<rparr>"

definition set_first_hop :: "addrinfo \<Rightarrow> static6 \<Rightarrow> static6 result" where
  "set_first_hop ai st =
     (if \<not> in6_unspecified (first_addr st) then ret st
      else let st = st\<lparr>first_addr := a_addr6 ai, first_scope := a_scope ai\<rparr>
           in if first_scope st \<noteq> 0 \<and> scope_id st \<noteq> 0 \<and> first_scope st \<noteq> scope_id st
              then error_c 2 0 ''scope discrepancy among the nodes'' (ret st)
              else ret (if scope_id st = 0 then st\<lparr>scope_id := first_scope st\<rparr> else st))"

text \<open>The device, first for the probing socket, then for the other.\<close>

definition first_failure :: "net_env \<Rightarrow> string \<Rightarrow> int list \<Rightarrow> string \<Rightarrow> 'a result \<Rightarrow> 'a result" where
  "first_failure env opt args msg m = must_set env True opt args msg (must_set env False opt args msg m)"

definition probe_device6 :: "net_env \<Rightarrow> static6 \<Rightarrow> ping_rts \<Rightarrow> static6 result" where
  "probe_device6 env st rts =
     (case device rts of
        None \<Rightarrow> ret st
      | Some dev \<Rightarrow>
          and_then (if_name2index env dev) (\<lambda>iface.
          let st = (if in6_linklocal (first_addr st) \<or> in6_mc_linklocal (first_addr st) then st\<lparr>first_scope := iface\<rparr> else st)
          in enable_capability_raw (ne_caps env)
               (first_failure env ''IPV6_PKTINFO'' [iface] ''setsockopt(IPV6_PKTINFO)''
                 (first_failure env ''SO_BINDTODEVICE'' [] (''setsockopt(SO_BINDTODEVICE) '' @ dev)
                   (disable_capability_raw (ne_caps env) (ret st))))))"

definition own_address6 :: "net_env \<Rightarrow> ping_rts \<Rightarrow> ping_rts result" where
  "own_address6 env rts =
     (case ne_getsockname6 env of
        Inl e \<Rightarrow> error_c 2 e ''getsockname'' (stop_with Abort)
      | Inr a \<Rightarrow>
          (let rts = rts\<lparr>source6 := a\<rparr>
           in if device rts = None then ret rts
              else case ne_ifaddrs6 env of
                     Inl e \<Rightarrow> error_c 2 e ''getifaddrs'' (stop_with Abort)
                   | Inr as \<Rightarrow> emit (warn_other_device ((device_name rts, a) \<in> set as) rts) (ret rts)))"

text \<open>The family of a link-local hop stays unset.\<close>

definition hop_family :: "static6 \<Rightarrow> int" where
  "hop_family st = (if in6_linklocal (first_addr st) \<or> in6_mc_linklocal (first_addr st) then AF_UNSPEC else AF_INET6)"

definition probe_source6 :: "net_env \<Rightarrow> bool \<Rightarrow> static6 \<Rightarrow> ping_rts \<Rightarrow> (static6 \<times> ping_rts \<times> bool) result" where
  "probe_source6 env further st rts =
     emit [Sys ''socket'' [AF_INET6, SOCK_DGRAM]]
       (if ne_socket env AF_INET6 \<noteq> 0 then error_c 2 (ne_socket env AF_INET6) ''socket'' (stop_with Abort)
        else and_then (probe_device6 env st rts) (\<lambda>st.
             and_then (if tclass rts \<noteq> 0
                       then must_set env True ''IPV6_TCLASS'' [uint (tclass rts)] ''setsockopt(IPV6_TCLASS)'' (ret ())
                       else ret ()) (\<lambda>_.
             and_then (sock_setmark (ne_strerror env) (ne_caps env) (ne_opt env True ''SO_MARK'' []) rts) (\<lambda>rts.
             emit [Sys ''connect'' (hop_family st # bytes_of (first_addr st) @ [first_scope st])]
               (let e = ne_connect env 0
                in if e = 0 then and_then (own_address6 env rts) (\<lambda>rts. ret (st, rts, True))
                   else if (e = EHOSTUNREACH \<or> e = ENETUNREACH) \<and> further then ret (st, rts, False)
                   else error_c 2 e ''connect'' (stop_with Abort))))))"

definition choose_source6 :: "net_env \<Rightarrow> bool \<Rightarrow> static6 \<Rightarrow> ping_rts \<Rightarrow> (static6 \<times> ping_rts \<times> bool) result" where
  "choose_source6 env further st rts =
     (if in6_unspecified (source6 rts) then probe_source6 env further st rts
      else and_then (if device rts \<noteq> None \<and> (in6_linklocal (source6 rts) \<or> in6_mc_linklocal (source6 rts))
                     then if_name2index env (device_name rts) else ret 0) (\<lambda>_. ret (st, rts, True)))"

text \<open>The control data of every packet name the device: an \<open>IPV6_PKTINFO\<close> message of 40 bytes.\<close>

definition pktinfo_cmsg :: "int \<Rightarrow> u8 list" where
  "pktinfo_cmsg iface =
     le64_bytes 36 @ le32_bytes 41 @ le32_bytes 50 @ zeros 16 @ le32_bytes (word_of_int iface) @ zeros 4"

definition CMSGBUF :: nat where "CMSGBUF = 4096"

definition device6 :: "net_env \<Rightarrow> ping_rts \<Rightarrow> ping_rts result" where
  "device6 env rts =
     (case device rts of
        None \<Rightarrow> ret rts
      | Some dev \<Rightarrow>
          if CMSGBUF < length (cmsgbuf rts) + 40 then stop_with Undefined
          else and_then (if_name2index env dev) (\<lambda>iface.
               let rts = rts\<lparr>cmsgbuf := cmsgbuf rts @ pktinfo_cmsg iface\<rparr>
               in if opt_strictsource (opts rts)
                  then enable_capability_raw (ne_caps env) (emit [Sys ''SO_BINDTODEVICE'' []]
                         (disable_capability_raw (ne_caps env)
                           (let e = ne_opt env False ''SO_BINDTODEVICE'' []
                            in if e \<noteq> 0 then error_c 2 e (''SO_BINDTODEVICE '' @ dev) (ret rts) else ret rts)))
                  else ret rts))"

definition multicast6 :: "ping_rts \<Rightarrow> ping_rts result" where
  "multicast6 rts =
     and_then (if in6_multicast (whereto6 rts)
               then multicast_checks ''multicast'' ''multicast ping does not fragment'' rts else ret rts)
       (\<lambda>rts. ret (rts\<lparr>subnet_router_anycast := (\<forall>b \<in> set (drop 8 (whereto6 rts)). b = 0)\<rparr>))"

text \<open>The filter passes one type of message: a set bit blocks.\<close>

definition icmp6_filter :: "u8 \<Rightarrow> u32 list" where
  "icmp6_filter type =
     (replicate 8 (- 1)) [unat type div 32 := NOT (push_bit (unat type mod 32) 1)]"

definition raw_options6 :: "net_env \<Rightarrow> socket_st \<Rightarrow> ping_rts \<Rightarrow> unit result" where
  "raw_options6 env sock rts =
     (if socktype sock = SOCK_RAW
      then try_set env False ''IPV6_CHECKSUM'' [2] ''setsockopt(RAW_CHECKSUM) failed - try to continue''
             (must_set env False ''ICMP6_FILTER''
               (map uint (icmp6_filter (if niquery_is_enabled (ni rts) then IPUTILS_NI_ICMP6_REPLY else ICMP6_ECHO_REPLY)))
               ''setsockopt(ICMP6_FILTER)'' (ret ()))
      else ret ())"

definition hop_options6 :: "net_env \<Rightarrow> ping_rts \<Rightarrow> unit result" where
  "hop_options6 env rts =
     and_then (if opt_noloop (opts rts)
               then must_set env False ''IPV6_MULTICAST_LOOP'' [0] (''can'' @ [CHR 0x27] @ ''t disable multicast loopback'') (ret ())
               else ret ()) (\<lambda>_.
     and_then (if opt_ttl (opts rts)
               then must_set env False ''IPV6_MULTICAST_HOPS'' [ttl rts] (''can'' @ [CHR 0x27] @ ''t set multicast hop limit'')
                      (must_set env False ''IPV6_UNICAST_HOPS'' [ttl rts] (''can'' @ [CHR 0x27] @ ''t set unicast hop limit'') (ret ()))
               else ret ()) (\<lambda>_.
     emit [Sys ''IPV6_RECVHOPLIMIT'' [1]]
       (if ne_opt env False ''IPV6_RECVHOPLIMIT'' [1] \<noteq> 0
        then must_set env False ''IPV6_2292HOPLIMIT'' [1] (''can'' @ [CHR 0x27] @ ''t receive hop limit'') (ret ())
        else ret ())))"

definition flow6 :: "net_env \<Rightarrow> ping_rts \<Rightarrow> ping_rts result" where
  "flow6 env rts =
     (if opt_flowinfo (opts rts)
      then let label = htonl (flowlabel rts AND 0xFFFFF)
           in must_set env False ''IPV6_FLOWLABEL_MGR'' (uint label # bytes_of (whereto6 rts)) (''can'' @ [CHR 0x27] @ ''t set flowlabel'')
                (must_set env False ''IPV6_FLOWINFO_SEND'' [1] (''can'' @ [CHR 0x27] @ ''t send flowinfo'')
                  (ret (rts\<lparr>flowlabel := ne_flowlabel env label\<rparr>)))
      else ret rts)"

definition configure6 :: "net_env \<Rightarrow> socket_st \<Rightarrow> ping_rts \<Rightarrow> ping_rts result" where
  "configure6 env sock rts =
     and_then (device6 env rts) (\<lambda>rts.
     and_then (multicast6 rts) (\<lambda>rts.
     and_then (if pmtudisc rts \<ge> 0
               then must_set env False ''IPV6_MTU_DISCOVER'' [pmtudisc rts] ''IPV6_MTU_DISCOVER'' (ret ()) else ret ()) (\<lambda>_.
     and_then (bind_source env ''bind icmp socket'' rts sock) (\<lambda>_.
     let rts = (if datalen rts \<ge> int SIZEOF_TIMEVAL \<and> ni_query (ni rts) < 0 then rts\<lparr>timing := True\<rparr> else rts)
     in if ne_malloc env \<noteq> 0 then error_c 2 (ne_malloc env) ''memory allocation failed'' (ret rts)
        else must_set env False ''IPV6_RECVERR'' [1] ''IPV6_RECVERR''
          (and_then (sock_setbufs (ne_strerror env) (ne_rcvbuf env) rts (packet_estimate (40 + 16 + 64 + 160) rts)) (\<lambda>rts.
           and_then (raw_options6 env sock rts) (\<lambda>_.
           and_then (hop_options6 env rts) (\<lambda>_.
           flow6 env rts))))))))"

definition prepare6 ::
    "net_env \<Rightarrow> addrinfo \<Rightarrow> bool \<Rightarrow> socket_st \<Rightarrow> string list \<Rightarrow> static6 \<Rightarrow> ping_rts \<Rightarrow> (static6 \<times> ping_rts \<times> bool) result" where
  "prepare6 env ai further sock argv st rts =
     (case init_query6 env st rts of (st, rts) \<Rightarrow>
      and_then (target6 rts argv) (\<lambda>target.
      let rts = set_target6 st ai target rts
      in and_then (set_first_hop ai st) (\<lambda>st.
         and_then (choose_source6 env further st rts) (\<lambda>(st, rts, usable).
         if usable then and_then (configure6 env sock rts) (\<lambda>rts. ret (st, rts, True)) else ret (st, rts, False)))))"

subsection \<open>The start of the process\<close>

text \<open>\<open>ping_print_packet\<close>, with the functions of the table it uses.\<close>

definition ping_print_packet ::
    "('w ping_proc \<Rightarrow> string \<times> 'w ping_proc) \<Rightarrow> ('w ping_proc \<Rightarrow> string \<times> 'w ping_proc) \<Rightarrow> (ping_rts \<Rightarrow> string) \<Rightarrow>
     'w ping_proc \<Rightarrow> 'w ping_proc result" where
  "ping_print_packet target source_of data_bytes p =
     (if opt_json (opts (p_rts p)) then ret p
      else case target p of (t, p) \<Rightarrow>
        let rts = p_rts p
        in print (''PING '' @ hostname rts @ '' ('' @ t @ '') '')
             (emit (if flowlabel rts \<noteq> 0
                    then [Out ('', flow 0x'' @ fmt_0x 5 (unat (htonl (flowlabel rts))) @ '', '')] else [])
               (and_then (if device rts \<noteq> None \<or> opt_strictsource (opts rts)
                          then case source_of p of (s, p) \<Rightarrow>
                                 print (''from '' @ s @ '' '' @ device_name rts @ '': '') (ret p)
                          else ret p) (\<lambda>p. print (data_bytes (p_rts p)) (ret p)))))"

definition new_process :: "ping_rts \<Rightarrow> 'w \<Rightarrow> 'w ping_proc" where
  "new_process rts w =
     \<lparr>p_rts = rts, oom_count = 0, tokens = 0, waittime = 0, old_rr = [], last_addr = None,
      nonces = initial_nonce_cache, filtered = False, p_errno = 0, world = w\<rparr>"

definition is_raw :: "socket_st \<Rightarrow> bool" where "is_raw sock \<longleftrightarrow> socktype sock = SOCK_RAW"

definition start4 :: "net_env \<Rightarrow> socket_st \<Rightarrow> u32 option \<Rightarrow> ping_rts \<Rightarrow> 'w \<Rightarrow> 'w ping_proc result" where
  "start4 env sock dst rts w =
     and_then (ping_print_packet (\<lambda>p. (ping4_target (p_rts p), p)) (\<lambda>p. (ping4_source (p_rts p), p))
                 (\<lambda>rts. ping4_print_data_bytes rts (ping4_data_bytes rts)) (new_process rts w)) (\<lambda>p.
     and_then (on_rts (setup_rts (ne_strerror env) (ne_setup env) (is_raw sock)) p) (\<lambda>p.
     and_then (if opt_connect_sk (opts (p_rts p))
               then case dst of
                      None \<Rightarrow> stop_with Undefined
                    | Some d \<Rightarrow> emit [Sys ''connect'' [uint d]]
                        (if ne_connect env 2 \<noteq> 0 then error_c 2 (ne_connect env 2) ''connect failed'' (ret ()) else ret ())
               else ret ()) (\<lambda>_.
     drop_capabilities (ne_caps env) (ret p))))"

definition start6 :: "'w os \<Rightarrow> net_env \<Rightarrow> socket_st \<Rightarrow> ping_rts \<Rightarrow> 'w \<Rightarrow> 'w ping_proc result" where
  "start6 os env sock rts w =
     and_then (ping_print_packet (ping6_target os) (ping6_source os) (\<lambda>rts. ping6_print_data_bytes rts 0) (new_process rts w)) (\<lambda>p.
     and_then (on_rts (setup_rts (ne_strerror env) (ne_setup env) (is_raw sock)) p) (\<lambda>p.
     drop_capabilities (ne_caps env) (ret p)))"

text \<open>
  The whole of both: \<open>None\<close> where the code returns -1, otherwise the process at its end and the exit
  code of \<open>main_loop\<close>.
\<close>

type_synonym finisher = "ping_rts \<Rightarrow> (ping_rts \<times> int) result"

definition ping4_run ::
    "'w os \<Rightarrow> finisher \<Rightarrow> nat \<Rightarrow> net_env \<Rightarrow> addrinfo \<Rightarrow> bool \<Rightarrow> socket_st \<Rightarrow> string list \<Rightarrow> 'w \<Rightarrow>
     ping_rts \<Rightarrow> (ping_rts \<times> ('w ping_proc \<times> int) option) result" where
  "ping4_run os fin fuel env ai further sock argv w rts =
     and_then (prepare4 env ai further sock argv rts) (\<lambda>(rts, prepared).
     case prepared of
       Next_Address \<Rightarrow> ret (rts, None)
     | Ready dst \<Rightarrow>
         and_then (start4 env sock dst rts w) (\<lambda>p.
         and_then (main_loop (ne_strerror env) os (ping4_func_set (ne_strerror env) os (is_raw sock)) (is_raw sock) fin fuel p)
           (\<lambda>r. ret (rts, Some r))))"

definition ping6_run ::
    "ni_display \<Rightarrow> 'w os \<Rightarrow> finisher \<Rightarrow> nat \<Rightarrow> net_env \<Rightarrow> addrinfo \<Rightarrow> bool \<Rightarrow> socket_st \<Rightarrow> string list \<Rightarrow> 'w \<Rightarrow>
     static6 \<Rightarrow> ping_rts \<Rightarrow> (static6 \<times> ping_rts \<times> ('w ping_proc \<times> int) option) result" where
  "ping6_run d os fin fuel env ai further sock argv w st rts =
     and_then (prepare6 env ai further sock argv st rts) (\<lambda>(st, rts, prepared).
     if \<not> prepared then ret (st, rts, None)
     else and_then (start6 os env sock rts w) (\<lambda>p.
          and_then (main_loop (ne_strerror env) os (ping6_func_set (ne_strerror env) d os (is_raw sock)) (is_raw sock) fin fuel p)
            (\<lambda>r. ret (st, rts, Some r))))"

subsection \<open>The state that is handed to the loop\<close>

text \<open>
  What the functions that send rely on: a packet buffer of full size that the packet fits in, a data
  area with room for the time if it is timed, an empty table of what was received, and settings in
  range.
\<close>

definition ready :: "ping_rts \<Rightarrow> bool" where
  "ready rts \<longleftrightarrow> length (outpack rts) = MAXPACKET \<and> 0 \<le> datalen rts \<and> datalen rts + 8 \<le> int MAXPACKET \<and>
     (timing rts \<longrightarrow> 16 \<le> datalen rts) \<and> tbl_inv (rcvd_tbl rts) \<and> ntransmitted rts = 0 \<and>
     0 \<le> npackets rts \<and> 1 \<le> preload rts \<and> 0 \<le> interval rts"

lemma ready_updates [simp]:
  "ready (r\<lparr>opts := ops\<rparr>) = ready r" "ready (r\<lparr>whereto := a\<rparr>) = ready r" "ready (r\<lparr>hostname := h\<rparr>) = ready r"
  "ready (r\<lparr>route := rs\<rparr>) = ready r" "ready (r\<lparr>nroute := n\<rparr>) = ready r" "ready (r\<lparr>source := a\<rparr>) = ready r"
  "ready (r\<lparr>multicast := b\<rparr>) = ready r" "ready (r\<lparr>pmtudisc := i\<rparr>) = ready r" "ready (r\<lparr>optlen := i\<rparr>) = ready r"
  "ready (r\<lparr>sndbuf := i\<rparr>) = ready r" "ready (r\<lparr>whereto6 := bs\<rparr>) = ready r" "ready (r\<lparr>ni := nq\<rparr>) = ready r"
  "ready (r\<lparr>source6 := bs\<rparr>) = ready r" "ready (r\<lparr>cmsgbuf := bs\<rparr>) = ready r" "ready (r\<lparr>flowlabel := f\<rparr>) = ready r"
  "ready (r\<lparr>subnet_router_anycast := b\<rparr>) = ready r" "ready (r\<lparr>json_packet := b1\<rparr>) = ready r"
  "ready (r\<lparr>json_stats := b1\<rparr>) = ready r" "ready (r\<lparr>ident := i\<rparr>) = ready r" "ready (r\<lparr>start_time := t\<rparr>) = ready r"
  "ready (r\<lparr>screen_width := i\<rparr>) = ready r" "ready (r\<lparr>exiting := b\<rparr>) = ready r"
  "ready (r\<lparr>timing := True\<rparr>) = (ready r \<and> 16 \<le> datalen r)"
  by (auto simp: ready_def)

lemma ready_interval_0: "ready r \<Longrightarrow> ready (r\<lparr>interval := 0\<rparr>)"
  by (simp add: ready_def)

lemma yields_capability [simp]:
  "yields (enable_capability_raw env m) P \<longleftrightarrow> yields m P" "yields (disable_capability_raw env m) P \<longleftrightarrow> yields m P"
  "yields (enable_capability_admin env m) P \<longleftrightarrow> yields m P" "yields (disable_capability_admin env m) P \<longleftrightarrow> yields m P"
  by (simp_all add: capability_emits)

lemma yields_set: "yields m P \<Longrightarrow> yields (must_set env probe opt args msg m) P"
  "yields m P \<Longrightarrow> yields (try_set env probe opt args msg m) P" "yields m P \<Longrightarrow> yields (error_c st e msg m) P"
  by (simp_all add: must_set_def try_set_def error_c_def Let_def)

text \<open>A step after a state that is ready, and a step whose result is not used.\<close>

abbreviation keeps_ready :: "ping_rts result \<Rightarrow> bool" where "keeps_ready m \<equiv> yields m ready"

lemmas ready_then = yields_and_then [where Q = ready]

lemma plain_then:
  fixes u :: "unit result" and b :: "bool result" and i :: "int result"
  shows "yields (f ()) P \<Longrightarrow> yields (and_then u f) P" "(\<And>v. yields (g v) P) \<Longrightarrow> yields (and_then b g) P"
    "(\<And>v. yields (h v) P) \<Longrightarrow> yields (and_then i h) P"
  by (rule yields_then_any; simp)+

named_theorems ready_intros "functions that keep the state ready"

lemma ping_error_ready [ready_intros]:
  assumes "ready r" shows "keeps_ready (ping_error strerror r st e msg)"
proof -
  have json: "yields (construct_json s key v) ready" if "ready s" for s key v
    unfolding construct_json_def using that by (intro yields_if yields_then_any) simp_all
  have "yields (construct_json_error strerror r e m) ready" for m
    unfolding construct_json_error_def json_emergency_def
    by (auto simp: assms print_json_packet_def intro!: json yields_set ready_then split: option.splits)
  then show ?thesis
    unfolding ping_error_def Let_def by (auto simp: assms error_c_def intro!: ready_then)
qed

lemma sock_setmark_ready [ready_intros]: "ready r \<Longrightarrow> keeps_ready (sock_setmark strerror caps e r)"
  unfolding sock_setmark_def by (auto intro!: ready_then ready_intros)

lemma sock_setbufs_ready [ready_intros]: "ready r \<Longrightarrow> keeps_ready (sock_setbufs strerror got r alloc)"
  unfolding sock_setbufs_def Let_def by (auto intro!: ready_intros split: option.splits)

lemma check_operands4_ready [ready_intros]: "ready r \<Longrightarrow> keeps_ready (check_operands4 n r)"
  by (simp add: check_operands4_def)

lemma resolve_targets_ready [ready_intros]: "ready r \<Longrightarrow> keeps_ready (resolve_targets env ai r ts)"
proof (induction ts arbitrary: r)
  case (Cons t ts)
  have "keeps_ready (lookup_target env ai b r t)" for b
    using Cons.prems by (auto simp: lookup_target_def Let_def intro!: yields_set split: option.split sum.split)
  moreover have "keeps_ready (if ts \<noteq> [] then add_hop s else ret s)" if "ready s" for s
    using that by (simp add: add_hop_def)
  ultimately show ?case using Cons.IH by (auto intro!: ready_then)
qed simp

lemma own_address_ready [ready_intros]:
  "ready r \<Longrightarrow> keeps_ready (own_address4 env r)" "ready r \<Longrightarrow> keeps_ready (own_address6 env r)"
  by (auto simp: own_address4_def own_address6_def Let_def intro!: yields_set split: sum.split)

lemma choose_source4_ready: "ready r \<Longrightarrow> yields (choose_source4 env further r) (\<lambda>(s, a). ready s)"
  unfolding choose_source4_def probe_source4_def Let_def
  by (auto intro!: yields_set plain_then ready_then ready_intros)

lemma multicast_ready [ready_intros]:
  "ready r \<Longrightarrow> keeps_ready (multicast4 r)" "ready r \<Longrightarrow> keeps_ready (multicast6 r)"
  by (auto simp: multicast4_def multicast6_def multicast_checks_def Let_def intro!: yields_set ready_then)

lemma configure4_ready [ready_intros]: "ready r \<Longrightarrow> keeps_ready (configure4 env sock r)"
  unfolding configure4_def Let_def
  by (auto simp: SIZEOF_TIMEVAL_def intro!: yields_set plain_then ready_then ready_intros)

lemma prepare4_ready: "ready r \<Longrightarrow> yields (prepare4 env ai further sock argv r) (\<lambda>(s, a). ready s)"
  unfolding prepare4_def
  by (rule ready_then [OF check_operands4_ready], assumption, rule ready_then [OF resolve_targets_ready], assumption,
      rule yields_and_then [OF choose_source4_ready], assumption)
    (auto intro!: ready_then ready_intros split: attempt.split)

lemma configure6_ready: "ready r \<Longrightarrow> keeps_ready (configure6 env sock r)"
proof -
  have dev: "keeps_ready (device6 env s)" if "ready s" for s
    using that unfolding device6_def Let_def by (auto intro!: yields_set plain_then split: option.split)
  have flow: "keeps_ready (flow6 env s)" if "ready s" for s
    using that unfolding flow6_def Let_def by (auto intro!: yields_set)
  show "ready r \<Longrightarrow> keeps_ready (configure6 env sock r)"
    unfolding configure6_def Let_def
    by (auto simp: SIZEOF_TIMEVAL_def intro!: yields_set plain_then ready_then ready_intros dev flow)
qed

lemma choose_source6_ready: "ready r \<Longrightarrow> yields (choose_source6 env further st r) (\<lambda>(st, s, b). ready s)"
  unfolding choose_source6_def probe_source6_def Let_def
  by (auto intro!: yields_set plain_then yields_then_any [of "\<lambda>st. and_then _ (_ st)"] ready_then ready_intros)

lemma prepare6_ready: "ready r \<Longrightarrow> yields (prepare6 env ai further sock argv st r) (\<lambda>(st, s, b). ready s)"
proof -
  assume r: "ready r"
  obtain st1 r1 where q: "init_query6 env st r = (st1, r1)" by fastforce
  have r1: "ready (set_target6 st1 ai target r1)" for target
    using r q by (auto simp: init_query6_def set_target6_def Let_def split: if_splits)
  show ?thesis unfolding prepare6_def q prod.case Let_def
    by (intro yields_then_any yields_and_then [OF choose_source6_ready [OF r1]])
      (auto intro!: ready_then configure6_ready)
qed

text \<open>
  \<open>setup\<close> checks the interval: a user waits at least two milliseconds, and the token bucket, which
  holds at most a preload of intervals, does not overflow.
\<close>

definition started :: "ping_rts \<Rightarrow> bool" where
  "started rts \<longleftrightarrow> ready rts \<and> interval rts * preload rts < int_max \<and> (uid rts \<noteq> 0 \<longrightarrow> MIN_USER_INTERVAL_MS \<le> interval rts)"

lemma started_updates [simp]:
  "started (r\<lparr>opts := ops\<rparr>) = started r" "started (r\<lparr>ident := i\<rparr>) = started r" "started (r\<lparr>start_time := t\<rparr>) = started r"
  "started (r\<lparr>screen_width := i\<rparr>) = started r"
  by (simp_all add: started_def)

lemma default_fill_started [simp]: "started r \<Longrightarrow> started (default_fill r)"
proof -
  assume r: "started r"
  have "length (splice 8 (map (\<lambda>i. word_of_int (int i)) [0..<nat (datalen r)]) (outpack r)) = length (outpack r)"
    using r by (intro length_splice) (auto simp: started_def ready_def)
  then show ?thesis using r unfolding started_def ready_def default_fill_def by simp
qed

lemma ping_error_same: "yields (ping_error strerror r st e msg) (same_counts r)"
proof -
  have json: "yields (construct_json s key v) (same_counts s)" for s key v
    unfolding construct_json_def by (intro yields_if yields_then_any) (simp_all add: same_counts_def)
  have "yields (construct_json_error strerror r e m) (same_counts r)" for m
    unfolding construct_json_error_def json_emergency_def
    by (auto simp: print_json_packet_def same_counts_def error_c_def intro!: json same_counts_seq split: option.splits)
  then show ?thesis
    unfolding ping_error_def Let_def by (auto simp: error_c_def intro!: same_counts_seq)
qed

lemma same_counts_started: "same_counts r s \<Longrightarrow> started s = started r"
  unfolding same_counts_def by (erule ssubst) (simp add: started_def ready_def)

lemma check_interval_started:
  assumes "ready r" shows "yields (check_interval strerror r) started"
proof -
  define q where "q = (if opt_flood (opts r) \<and> \<not> opt_interval (opts r) then r\<lparr>interval := 0\<rparr> else r)"
  have q: "ready q" using assms by (simp add: q_def ready_interval_0)
  have stops: "yields (ping_error strerror s 2 e msg) P" for s e msg P
    by (auto simp: ping_error_def Let_def yields_def and_then_def error_c_def split: sum.splits if_splits)
  have "interval s * preload s < int_max" if "ready s" "\<not> int_max sdiv preload s \<le> interval s" for s
  proof -
    have p: "1 \<le> preload s" "0 \<le> interval s" using that(1) by (simp_all add: ready_def)
    have "int_max sdiv preload s = int_max div preload s"
      using p by (simp add: signed_divide_int_def int_max_def)
    then have "interval s < int_max div preload s" using that(2) by simp
    then have "interval s * preload s < (int_max div preload s) * preload s" using p by simp
    also have "\<dots> \<le> int_max" using p div_mult_mod_eq [of int_max "preload s"] pos_mod_sign [of "preload s" int_max] by linarith
    finally show ?thesis .
  qed
  then show ?thesis
    unfolding check_interval_def q_def [symmetric] Let_def
    by (intro yields_and_then [where Q = "\<lambda>s. s = q \<and> (uid q \<noteq> 0 \<longrightarrow> MIN_USER_INTERVAL_MS \<le> interval q)"])
      (auto simp: stops started_def q)
qed

lemma setup_rts_started: "ready r \<Longrightarrow> yields (setup_rts strerror env raw r) started"
proof -
  assume r: "ready r"
  have err: "yields (ping_error strerror s st e msg) started" if "started s" for s st e msg
    by (rule yields_mono [OF ping_error_same]) (use that in \<open>simp add: same_counts_started\<close>)
  have mark: "yields (sock_setmark strerror caps e s) started" if "started s" for caps e s
    unfolding sock_setmark_def using that by (auto intro!: err yields_and_then [where Q = started])
  show ?thesis unfolding setup_rts_def Let_def
    by (rule yields_and_then [OF check_interval_started [OF r]])
      (auto intro!: err mark yields_and_then [where Q = started] split: option.split)
qed

lemma pr_addr_cached_ready [simp]: "ready (p_rts (snd (pr_addr_cached os b p sa))) = ready (p_rts p)"
  by (auto simp: pr_addr_cached_def pr_addr_resolve_def Let_def split: prod.splits option.splits)

lemma on_rts_yields: "yields (f (p_rts p)) P \<Longrightarrow> yields (on_rts f p) (\<lambda>q. P (p_rts q))"
  unfolding on_rts_def by (erule yields_and_then) simp

lemma announced_ready:
  assumes "\<And>p. ready (p_rts p) \<Longrightarrow> ready (p_rts (snd (target p)))" "\<And>p. ready (p_rts p) \<Longrightarrow> ready (p_rts (snd (source_of p)))"
    and "ready (p_rts p)"
  shows "yields (ping_print_packet target source_of data_bytes p) (\<lambda>q. ready (p_rts q))"
proof -
  obtain t q where t: "target p = (t, q)" by fastforce
  have q: "ready (p_rts q)" using assms(1) [OF assms(3)] t by simp
  obtain s u where s: "source_of q = (s, u)" by fastforce
  have u: "ready (p_rts u)" using assms(2) [OF q] s by simp
  show ?thesis
    using assms(3) q u by (auto simp: ping_print_packet_def t s Let_def intro!: yields_and_then [where Q = "\<lambda>q. ready (p_rts q)"])
qed

lemma drop_yields: "yields m P \<Longrightarrow> yields (drop_capabilities caps m) P"
  by (simp add: drop_capabilities_def error_c_def)

lemma start4_started: "ready r \<Longrightarrow> yields (start4 env sock dst r w) (\<lambda>p. started (p_rts p))"
  unfolding start4_def
  by (rule yields_and_then [OF announced_ready])
    (auto simp: new_process_def intro!: yields_and_then [OF on_rts_yields [OF setup_rts_started]] plain_then yields_set drop_yields
      split: option.split)

lemma start6_started: "ready r \<Longrightarrow> yields (start6 os env sock r w) (\<lambda>p. started (p_rts p))"
  unfolding start6_def
  by (rule yields_and_then [OF announced_ready])
    (auto simp: new_process_def ping6_target_def ping6_source_def pr_raw_addr_def pr_addr_def
      intro!: yields_and_then [OF on_rts_yields [OF setup_rts_started]] drop_yields)

subsection \<open>The hops of a route\<close>

definition defined :: "'a result \<Rightarrow> bool" where
  "defined m \<longleftrightarrow> snd m \<noteq> Inl Undefined"

lemma defined_simps [simp]:
  "defined (ret a)" "defined (stop_with e) \<longleftrightarrow> e \<noteq> Undefined" "defined (emit es m) = defined m"
  "defined m \<Longrightarrow> defined (error_c st n msg m)"
  by (simp_all add: defined_def error_c_def)

lemma defined_and_then: "defined m \<Longrightarrow> yields m Q \<Longrightarrow> (\<And>a. Q a \<Longrightarrow> defined (f a)) \<Longrightarrow> defined (and_then m f)"
  by (auto simp: defined_def yields_def and_then_def split: sum.splits)

text \<open>What a look-up of a target leaves alone.\<close>

abbreviation same_route :: "ping_rts \<Rightarrow> ping_rts \<Rightarrow> bool" where
  "same_route r s \<equiv> nroute s = nroute r \<and> route s = route r \<and> ts_type s = ts_type r \<and>
     opt_sourceroute (opts s) = opt_sourceroute (opts r) \<and> opt_so_dontroute (opts s) = opt_so_dontroute (opts r)"

lemma lookup_target_route:
  "yields (lookup_target env ai hop r t) (same_route r)" "defined (lookup_target env ai hop r t)"
  by (auto simp: lookup_target_def Let_def split: option.split sum.split)

lemma resolve_targets_hops:
  assumes "argv \<noteq> []" "nroute r + length argv \<le> Suc (length (route r))"
  shows "defined (resolve_targets env ai r argv) \<and>
    yields (resolve_targets env ai r argv) (\<lambda>s. Suc (nroute s) = nroute r + length argv \<and> length (route s) = length (route r) \<and>
      ts_type s = ts_type r)"
  using assms
proof (induction argv arbitrary: r)
  case (Cons t ts)
  show ?case
  proof (cases "ts = []")
    case True
    then show ?thesis using lookup_target_route [of env ai False r t]
      by (auto intro!: defined_and_then yields_and_then)
  next
    case False
    have IH: "defined (resolve_targets env ai s ts)"
      "yields (resolve_targets env ai s ts) (\<lambda>u. Suc (nroute u) = nroute s + length ts \<and> length (route u) = length (route s) \<and>
        ts_type u = ts_type s)"
      if "nroute s = Suc (nroute r)" "length (route s) = length (route r)" "ts_type s = ts_type r" for s
      using Cons.IH [of s] Cons.prems False that by simp_all
    have hop: "yields (add_hop s) (\<lambda>u. nroute u = Suc (nroute r) \<and> length (route u) = length (route r) \<and>
        ts_type u = ts_type r)" "defined (add_hop s)" if "same_route r s" for s
      using that Cons.prems False by (cases ts; simp add: add_hop_def)+
    have "yields (and_then (add_hop s) (\<lambda>rts. resolve_targets env ai rts ts))
        (\<lambda>u. Suc (nroute u) = Suc (nroute r + length ts) \<and> length (route u) = length (route r) \<and> ts_type u = ts_type r) \<and>
        defined (and_then (add_hop s) (\<lambda>rts. resolve_targets env ai rts ts))" if "same_route r s" for s
      by (auto intro!: yields_and_then [OF hop(1) [OF that]] defined_and_then [OF hop(2) [OF that] hop(1) [OF that]] IH
          intro: yields_mono [OF IH(2)])
    then show ?thesis
      using False lookup_target_route [of env ai True r t]
      by (auto intro!: defined_and_then [OF lookup_target_route(2,1)] yields_and_then [OF lookup_target_route(1)])
  qed
qed simp

text \<open>Beyond the array the next hop is written outside it.\<close>

lemma resolve_targets_overrun:
  assumes "\<And>t. t \<in> set argv \<Longrightarrow> ne_aton env t \<noteq> None" "argv \<noteq> []" "Suc (length (route r)) < nroute r + length argv"
    and "nroute r \<le> length (route r)"
  shows "snd (resolve_targets env ai r argv) = Inl Undefined"
  using assms
proof (induction argv arbitrary: r)
  case (Cons t ts)
  obtain a where a: "ne_aton env t = Some a" using Cons.prems(1) by fastforce
  have ts: "ts \<noteq> []" using Cons.prems(3,4) by auto
  show ?case
  proof (cases "nroute r < length (route r)")
    case True
    then show ?thesis
      using Cons.IH [of "r\<lparr>whereto := a, hostname := t, route := (route r)[nroute r := a], nroute := nroute r + 1\<rparr>"] Cons.prems ts a
      by (simp add: lookup_target_def add_hop_def)
  qed (use ts a in \<open>simp add: lookup_target_def add_hop_def\<close>)
qed simp

lemma put_hops_route:
  "off + step * length hs \<le> length buf \<Longrightarrow> 4 \<le> step \<Longrightarrow>
   \<exists>b. put_hops off step hs buf = ret b \<and> length b = length buf \<and> take off b = take off buf \<and>
     (\<forall>i < length hs. take 4 (drop (off + step * i) b) = le32_bytes (hs ! i))"
proof (induction hs arbitrary: off buf)
  case (Cons h hs)
  let ?buf = "splice off (le32_bytes h) buf"
  have len: "off + 4 \<le> length buf" "off + step + step * length hs \<le> length buf" using Cons.prems by (simp_all add: algebra_simps)
  then have buf: "length ?buf = length buf" by simp
  obtain b where b: "put_hops (off + step) step hs ?buf = ret b" "length b = length buf"
    "take (off + step) b = take (off + step) ?buf"
    "\<And>i. i < length hs \<Longrightarrow> take 4 (drop (off + step + step * i) b) = le32_bytes (hs ! i)"
    using Cons.IH [of "off + step" ?buf] len Cons.prems(2) buf by auto
  have "take off b = take off (take (off + step) b)" by (simp add: min_absorb1)
  also have "\<dots> = take off buf" using len b(3) by (simp add: min_absorb1)
  finally have "take off b = take off buf" .
  moreover have "take 4 (drop off b) = take 4 (drop off (take (off + step) b))"
    using Cons.prems(2) by (simp add: take_drop min_absorb1)
  then have "take 4 (drop off b) = le32_bytes h"
    using len Cons.prems(2) splice_read [of off buf "le32_bytes h"] unfolding b(3) by (simp add: take_drop min_absorb1)
  then have "take 4 (drop (off + step * i) b) = le32_bytes ((h # hs) ! i)" if "i < length (h # hs)" for i
    using that b(4) [of "i - 1"] by (cases i) (simp_all add: algebra_simps)
  ultimately show ?case using b(1,2) len by auto
qed simp

text \<open>The hop addresses stand in the option in their order.\<close>

definition hops_at :: "nat \<Rightarrow> u32 list \<Rightarrow> u8 list \<Rightarrow> bool" where
  "hops_at step hs b \<longleftrightarrow> length b = RSPACE \<and> 4 + step * length hs \<le> RSPACE \<and>
     (\<forall>i < length hs. take 4 (drop (4 + step * i) b) = le32_bytes (hs ! i))"

lemma put_hops_at:
  assumes "length buf = RSPACE" "4 + step * length hs \<le> RSPACE" "4 \<le> step"
  shows "\<exists>b. put_hops 4 step hs buf = ret b \<and> take 4 b = take 4 buf \<and> hops_at step hs b"
  using put_hops_route [of 4 step hs buf] assms by (auto simp: hops_at_def)

lemma sr_option_hops:
  assumes "nroute r \<le> 9" "nroute r \<le> length (route r)"
  shows "\<exists>b. sr_option r = ret b \<and> hops_at 4 (take (nroute r) (route r)) b \<and> b ! 2 = word_of_nat (3 + nroute r * 4)"
proof -
  let ?buf = "splice 0 [1, if opt_so_dontroute (opts r) then 137 else 131, word_of_nat (3 + nroute r * 4), 4] (zeros RSPACE)"
  obtain b where b: "sr_option r = ret b" "take 4 b = take 4 ?buf" "hops_at 4 (take (nroute r) (route r)) b"
    using put_hops_at [of ?buf 4 "take (nroute r) (route r)"] assms by (auto simp: sr_option_def RSPACE_def)
  have "b ! 2 = take 4 b ! 2" by simp
  also have "\<dots> = ?buf ! 2" unfolding b(2) by simp
  finally show ?thesis using b by (auto simp: splice_def)
qed

lemma ts_option_hops:
  assumes "nroute r \<le> 4" "nroute r \<le> length (route r)" "ts_type r = IPOPT_TS_PRESPEC"
  shows "\<exists>b. ts_option r = ret b \<and> hops_at 8 (take (nroute r) (route r)) b"
  using put_hops_at [of "splice 0 [68, ts_length r, 5, word_of_int (ts_type r)] (zeros RSPACE)" 8 "take (nroute r) (route r)"] assms
  by (auto simp: ts_option_def RSPACE_def Let_def)


text \<open>A system where every call succeeds, and ten literal addresses as operands.\<close>

definition sample_caps :: cap_env where
  "sample_caps = \<lparr>ce_permitted = (\<lambda>c. c = CAP_NET_RAW), ce_get = 0, ce_init = 0, ce_set = 0, ce_keepcaps = 0,
     ce_setuid = 0, ce_unkeep = 0, ce_uid = 1000\<rparr>"

definition sample_address :: addrinfo where
  "sample_address = \<lparr>a_family = AF_INET, a_addr4 = 0x010200C0, a_addr6 = [], a_scope = 0, a_canonname = None\<rparr>"

definition sample_net :: net_env where
  "sample_net = \<lparr>ne_strerror = (\<lambda>e. []), ne_caps = sample_caps,
     ne_aton = (\<lambda>s. if s = ''192.0.2.1'' then Some 0x010200C0 else None), ne_getaddrinfo4 = (\<lambda>s. Inl []),
     ne_socket = (\<lambda>f. 0), ne_opt = (\<lambda>p opt args. 0), ne_ifindex = (\<lambda>s. None), ne_connect = (\<lambda>n. 0),
     ne_getsockname4 = Inr 0x020200C0, ne_getsockname6 = Inl 0, ne_ifaddrs4 = Inr [], ne_ifaddrs6 = Inr [],
     ne_bind = 0, ne_rcvbuf = None, ne_malloc = 0, ne_flowlabel = id, ne_now = no_time,
     ne_setup = \<lparr>se_timestamp_ok = True, se_rcvtimeo_ok = True, se_mark = 0, se_caps = sample_caps, se_pid = 4660,
       se_clock = \<lparr>ts_sec = 1, ts_nsec = 0\<rparr>, se_columns = None\<rparr>\<rparr>"

definition literal_net :: net_env where
  "literal_net = sample_net\<lparr>ne_aton := (\<lambda>s. Some 0x010200C0)\<rparr>"


end
