(* ===== verification/Ping_Main.thy ===== *)
theory Ping_Main
  imports Ping_Setup Ping_Ends
begin

text \<open>
  The program \<open>coping\<close> as a whole: \<open>main\<close> of \<open>ping/ping.c\<close>, from the scan of the arguments for its own
  options to the addresses of the target, each of which is tried with \<open>ping4_run\<close> or \<open>ping6_run\<close>;
  and \<open>ping_print_version\<close>.
\<close>

subsection \<open>The banner and the message about the key\<close>

text \<open>The pictures, with one character for each character outside ASCII.\<close>

definition glyph :: "char \<Rightarrow> string" where
  "glyph c =
     (if c = CHR ''#'' then utf8 [0xE2, 0x96, 0x88] else if c = CHR ''='' then utf8 [0xE2, 0x95, 0x90]
      else if c = CHR ''%'' then utf8 [0xE2, 0x95, 0x91] else if c = CHR ''<'' then utf8 [0xE2, 0x95, 0x94]
      else if c = CHR ''>'' then utf8 [0xE2, 0x95, 0x97] else if c = CHR ''{'' then utf8 [0xE2, 0x95, 0x9A]
      else if c = CHR ''}'' then utf8 [0xE2, 0x95, 0x9D] else if c = CHR ''@'' then utf8 [0xE2, 0x98, 0x81]
      else [c])"

definition picture :: "string list \<Rightarrow> string" where
  "picture ls = concat (map (\<lambda>l. concat (map glyph l) @ newline) ls)"

definition banner :: string where
  "banner = picture
     [[],
      ''   #######  ######  ######  ######  ####  ##  ##  ######'',
      ''  ##      ##  ##  ##  ##  ##      ##  ##  ##  ##'',
      ''  ##      ##  ##  ##  ##  ##  ##  ##  ##  ##  ###'',
      ''  ######  ######  ##  ##  ##  ##  ##  ##  ######'',
      ''       ping, but with AI context you didn'' @ [CHR 0x27] @ ''t ask for'',
      ''       v0.1.0-enshittified | Powered by Claude | @ FREE TIER'', []]"

definition api_key_message :: string where
  "api_key_message = picture
     [''  <'' @ replicate 64 (CHR ''='') @ ''>'',
      ''  %  ANTHROPIC_API_KEY is not set.                              %'',
      ''  %                                                              %'',
      ''  %  coping cannot cope without its AI context engine.           %'',
      ''  %  Run:  export ANTHROPIC_API_KEY=sk-ant-...                  %'',
      ''  %                                                              %'',
      ''  %  Or pass --no-context to ping without AI. But why?           %'',
      ''  {'' @ replicate 63 (CHR ''='') @ ''}'', []]"

subsection \<open>The environment of the program\<close>

text \<open>
  \<open>me_getopt\<close> splits the arguments into options and operands, \<open>me_getaddrinfo\<close> gives the addresses of
  the target or an error text, \<open>me_net\<close> the system as each address in turn meets it.
\<close>

record main_env =
  me_argv0 :: string
  me_argv :: "string list"
  me_getenv :: "string \<Rightarrow> string option"
  me_getopt :: "string list \<Rightarrow> (char \<times> string) list \<times> string list"
  me_dlopen :: "string \<Rightarrow> mechanism option"
  me_caps :: cap_env
  me_options :: option_env
  me_package :: "string \<times> string"
  me_build :: build_config
  me_superuser :: bool
  me_socket :: "int \<Rightarrow> int \<Rightarrow> int + int"
  me_sockopt :: "string \<Rightarrow> int"
  me_getaddrinfo :: "string \<Rightarrow> string + addrinfo list"
  me_addrfamily :: string
  me_net :: "nat \<Rightarrow> net_env"
  me_post :: "string \<Rightarrow> string \<Rightarrow> transfer"
  me_display :: ni_display

subsection \<open>Options\<close>

definition last_char :: "string \<Rightarrow> char result" where
  "last_char s = (if s = [] then stop_with Undefined else ret (last s))"

definition main_family :: "char \<Rightarrow> int" where
  "main_family c = (if c = CHR ''4'' then AF_INET else if c = CHR ''6'' then AF_INET6 else AF_UNSPEC)"

definition force_numeric :: "main_env \<Rightarrow> bool" where
  "force_numeric env \<longleftrightarrow> me_getenv env ''IPUTILS_PING_PTR_LOOKUP'' = Some ''0''"

definition ping_print_version :: "main_env \<Rightarrow> ping_rts \<Rightarrow> unit result" where
  "ping_print_version env rts =
     (if opt_json (opts rts)
      then and_then (construct_json rts ''version'' (PING_JSON_STR (snd (me_package env))))
             (\<lambda>rts. and_then (print_json_packet rts) (\<lambda>_. ret ()))
      else print (''ping from '' @ fst (me_package env) @ '' '' @ snd (me_package env) @ newline)
             (print_config (me_build env)))"

text \<open>The first part of \<open>main\<close>: up to the operands.\<close>

definition parse_command :: "main_env \<Rightarrow> string list \<Rightarrow> (parse_state \<times> string list) result" where
  "parse_command env args =
     and_then (limit_capabilities (oe_strerror (me_options env)) (me_caps env) initial_rts) (\<lambda>rts.
     and_then (last_char (me_argv0 env)) (\<lambda>c.
     let rts = (if force_numeric env then rts\<lparr>opts := opts rts\<lparr>opt_numeric := True\<rparr>\<rparr> else rts);
         (options, operands) = me_getopt env args
     in and_then (ping_options (me_options env) options
                    \<lparr>ai_family = main_family c, ai_socktype = SOCK_DGRAM, opt_version = False, ps_rts = rts\<rparr>) (\<lambda>s.
        if opt_version s then and_then (ping_print_version env (ps_rts s)) (\<lambda>_. stop_with (Exit 0))
        else emit (if opt_numeric (opts (ps_rts s)) \<and> force_numeric env \<and> \<not> opt_quiet (opts (ps_rts s))
                   then [Diag 0 ''WARNING: reverse DNS resolution (PTR lookup) disabled, enforce with -H''] else [])
          (if operands = [] then error_c 2 EDESTADDRREQ ''usage error'' (stop_with Abort) else ret (s, operands)))))"

subsection \<open>Sockets and sizes\<close>

definition ipv6_pmtudisc :: "int \<Rightarrow> int" where
  "ipv6_pmtudisc v = (if v = 2 then 2 else if v = 0 then 0 else if v = 1 then 1 else if v = 3 then 3 else v)"

definition open_sockets :: "main_env \<Rightarrow> parse_state \<Rightarrow> (parse_state \<times> socket_st \<times> socket_st) result" where
  "open_sockets env s =
     enable_capability_raw (me_caps env)
       (let rts = ps_rts s; s = (if ident rts = 0 then s\<lparr>ai_socktype := SOCK_RAW\<rparr> else s);
            fam = ai_family s; stype = ai_socktype s
        in emit (if ident rts = 0 \<and> opt_verbose (opts rts) then [Diag 0 ''WARNING: ident 0 => forcing raw socket''] else [])
          (and_then (if fam \<noteq> AF_INET6
                     then create_socket (me_socket env) (me_superuser env) rts AF_INET stype (fam = AF_INET)
                     else ret no_socket) (\<lambda>sock4.
           and_then (if fam \<noteq> AF_INET
                     then create_socket (me_socket env) (me_superuser env) rts AF_INET6 stype (fd sock4 = - 1)
                     else ret no_socket) (\<lambda>sock6.
           disable_capability_raw (me_caps env)
             (let rts = (if fam \<noteq> AF_INET then rts\<lparr>pmtudisc := ipv6_pmtudisc (pmtudisc rts)\<rparr> else rts);
                  fam = (if fam = AF_UNSPEC then if fd sock4 = - 1 then AF_INET6 else if fd sock6 = - 1 then AF_INET else fam
                         else fam)
              in ret (s\<lparr>ps_rts := rts, ai_family := fam\<rparr>, sock4, sock6))))))"

definition ICMP_MAX_DATALEN :: int where "ICMP_MAX_DATALEN = 65535 - 20 - 8"
definition ICMPV6_MAX_DATALEN :: int where "ICMPV6_MAX_DATALEN = 65535 - 8"

definition max_datalen :: "main_env \<Rightarrow> parse_state \<Rightarrow> string \<Rightarrow> int" where
  "max_datalen env s target =
     (let ipv4 = ICMP_MAX_DATALEN - get_ipv4_optlen (ps_rts s)
      in if oe_pton4 (me_options env) target \<noteq> None then ipv4
         else if oe_pton6 (me_options env) target \<noteq> None then ICMPV6_MAX_DATALEN
         else if ai_family s = AF_INET then ipv4
         else if ai_family s = AF_INET6 then ICMPV6_MAX_DATALEN
         else max ICMP_MAX_DATALEN ICMPV6_MAX_DATALEN)"

definition check_datalen :: "main_env \<Rightarrow> parse_state \<Rightarrow> string \<Rightarrow> unit result" where
  "check_datalen env s target =
     (if datalen (ps_rts s) > max_datalen env s target
      then error_c EXIT_FAILURE 0 (''invalid -s value: '' @ [CHR 0x27] @ fmt_d (datalen (ps_rts s)) @ [CHR 0x27] @
             '': out of range: 0 <= value <= '' @ fmt_d (max_datalen env s target)) (ret ())
      else ret ())"

definition show_sockets :: "parse_state \<Rightarrow> socket_st \<Rightarrow> socket_st \<Rightarrow> unit result" where
  "show_sockets s sock4 sock6 =
     (if \<not> opt_verbose (opts (ps_rts s)) then ret ()
      else and_then (str_socktype (socktype sock4)) (\<lambda>t4.
           and_then (str_socktype (socktype sock6)) (\<lambda>t6.
           and_then (str_family (ai_family s)) (\<lambda>f.
           error_c 0 0 (''sock4.fd: '' @ fmt_d (fd sock4) @ '' (socktype: '' @ t4 @ ''), sock6.fd: '' @ fmt_d (fd sock6) @
             '' (socktype: '' @ t6 @ ''), hints.ai_family: '' @ f) (ret ())))))"

definition linklocal_warning :: "main_env \<Rightarrow> socket_st \<Rightarrow> string \<Rightarrow> effect list" where
  "linklocal_warning env sock6 target =
     (if CHR ''%'' \<notin> set target \<and> socktype sock6 = SOCK_DGRAM \<and>
         (case oe_pton6 (me_options env) target of
            Some a \<Rightarrow> in6_linklocal a \<or> in6_mc_linklocal a | None \<Rightarrow> False)
      then [Diag 0 (''Warning: IPv6 link-local address on ICMP datagram socket may require ifname or scope-id'' @
             '' => use: address%<ifname|scope-id>'')] else [])"

subsection \<open>The addresses of the target\<close>

text \<open>
  The addresses are tried in their order; those of a family that is not wanted are passed over,
  and it is an error if the last one is.  The result is the process at its end with the exit code.
\<close>

fun try_addresses ::
    "main_env \<Rightarrow> 'w os \<Rightarrow> finisher \<Rightarrow> nat \<Rightarrow> int \<Rightarrow> socket_st \<Rightarrow> socket_st \<Rightarrow> string list \<Rightarrow> 'w \<Rightarrow> nat \<Rightarrow>
     addrinfo list \<Rightarrow> static6 \<Rightarrow> ping_rts \<Rightarrow> ('w ping_proc option \<times> int) result" where
  "try_addresses env os fin fuel want sock4 sock6 argv w n [] st rts = ret (None, 0)"
| "try_addresses env os fin fuel want sock4 sock6 argv w n (ai # ais) st rts =
     and_then (if opt_verbose (opts rts)
               then and_then (str_family (a_family ai)) (\<lambda>f.
                      error_c 0 0 (''ai->ai_family: '' @ f @ '', ai->ai_canonname: '' @ [CHR 0x27] @
                        (case a_canonname ai of Some c \<Rightarrow> c | None \<Rightarrow> []) @ [CHR 0x27]) (ret ()))
               else ret ()) (\<lambda>_.
     if want \<noteq> AF_UNSPEC \<and> want \<noteq> a_family ai
     then if ais = [] then error_c 2 0 (last argv @ '': '' @ me_addrfamily env) (stop_with Abort)
          else try_addresses env os fin fuel want sock4 sock6 argv w (n + 1) ais st rts
     else let continue = (\<lambda>st rts. if ais = [] then stop_with Abort
                else try_addresses env os fin fuel want sock4 sock6 argv w (n + 1) ais st rts)
          in if a_family ai = AF_INET
             then and_then (ping4_run os fin fuel (me_net env n) ai (ais \<noteq> []) sock4 argv w rts) (\<lambda>(rts, done_with).
                    case done_with of Some (p, code) \<Rightarrow> ret (Some p, code) | None \<Rightarrow> continue st rts)
             else if a_family ai = AF_INET6
             then and_then (ping6_run (me_display env) os fin fuel (me_net env n) ai (ais \<noteq> []) sock6 argv w st rts)
                    (\<lambda>(st, rts, done_with).
                    case done_with of Some (p, code) \<Rightarrow> ret (Some p, code) | None \<Rightarrow> continue st rts)
             else error_c 2 0 (''unknown protocol family: '' @ fmt_d (a_family ai)) (stop_with Abort))"

subsection \<open>\<open>main\<close>\<close>

definition ping_targets ::
    "main_env \<Rightarrow> 'w os \<Rightarrow> finisher \<Rightarrow> nat \<Rightarrow> 'w \<Rightarrow> parse_state \<Rightarrow> string list \<Rightarrow> ('w ping_proc option \<times> int) result" where
  "ping_targets env os fin fuel w s argv =
     and_then (open_sockets env s) (\<lambda>(s, sock4, sock6).
     and_then (check_datalen env s (last argv)) (\<lambda>_.
     and_then (show_sockets s sock4 sock6) (\<lambda>_.
     let rts = ps_rts s
     in and_then (if settos rts \<noteq> 0 then set_socket_option (me_sockopt env) sock4 ''IP_TOS'' (settos rts) (ret ())
                  else ret ()) (\<lambda>_.
        and_then (if tclass rts \<noteq> 0
                  then set_socket_option (me_sockopt env) sock6 ''IPV6_TCLASS'' (uint (tclass rts)) (ret ())
                  else ret ()) (\<lambda>_.
        emit (linklocal_warning env sock6 (last argv))
          (case me_getaddrinfo env (last argv) of
             Inl msg \<Rightarrow> error_c 2 0 (last argv @ '': '' @ msg) (stop_with Abort)
           | Inr ais \<Rightarrow> try_addresses env os fin fuel (ai_family s) sock4 sock6 argv w 0 ais initial_static6 rts))))))"

definition ping_main :: "main_env \<Rightarrow> 'w os \<Rightarrow> nat \<Rightarrow> 'w \<Rightarrow> ('w ping_proc option \<times> int) result" where
  "ping_main env os fuel w =
     (case argv_scan \<lparr>no_context = False, mechanism_names = []\<rparr> (me_argv env) of (cfg, args) \<Rightarrow>
      let api_key = me_getenv env ''ANTHROPIC_API_KEY''
      in print banner
        (and_then (api_key_gate api_key_message api_key cfg) (\<lambda>_.
         and_then (coping_init (me_dlopen env) (me_getenv env ''HOME'') cfg) (\<lambda>mechs.
         and_then (parse_command env args) (\<lambda>(s, operands).
         ping_targets env os (finish (me_post env) cfg mechs (case api_key of Some k \<Rightarrow> k | None \<Rightarrow> [])) fuel w s operands)))))"

subsection \<open>Every command line leads to a state that is ready\<close>

lemma limit_capabilities_state:
  assumes "\<not> opt_json (opts r)"
  shows "yields (limit_capabilities strerror caps r) (\<lambda>s. s = r\<lparr>uid := ce_uid caps\<rparr>)"
proof -
  have "yields (may_fail strerror e call r) (\<lambda>s. s = r)" for e call
    using assms by (simp add: may_fail_def ping_error_def Let_def)
  then show ?thesis
    unfolding limit_capabilities_def by (auto intro!: yields_and_then [where Q = "\<lambda>s. s = r"])
qed

lemma parse_command_ok:
  "yields (parse_command env args) (\<lambda>(s, operands). settings_ok (ps_rts s) \<and> operands \<noteq> [])"
proof -
  have start: "settings_ok (if b then r\<lparr>opts := opts r\<lparr>opt_numeric := True\<rparr>\<rparr> else r)"
    if "r = initial_rts\<lparr>uid := u\<rparr>" for b r u
    using initial_settings_ok [of u] that by (auto simp: settings_ok_def)
  have "\<not> opt_json (opts initial_rts)" by (simp add: initial_rts_def rts_with_def no_opts_def)
  then show ?thesis
    unfolding parse_command_def Let_def case_prod_unfold
    by (intro yields_and_then [OF limit_capabilities_state] yields_then_any yields_and_then [OF ping_options_ok])
      (auto simp: start error_c_def EDESTADDRREQ_def intro!: yields_then_any)
qed

lemma open_sockets_ok:
  assumes "settings_ok (ps_rts s)"
  shows "yields (open_sockets env s) (\<lambda>(s, sock4, sock6). settings_ok (ps_rts s))"
proof -
  have "settings_ok (r\<lparr>pmtudisc := ipv6_pmtudisc (pmtudisc r)\<rparr>)" if "settings_ok r" for r
    using that by (auto simp: settings_ok_def ipv6_pmtudisc_def)
  then show ?thesis
    using assms unfolding open_sockets_def Let_def by (auto intro!: yields_then_any)
qed

lemma checked_ready:
  assumes "settings_ok (ps_rts s)" "returns (check_datalen env s target) u"
  shows "ready (ps_rts s)"
proof -
  have "max_datalen env s target \<le> ICMPV6_MAX_DATALEN"
    by (simp add: max_datalen_def ICMP_MAX_DATALEN_def ICMPV6_MAX_DATALEN_def get_ipv4_optlen_def Let_def)
  then have "datalen (ps_rts s) \<le> ICMPV6_MAX_DATALEN"
    using assms(2) by (auto simp: check_datalen_def error_c_def EXIT_FAILURE_def split: if_splits)
  then show ?thesis using assms(1) tbl_inv_zeros
    by (simp add: settings_ok_def ready_def ICMPV6_MAX_DATALEN_def MAXPACKET_def)
qed

lemma checked_yields:
  assumes "settings_ok (ps_rts s)" "\<And>u. ready (ps_rts s) \<Longrightarrow> yields (f u) P"
  shows "yields (and_then (check_datalen env s target) f) P"
  using checked_ready [OF assms(1)] assms(2) by (auto simp: yields_def returns_def and_then_def split: sum.splits)

subsection \<open>The end of every run\<close>

text \<open>A process that was started from a ready state, with the outcome of its loop.\<close>

definition finished :: "'w ping_proc \<Rightarrow> int \<Rightarrow> bool" where
  "finished q code \<longleftrightarrow> (\<exists>p :: 'w ping_proc. started (p_rts p) \<and> run_outcome p q code)"

lemma finishedI: "started (p_rts p) \<Longrightarrow> run_outcome p q code \<Longrightarrow> finished q code"
  by (auto simp: finished_def)

lemma ping4_run_finished:
  fixes w :: 'w
  assumes "ready rts"
  shows "yields (ping4_run os (finish post cfg mechs key) fuel env ai further sock argv w rts)
    (\<lambda>(rts, r). ready rts \<and> (case r of Some (q, code) \<Rightarrow> finished q code | None \<Rightarrow> True))"
  unfolding ping4_run_def
proof (rule yields_and_then [OF prepare4_ready [OF assms]], clarify)
  fix s a assume s: "ready s"
  have "yields (main_loop (ne_strerror env) os (ping4_func_set (ne_strerror env) os (is_raw sock)) (is_raw sock)
      (finish post cfg mechs key) fuel p) (\<lambda>(q, code). finished q code)" if "started (p_rts p)" for p :: "'w ping_proc"
    by (rule yields_mono [OF ping4.loop_outcome]) (use finishedI [OF that] in auto)
  then show "yields (case a of Ready dst \<Rightarrow> and_then (start4 env sock dst s w) (\<lambda>p.
      and_then (main_loop (ne_strerror env) os (ping4_func_set (ne_strerror env) os (is_raw sock)) (is_raw sock)
        (finish post cfg mechs key) fuel p) (\<lambda>r. ret (s, Some r))) | Next_Address \<Rightarrow> ret (s, None))
    (\<lambda>(rts, r). ready rts \<and> (case r of Some (q, code) \<Rightarrow> finished q code | None \<Rightarrow> True))"
    using s by (cases a) (auto intro!: yields_and_then [OF start4_started]
        intro: yields_and_then [where Q = "\<lambda>(q, code). finished q code"])
qed

lemma ping6_run_finished:
  fixes w :: 'w
  assumes "ready rts"
  shows "yields (ping6_run d os (finish post cfg mechs key) fuel env ai further sock argv w st rts)
    (\<lambda>(st, rts, r). ready rts \<and> (case r of Some (q, code) \<Rightarrow> finished q code | None \<Rightarrow> True))"
  unfolding ping6_run_def
proof (rule yields_and_then [OF prepare6_ready [OF assms]], clarify)
  fix st s b assume s: "ready s"
  have "yields (main_loop (ne_strerror env) os (ping6_func_set (ne_strerror env) d os (is_raw sock)) (is_raw sock)
      (finish post cfg mechs key) fuel p) (\<lambda>(q, code). finished q code)" if "started (p_rts p)" for p :: "'w ping_proc"
    by (rule yields_mono [OF ping6.loop_outcome]) (use finishedI [OF that] in auto)
  then show "yields (if \<not> b then ret (st, s, None) else and_then (start6 os env sock s w) (\<lambda>p.
      and_then (main_loop (ne_strerror env) os (ping6_func_set (ne_strerror env) d os (is_raw sock)) (is_raw sock)
        (finish post cfg mechs key) fuel p) (\<lambda>r. ret (st, s, Some r))))
    (\<lambda>(st, rts, r). ready rts \<and> (case r of Some (q, code) \<Rightarrow> finished q code | None \<Rightarrow> True))"
    using s by (auto intro!: yields_and_then [OF start6_started]
        intro: yields_and_then [where Q = "\<lambda>(q, code). finished q code"])
qed

fun main_outcome :: "'w ping_proc option \<times> int \<Rightarrow> bool" where
  "main_outcome (Some q, code) = finished q code"
| "main_outcome (None, code) = (code = 0)"

lemma try_addresses_finished:
  "ready rts \<Longrightarrow>
   yields (try_addresses env os (finish post cfg mechs key) fuel want sock4 sock6 argv w n ais st rts) main_outcome"
proof (induction ais arbitrary: n st rts)
  case (Cons ai ais)
  have four: "yields (and_then (ping4_run os (finish post cfg mechs key) fuel (me_net env n) ai b sock4 argv w rts)
      (\<lambda>(rts, done_with). case done_with of Some (p, code) \<Rightarrow> ret (Some p, code) | None \<Rightarrow>
        if ais = [] then stop_with Abort
        else try_addresses env os (finish post cfg mechs key) fuel want sock4 sock6 argv w (n + 1) ais st rts)) main_outcome" for b
    by (rule yields_and_then [OF ping4_run_finished [OF Cons.prems]]) (auto simp: Cons.IH split: option.splits)
  have six: "yields (and_then (ping6_run (me_display env) os (finish post cfg mechs key) fuel (me_net env n) ai b sock6 argv w st rts)
      (\<lambda>(st, rts, done_with). case done_with of Some (p, code) \<Rightarrow> ret (Some p, code) | None \<Rightarrow>
        if ais = [] then stop_with Abort
        else try_addresses env os (finish post cfg mechs key) fuel want sock4 sock6 argv w (n + 1) ais st rts)) main_outcome" for b
    by (rule yields_and_then [OF ping6_run_finished [OF Cons.prems]]) (auto simp: Cons.IH split: option.splits)
  have skip: "yields (if ais = [] then error_c 2 0 msg (stop_with Abort)
      else try_addresses env os (finish post cfg mechs key) fuel want sock4 sock6 argv w (n + 1) ais st rts) main_outcome" for msg
    using Cons.IH [OF Cons.prems] by simp
  show ?case unfolding try_addresses.simps Let_def
    by (intro yields_then_any yields_if skip four six) simp
qed simp

lemma ping_main_finished: "yields (ping_main env os fuel w) main_outcome"
proof -
  have targets: "yields (ping_targets env os (finish post cfg mechs key) fuel w s operands) main_outcome"
    if "settings_ok (ps_rts s)" for post cfg mechs key s operands
    unfolding ping_targets_def Let_def
  proof (rule yields_and_then [OF open_sockets_ok [OF that]], clarify, rule checked_yields, assumption)
    fix s :: parse_state and sock4 sock6
    assume "ready (ps_rts s)"
    then show "yields (and_then (show_sockets s sock4 sock6) (\<lambda>_.
        and_then (if settos (ps_rts s) \<noteq> 0
                  then set_socket_option (me_sockopt env) sock4 ''IP_TOS'' (settos (ps_rts s)) (ret ()) else ret ()) (\<lambda>_.
        and_then (if tclass (ps_rts s) \<noteq> 0
                  then set_socket_option (me_sockopt env) sock6 ''IPV6_TCLASS'' (uint (tclass (ps_rts s))) (ret ())
                  else ret ()) (\<lambda>_.
        emit (linklocal_warning env sock6 (last operands))
          (case me_getaddrinfo env (last operands) of
             Inl msg \<Rightarrow> error_c 2 0 (last operands @ '': '' @ msg) (stop_with Abort)
           | Inr ais \<Rightarrow> try_addresses env os (finish post cfg mechs key) fuel (ai_family s) sock4 sock6 operands w 0 ais
               initial_static6 (ps_rts s)))))) main_outcome"
      by (intro yields_then_any) (auto intro: try_addresses_finished split: sum.split)
  qed
  obtain cfg args where scan: "argv_scan \<lparr>no_context = False, mechanism_names = []\<rparr> (me_argv env) = (cfg, args)"
    by fastforce
  show ?thesis
    unfolding ping_main_def scan Let_def prod.case yields_simps
    by (intro yields_then_any yields_and_then [OF parse_command_ok]) (auto intro: targets)
qed

subsection \<open>A run without network\<close>

text \<open>
  \<open>coping --no-context 192.0.2.1\<close> for a user, on a system where every call succeeds, ended by the user
  before the first probe.
\<close>

definition sample_main :: main_env where
  "sample_main = \<lparr>me_argv0 = ''ping'', me_argv = [''--no-context'', ''192.0.2.1''], me_getenv = (\<lambda>s. None),
     me_getopt = (\<lambda>args. ([], args)), me_dlopen = (\<lambda>s. None), me_caps = sample_caps, me_options = sample_option_env,
     me_package = (''iputils'', ''20240905''),
     me_build = \<lparr>have_libcap = True, use_idn = False, enable_nls = False, have_error_h = True,
       have_getrandom = True, have_fpending = True\<rparr>,
     me_superuser = False, me_socket = (\<lambda>f t. if f = AF_INET then Inr 3 else Inr 4), me_sockopt = (\<lambda>s. 0),
     me_getaddrinfo = (\<lambda>s. Inr [sample_address]), me_addrfamily = [], me_net = (\<lambda>n. sample_net),
     me_post = (\<lambda>k b. Init_Failed), me_display = no_names\<rparr>"

definition sample_start :: ping_rts where
  "sample_start = initial_rts\<lparr>uid := 1000\<rparr>"

text \<open>The state after the capabilities were limited.\<close>

lemma sample_start_sel [simp]:
  "opts sample_start = no_opts" "uid sample_start = 1000" "ident sample_start = - 1" "pmtudisc sample_start = - 1"
  "datalen sample_start = 56" "settos sample_start = 0" "tclass sample_start = 0" "device sample_start = None"
  "source sample_start = 0" "nroute sample_start = 0" "broadcast_pings sample_start = False" "interval sample_start = 1000"
  "preload sample_start = 1" "sndbuf sample_start = 0" "flowlabel sample_start = 0" "deadline sample_start = 0"
  "npackets sample_start = 0" "exiting sample_start = False" "nreceived sample_start = 0" "ntransmitted sample_start = 0"
  by (simp_all add: sample_start_def initial_rts_def rts_with_def)

lemma sample_start_initial: "initial_rts\<lparr>uid := 1000\<rparr> = sample_start"
  by (simp add: sample_start_def)

lemma no_opts_sel:
  "\<not> opt_json no_opts" "\<not> opt_numeric no_opts" "\<not> opt_verbose no_opts"  "\<not> opt_quiet no_opts"
  "\<not> opt_rroute no_opts"  "\<not> opt_timestamp no_opts" "\<not> opt_sourceroute no_opts" "\<not> opt_mark no_opts"
  "\<not> opt_strictsource no_opts" "\<not> opt_noloop no_opts" "\<not> opt_ttl no_opts" "\<not> opt_flood no_opts" "\<not> opt_latency no_opts"
  "\<not> opt_so_debug no_opts" "\<not> opt_so_dontroute no_opts" "\<not> opt_pingfilled no_opts" "\<not> opt_connect_sk no_opts"
  by (simp_all add: no_opts_def)

lemma sample_parse:
  "returns (parse_command sample_main [''192.0.2.1'']) (first_parse_state sample_start, [''192.0.2.1''])"
proof -
  have "opts initial_rts = no_opts" by (simp add: initial_rts_def rts_with_def)
  then show ?thesis
  by (simp add: parse_command_def limit_capabilities_def may_fail_def sample_main_def sample_caps_def force_numeric_def
      last_char_def main_family_def first_parse_state_def sample_start_initial Let_def no_opts_sel)
qed

lemma sample_sockets:
  "returns (open_sockets sample_main (first_parse_state sample_start))
     (first_parse_state sample_start, \<lparr>fd = 3, socktype = SOCK_DGRAM\<rparr>, \<lparr>fd = 4, socktype = SOCK_DGRAM\<rparr>)"
  by (simp add: open_sockets_def capability_emits first_parse_state_def create_socket_def sample_main_def Let_def
      AF_UNSPEC_def AF_INET_def AF_INET6_def SOCK_DGRAM_def SOCK_RAW_def ipv6_pmtudisc_def)

lemma sample_checked: "returns (check_datalen sample_main (first_parse_state sample_start) ''192.0.2.1'') ()"
  by (simp add: check_datalen_def max_datalen_def first_parse_state_def sample_main_def sample_option_env_def
      ICMP_MAX_DATALEN_def get_ipv4_optlen_def no_opts_sel)

lemma sample_prepared:
  "\<exists>r. returns (prepare4 sample_net sample_address False \<lparr>fd = 3, socktype = SOCK_DGRAM\<rparr> [''192.0.2.1''] sample_start) (r, Ready (Some 0x010200C0)) \<and>
     opts r = no_opts\<lparr>opt_numeric := True\<rparr> \<and> device r = None \<and> flowlabel r = 0 \<and> interval r = 1000 \<and> uid r = 1000 \<and> preload r = 1 \<and> deadline r = 0 \<and> nreceived r = 0 \<and> ntransmitted r = 0"
  by (simp add: prepare4_def check_operands4_def lookup_target_def sample_net_def choose_source4_def probe_source4_def
     sock_setmark_def connect_probe4_def own_address4_def configure4_def multicast4_def in_multicast_def bind_source_def set_ident_def
     receive_options4_def try_set_def must_set_def ip_options4_def send_options4_def no_opts_sel Let_def
     get_ipv4_optlen_def sock_setbufs_def packet_estimate_def SOCK_DGRAM_def SOCK_RAW_def SIZEOF_TIMEVAL_def)

lemma sample_started:
  assumes "opts r = no_opts\<lparr>opt_numeric := True\<rparr>" "device r = None" "flowlabel r = 0" "interval r = 1000" "uid r = 1000"
    "preload r = 1" "deadline r = 0" "nreceived r = 0" "ntransmitted r = 0"
  shows "\<exists>p. returns (start4 sample_net \<lparr>fd = 3, socktype = SOCK_DGRAM\<rparr> (Some 0x010200C0) r (4::nat)) p \<and>
    world p = 4 \<and> opts (p_rts p) = no_opts\<lparr>opt_numeric := True\<rparr> \<and> nreceived (p_rts p) = 0 \<and> ntransmitted (p_rts p) = 0 \<and> deadline (p_rts p) = 0"
proof -
  have "int_max sdiv 1 = int_max" by simp
  then have chk: "check_interval strerror r = ret r" for strerror
    using assms by (simp add: check_interval_def no_opts_sel MIN_USER_INTERVAL_MS_def int_max_def)
  show ?thesis
    using assms by (simp add: start4_def ping_print_packet_def no_opts_sel new_process_def setup_rts_def chk on_rts_def
      sample_net_def sock_setmark_def is_raw_def SOCK_RAW_def SOCK_DGRAM_def drop_capabilities_def sample_caps_def Let_def default_fill_def)
qed

lemma quiet_end:
  assumes "world p = 4" "opts (p_rts p) = no_opts\<lparr>opt_numeric := True\<rparr>" "nreceived (p_rts p) = 0" "ntransmitted (p_rts p) = 0" "deadline (p_rts p) = 0"
  shows "\<exists>q. returns (main_loop strerror quiet_os fset raw (finish post \<lparr>no_context = True, mechanism_names = []\<rparr> [] []) 1 p) (q, 1)"
proof -
  define r where "r = (p_rts p)\<lparr>exiting := True\<rparr>"
  have r: "opts r = no_opts\<lparr>opt_numeric := True\<rparr>" "nreceived r = 0" "ntransmitted r = 0" "deadline r = 0" "exiting r"
    using assms by (simp_all add: r_def)
  have "\<exists>s. returns (ping_print_finish r) s"
    using r by (auto simp: ping_print_finish_def ping_finish_line_def finish_ipg_def no_opts_sel Let_def)
  then obtain s where s: "returns (ping_print_finish r) s" by blast
  have "nreceived s = 0" using yields_returns [OF ping_print_finish_same s] r same_counts_sel by metis
  then have "\<exists>s. returns (finish post \<lparr>no_context = True, mechanism_names = []\<rparr> [] [] r) (s, 1)"
    using s by (auto simp: finish_def coping_add_context_def returns_and_then)
  moreover have "deliver_signals quiet_os p = p\<lparr>p_rts := r\<lparr>exiting := True\<rparr>, world := 4\<rparr>"
    using assms by (simp add: deliver_signals_def r_def quiet_os_def)
  ultimately show ?thesis using r assms by (auto simp: main_exit_def returns_and_then r_def)
qed

lemma sample_addresses: "me_getaddrinfo sample_main t = Inr [sample_address]"
  by (simp add: sample_main_def)

lemma sample_run:
  "\<exists>q. returns (ping_main sample_main quiet_os 1 4) (Some q, 1)"
proof -
  obtain r where prep: "returns (prepare4 sample_net sample_address False \<lparr>fd = 3, socktype = SOCK_DGRAM\<rparr> [''192.0.2.1''] sample_start) (r, Ready (Some 0x010200C0))"
    and r: "opts r = no_opts\<lparr>opt_numeric := True\<rparr>" "device r = None" "flowlabel r = 0" "interval r = 1000" "uid r = 1000" "preload r = 1"
     "deadline r = 0" "nreceived r = 0" "ntransmitted r = 0"
    using sample_prepared by auto
  obtain p where p: "returns (start4 sample_net \<lparr>fd = 3, socktype = SOCK_DGRAM\<rparr> (Some 0x010200C0) r (4 :: nat)) p"
    "world p = 4" "opts (p_rts p) = no_opts\<lparr>opt_numeric := True\<rparr>" "nreceived (p_rts p) = 0" "ntransmitted (p_rts p) = 0" "deadline (p_rts p) = 0"
    using sample_started [OF r] by blast
  let ?fin = "finish (\<lambda>k b. Init_Failed) \<lparr>no_context = True, mechanism_names = []\<rparr> [] []"
  let ?sock = "\<lparr>fd = 3, socktype = SOCK_DGRAM\<rparr>"
  obtain q where q: "returns (main_loop (ne_strerror sample_net) quiet_os (ping4_func_set (ne_strerror sample_net) quiet_os (is_raw ?sock))
      (is_raw ?sock) ?fin 1 p) (q, 1)"
    using quiet_end [OF p(2-6)] by blast
  have run4: "returns (ping4_run quiet_os ?fin 1 sample_net sample_address False ?sock [''192.0.2.1''] 4 sample_start) (r, Some (q, 1))"
    unfolding ping4_run_def
    by (rule returns_and_thenI [OF prep], simp only: prod.case attempt.case, rule returns_and_thenI [OF p(1)],
        rule returns_and_thenI [OF q], simp)
  have tried: "returns (try_addresses sample_main quiet_os ?fin 1 AF_UNSPEC \<lparr>fd = 3, socktype = SOCK_DGRAM\<rparr> s6 [''192.0.2.1''] 4 0 [sample_address] initial_static6 sample_start) (Some q, 1)" for s6
    using run4 by (auto simp: no_opts_sel sample_main_def sample_address_def returns_and_then intro!: exI)
  have "returns (ping_targets sample_main quiet_os ?fin 1 4 (first_parse_state sample_start) [''192.0.2.1'']) (Some q, 1)"
    unfolding ping_targets_def
    apply (rule returns_and_thenI [OF sample_sockets])
    apply (simp only: prod.case last.simps if_True simp_thms)
    apply (rule returns_and_thenI [OF sample_checked])
    using tried
    by (simp add: show_sockets_def first_parse_state_def no_opts_sel sample_addresses del: try_addresses.simps One_nat_def)
  then have "returns (ping_targets sample_main quiet_os
      (finish (me_post sample_main) \<lparr>no_context = True, mechanism_names = []\<rparr> [] (case me_getenv sample_main ''ANTHROPIC_API_KEY'' of Some k \<Rightarrow> k | None \<Rightarrow> []))
      1 4 (first_parse_state sample_start) [''192.0.2.1'']) (Some q, 1)"
    by (simp add: sample_main_def)
  then have "returns (and_then (parse_command sample_main [''192.0.2.1'']) (\<lambda>(s, operands).
      ping_targets sample_main quiet_os (finish (me_post sample_main) \<lparr>no_context = True, mechanism_names = []\<rparr> []
        (case me_getenv sample_main ''ANTHROPIC_API_KEY'' of Some k \<Rightarrow> k | None \<Rightarrow> [])) 1 4 s operands)) (Some q, 1)"
    by (intro returns_and_thenI [OF sample_parse]) simp
  moreover have "argv_scan \<lparr>no_context = False, mechanism_names = []\<rparr> (me_argv sample_main) =
      (\<lparr>no_context = True, mechanism_names = []\<rparr>, [''192.0.2.1''])"
    by (simp add: sample_main_def)
  ultimately show ?thesis
    by (auto simp: ping_main_def api_key_gate_def coping_init_def Let_def)
qed

subsection \<open>What holds of every run\<close>




text \<open>
  C7: whatever options, operands and system calls lead to the IPv4 loop, the process it is given meets
  what sending relies on: the packet fits in its buffer, which has its full size, and in an IP packet;
  a timed packet has room for the time; the table of received numbers has its size and nothing is
  marked as sent; the interval times the preload, the most the token bucket holds, fits in \<open>int\<close>; and
  a user waits at least two milliseconds between probes.
\<close>

theorem command_line_ready:
  assumes "returns (parse_command env args) (s, operands)" "returns (open_sockets env s) (t, sock4, sock6)"
    and "returns (check_datalen env t target) ()"
    and "returns (prepare4 net ai further sock4 operands (ps_rts t)) (rts, Ready dst)"
    and "returns (start4 net sock4 dst rts w) p"
  shows "length (outpack (p_rts p)) = MAXPACKET \<and> 0 \<le> datalen (p_rts p) \<and> datalen (p_rts p) + 8 \<le> int MAXPACKET \<and>
    (timing (p_rts p) \<longrightarrow> 16 \<le> datalen (p_rts p)) \<and> tbl_inv (rcvd_tbl (p_rts p)) \<and> ntransmitted (p_rts p) = 0 \<and>
    0 \<le> interval (p_rts p) * preload (p_rts p) \<and> interval (p_rts p) * preload (p_rts p) < int_max \<and>
    (uid (p_rts p) \<noteq> 0 \<longrightarrow> 2 \<le> interval (p_rts p))"
proof -
  have "settings_ok (ps_rts s)" using yields_returns [OF parse_command_ok assms(1)] by simp
  then have "settings_ok (ps_rts t)" using yields_returns [OF open_sockets_ok assms(2)] by simp
  then have "ready (ps_rts t)" using assms(3) by (rule checked_ready)
  then have "ready rts" using yields_returns [OF prepare4_ready assms(4)] by simp
  then have "started (p_rts p)" using yields_returns [OF start4_started assms(5)] by simp
  then show ?thesis by (auto simp: started_def ready_def MIN_USER_INTERVAL_MS_def)
qed

theorem command_line_ready_witness:
  "\<exists>rts p. returns (start4 sample_net \<lparr>fd = 3, socktype = SOCK_DGRAM\<rparr> (Some 0x010200C0) rts (4 :: nat)) p \<and>
     interval (p_rts p) * preload (p_rts p) < int_max \<and> ntransmitted (p_rts p) = 0"
proof -
  obtain r where prep: "returns (prepare4 sample_net sample_address False \<lparr>fd = 3, socktype = SOCK_DGRAM\<rparr> [''192.0.2.1'']
      (ps_rts (first_parse_state sample_start))) (r, Ready (Some 0x010200C0))"
    and r: "opts r = no_opts\<lparr>opt_numeric := True\<rparr>" "device r = None" "flowlabel r = 0" "interval r = 1000" "uid r = 1000"
      "preload r = 1" "deadline r = 0" "nreceived r = 0" "ntransmitted r = 0"
    using sample_prepared by (auto simp: first_parse_state_def)
  obtain p where p: "returns (start4 sample_net \<lparr>fd = 3, socktype = SOCK_DGRAM\<rparr> (Some 0x010200C0) r (4 :: nat)) p"
    using sample_started [OF r] by blast
  show ?thesis using command_line_ready [OF sample_parse sample_sockets sample_checked prep p] p by blast
qed

end
