(* ===== verification/Arping.thy ===== *)
theory Arping
  imports Iputils
begin

text \<open>
  The program \<open>arping.c\<close>: the ARP packets it sends and accepts, the counters and the exit code, and
  the event loop; which packets are counted, how many are sent, and that the loop ends.  An IPv4
  address is the list of its four bytes in memory.  The world behind the system calls is a state
  \<open>'w\<close>; the loop runs for a given number of rounds.
\<close>

definition FINAL_PACKS :: int where "FINAL_PACKS = 2"

definition ARPHRD_NETROM :: u16 where "ARPHRD_NETROM = 0"
definition ARPHRD_ETHER :: u16 where "ARPHRD_ETHER = 1"
definition ARPHRD_AX25 :: u16 where "ARPHRD_AX25 = 3"
definition ARPHRD_FDDI :: u16 where "ARPHRD_FDDI = 774"
definition AX25_P_IP :: u16 where "AX25_P_IP = 0xCC"
definition ETH_P_IP :: u16 where "ETH_P_IP = 0x0800"
definition ARPOP_REQUEST :: u16 where "ARPOP_REQUEST = 1"
definition ARPOP_REPLY :: u16 where "ARPOP_REPLY = 2"
definition PACKET_HOST :: u8 where "PACKET_HOST = 0"
definition PACKET_BROADCAST :: u8 where "PACKET_BROADCAST = 1"
definition PACKET_MULTICAST :: u8 where "PACKET_MULTICAST = 2"
definition ENETDOWN :: int where "ENETDOWN = 100"

subsection \<open>The state\<close>

text \<open>
  A link-layer address as the program keeps it, in a \<open>sockaddr_storage\<close>: behind the fields there are
  116 bytes from \<open>sll_addr\<close> on.
\<close>

record sockaddr_ll =
  sll_ifindex :: int
  sll_hatype :: u16
  sll_pkttype :: u8
  sll_halen :: u8
  sll_addr :: "u8 list"

text \<open>An interface as \<open>getifaddrs\<close> lists it, with its name, flags and link-layer addresses.\<close>

record ifaddr =
  ifa_name :: string
  ifa_flags :: u32
  ifa_addr :: "sockaddr_ll option"
  ifa_broadaddr :: "sockaddr_ll option"

record run_state =
  ct_name :: "string option"
  ct_ifindex :: int
  ct_ifa :: "ifaddr option"
  ct_source :: "string option"
  ct_gsrc :: "u8 list"
  ct_gdst :: "u8 list"
  ct_gdst_family :: int
  ct_count :: int
  ct_timeout :: int
  ct_interval :: int
  ct_me :: sockaddr_ll
  ct_he :: sockaddr_ll
  ct_last :: timespec
  ct_sent :: int
  ct_brd_sent :: int
  ct_received :: int
  ct_brd_recv :: int
  ct_req_recv :: int
  ct_cap_raw :: bool
  ct_advert :: bool
  ct_broadcast_only :: bool
  ct_dad :: bool
  ct_quiet :: bool
  ct_quit_on_reply :: bool
  ct_unicasting :: bool
  ct_unsolicited :: bool

subsection \<open>Packets\<close>

definition arp_hrd :: "run_state \<Rightarrow> u16" where
  "arp_hrd ctl = (if sll_hatype (ct_me ctl) = ARPHRD_FDDI then ARPHRD_ETHER else sll_hatype (ct_me ctl))"

definition arp_pro :: "u16 \<Rightarrow> u16" where
  "arp_pro hrd = (if hrd = ARPHRD_AX25 \<or> hrd = ARPHRD_NETROM then AX25_P_IP else ETH_P_IP)"

text \<open>A packet, from its fields: the layout of \<open>struct arphdr\<close> and the four addresses behind it.\<close>

definition arp_bytes :: "u16 \<Rightarrow> u16 \<Rightarrow> u8 \<Rightarrow> u8 \<Rightarrow> u16 \<Rightarrow> u8 list \<Rightarrow> u8 list \<Rightarrow> u8 list \<Rightarrow> u8 list \<Rightarrow> u8 list" where
  "arp_bytes hrd pro hln pln op sha spa tha tpa =
     be16_bytes hrd @ be16_bytes pro @ [hln, pln] @ be16_bytes op @ sha @ spa @ tha @ tpa"

definition own_hw :: "run_state \<Rightarrow> u8 list" where
  "own_hw ctl = take (unat (sll_halen (ct_me ctl))) (sll_addr (ct_me ctl))"

definition probe_packet :: "run_state \<Rightarrow> u8 list" where
  "probe_packet ctl =
     (let hln = unat (sll_halen (ct_me ctl));
          tha = (if ct_advert ctl then own_hw ctl else take hln (sll_addr (ct_he ctl)))
      in arp_bytes (arp_hrd ctl) (arp_pro (arp_hrd ctl)) (sll_halen (ct_me ctl)) 4
           (if ct_advert ctl then ARPOP_REPLY else ARPOP_REQUEST) (own_hw ctl) (ct_gsrc ctl) tha (ct_gdst ctl))"

text \<open>
  The system: a failed call of \<open>poll\<close> gives its error number, otherwise which of the four
  descriptors are ready; a read that does not give its whole object is an error.  \<open>sendto\<close> is given
  the packet and the link-layer address it is sent to.
\<close>

record 'w arp_os =
  ao_clock :: "'w \<Rightarrow> timespec \<times> 'w"
  ao_sendto :: "'w \<Rightarrow> u8 list \<Rightarrow> u8 list \<Rightarrow> int \<times> 'w"
  ao_poll :: "'w \<Rightarrow> (int + bool \<times> bool \<times> bool \<times> bool) \<times> 'w"
  ao_signal :: "'w \<Rightarrow> (int + int) \<times> 'w"
  ao_timer :: "'w \<Rightarrow> (int + u64) \<times> 'w"
  ao_recvfrom :: "'w \<Rightarrow> (int + u8 list \<times> int \<times> sockaddr_ll) \<times> 'w"

text \<open>The buffer of a probe has 256 bytes.\<close>

definition send_pack :: "'w arp_os \<Rightarrow> run_state \<times> 'w \<Rightarrow> (run_state \<times> 'w) result" where
  "send_pack os s =
     (case s of (ctl, w) \<Rightarrow>
        let hln = unat (sll_halen (ct_me ctl)); buf = probe_packet ctl
        in if 8 + 2 * hln + 8 > 256 then stop_with Undefined
           else need hln (sll_addr (ct_me ctl)) (need hln (sll_addr (ct_he ctl))
             (case ao_clock os w of (now, w) \<Rightarrow>
              case ao_sendto os w buf (take hln (sll_addr (ct_he ctl))) of (err, w) \<Rightarrow>
                emit [Sys ''sendto'' (map uint buf)]
                  (if err = int (length buf)
                   then ret (ctl\<lparr>ct_last := now, ct_sent := ct_sent ctl + 1,
                          ct_brd_sent := ct_brd_sent ctl + (if ct_unicasting ctl then 0 else 1)\<rparr>, w)
                   else ret (ctl, w)))))"

subsection \<open>Reception\<close>

definition ah_hrd :: "u8 list \<Rightarrow> u16" where "ah_hrd buf = be16 (buf ! 0) (buf ! 1)"
definition ah_pro :: "u8 list \<Rightarrow> u16" where "ah_pro buf = be16 (buf ! 2) (buf ! 3)"
definition ah_hln :: "u8 list \<Rightarrow> u8" where "ah_hln buf = buf ! 4"
definition ah_pln :: "u8 list \<Rightarrow> u8" where "ah_pln buf = buf ! 5"
definition ah_op :: "u8 list \<Rightarrow> u16" where "ah_op buf = be16 (buf ! 6) (buf ! 7)"

definition src_hw :: "u8 list \<Rightarrow> u8 list" where "src_hw buf = take (unat (ah_hln buf)) (drop 8 buf)"
definition src_ip :: "u8 list \<Rightarrow> u8 list" where "src_ip buf = take 4 (drop (8 + unat (ah_hln buf)) buf)"
definition dst_hw :: "u8 list \<Rightarrow> u8 list" where
  "dst_hw buf = take (unat (ah_hln buf)) (drop (12 + unat (ah_hln buf)) buf)"
definition dst_ip :: "u8 list \<Rightarrow> u8 list" where
  "dst_ip buf = take 4 (drop (12 + 2 * unat (ah_hln buf)) buf)"

text \<open>The checks of the header, and those of the addresses.\<close>

definition arp_filter :: "run_state \<Rightarrow> u8 list \<Rightarrow> int \<Rightarrow> sockaddr_ll \<Rightarrow> bool" where
  "arp_filter ctl buf len src \<longleftrightarrow>
     sll_pkttype src \<in> {PACKET_HOST, PACKET_BROADCAST, PACKET_MULTICAST} \<and>
     ah_op buf \<in> {ARPOP_REQUEST, ARPOP_REPLY} \<and>
     (ah_hrd buf = sll_hatype src \<or> (sll_hatype src = ARPHRD_FDDI \<and> ah_hrd buf = ARPHRD_ETHER)) \<and>
     (if ah_hrd buf = ARPHRD_AX25 \<or> ah_hrd buf = ARPHRD_NETROM then ah_pro buf = AX25_P_IP else ah_pro buf = ETH_P_IP) \<and>
     ah_pln buf = 4 \<and> ah_hln buf = sll_halen (ct_me ctl) \<and> len \<ge> 8 + 2 * (4 + uint (ah_hln buf))"

definition arp_wanted :: "run_state \<Rightarrow> u8 list \<Rightarrow> bool" where
  "arp_wanted ctl buf \<longleftrightarrow>
     (if \<not> ct_dad ctl then src_ip buf = ct_gdst ctl \<and> ct_gsrc ctl = dst_ip buf \<and> dst_hw buf = own_hw ctl
      else src_ip buf = ct_gdst ctl \<and> src_hw buf \<noteq> own_hw ctl \<and>
           (ct_gsrc ctl = zeros 4 \<or> ct_gsrc ctl = dst_ip buf))"

text \<open>The round trip time as it is shown: milliseconds and three digits.\<close>

definition shown_usecs :: "timespec \<Rightarrow> timespec \<Rightarrow> int" where
  "shown_usecs ts sent = (ts_sec ts - ts_sec sent) * 1000000 + (ts_nsec ts - ts_nsec sent + 500) sdiv 1000"

definition shown_time :: "timespec \<Rightarrow> timespec \<Rightarrow> int \<times> int" where
  "shown_time ts sent =
     (let usecs = shown_usecs ts sent; msecs = (usecs + 500) sdiv 1000 in (msecs, usecs - (msecs * 1000 - 500)))"

definition fmt_X02 :: "u8 \<Rightarrow> string" where
  "fmt_X02 b = map (\<lambda>c. if 97 \<le> (of_char c :: nat) then char_of ((of_char c :: nat) - 32) else c) (fmt_0x 2 (unat b))"

fun print_hex :: "u8 list \<Rightarrow> string" where
  "print_hex [] = []"
| "print_hex [b] = fmt_X02 b"
| "print_hex (b # bs) = fmt_X02 b @ '':'' @ print_hex bs"

definition arp_reply_line :: "run_state \<Rightarrow> timespec \<Rightarrow> u8 list \<Rightarrow> sockaddr_ll \<Rightarrow> string" where
  "arp_reply_line ctl ts buf src =
     (let for_ip = (dst_ip buf \<noteq> ct_gsrc ctl)
      in (if sll_pkttype src = PACKET_HOST then ''Unicast'' else ''Broadcast'') @ '' '' @
         (if ah_op buf = ARPOP_REPLY then ''reply'' else ''request'') @ '' from '' @
         inet_ntoa (src_ip buf) @ '' ['' @ print_hex (src_hw buf) @ ''] '' @
         (if for_ip then ''for '' @ inet_ntoa (dst_ip buf) @ '' '' else []) @
         (if dst_hw buf \<noteq> own_hw ctl
          then (if for_ip then [] else ''for '') @ ''['' @ print_hex (dst_hw buf) @ '']'' else []) @
         (if ts_sec (ct_last ctl) \<noteq> 0
          then case shown_time ts (ct_last ctl) of (ms, us) \<Rightarrow> '' '' @ fmt_d ms @ ''.'' @ fmt_0d 3 us @ ''ms'' @ [CHR 0x0A]
          else '' UNSOLICITED?'' @ [CHR 0x0A]))"

text \<open>The counters, and whether this was the last packet.\<close>

definition count_arp :: "run_state \<Rightarrow> u8 list \<Rightarrow> sockaddr_ll \<Rightarrow> run_state \<times> int" where
  "count_arp ctl buf src =
     (let ctl = ctl\<lparr>ct_received := ct_received ctl + 1\<rparr>
      in if ct_timeout ctl \<noteq> 0 \<and> ct_received ctl = ct_count ctl then (ctl, FINAL_PACKS)
         else let ctl = ctl\<lparr>ct_brd_recv := ct_brd_recv ctl + (if sll_pkttype src \<noteq> PACKET_HOST then 1 else 0),
                            ct_req_recv := ct_req_recv ctl + (if ah_op buf = ARPOP_REQUEST then 1 else 0)\<rparr>
              in if ct_quit_on_reply ctl \<or> (ct_count ctl = 0 \<and> ct_received ctl = ct_sent ctl) then (ctl, FINAL_PACKS)
                 else if \<not> ct_broadcast_only ctl
                 then (ctl\<lparr>ct_he := (ct_he ctl)\<lparr>sll_addr := splice 0 (src_hw buf) (sll_addr (ct_he ctl))\<rparr>, ct_unicasting := True\<rparr>, 1)
                 else (ctl, 1))"

definition recv_pack :: "run_state \<Rightarrow> timespec \<Rightarrow> u8 list \<Rightarrow> int \<Rightarrow> sockaddr_ll \<Rightarrow> (run_state \<times> int) result" where
  "recv_pack ctl ts buf len src =
     (if \<not> arp_filter ctl buf len src then ret (ctl, 0)
      else need (unat (ah_hln buf)) (sll_addr (ct_me ctl))
        (if \<not> arp_wanted ctl buf then ret (ctl, 0)
         else emit (if \<not> ct_quiet ctl then [Out (arp_reply_line ctl ts buf src)] else [])
                (need (unat (ah_hln buf)) (sll_addr (ct_he ctl)) (ret (count_arp ctl buf src)))))"

subsection \<open>The end\<close>

definition arp_summary :: "run_state \<Rightarrow> string" where
  "arp_summary ctl =
     ''Sent '' @ fmt_d (ct_sent ctl) @ '' probes ('' @ fmt_d (ct_brd_sent ctl) @ '' broadcast(s))'' @ [CHR 0x0A] @
     ''Received '' @ fmt_d (ct_received ctl) @ '' response(s)'' @
     (if ct_brd_recv ctl \<noteq> 0 \<or> ct_req_recv ctl \<noteq> 0
      then '' ('' @ (if ct_req_recv ctl \<noteq> 0 then fmt_d (ct_req_recv ctl) @ '' request(s)'' else []) @
           (if ct_brd_recv ctl \<noteq> 0
            then (if ct_req_recv ctl \<noteq> 0 then '', '' else []) @ fmt_d (ct_brd_recv ctl) @ '' broadcast(s)'' else []) @ '')''
      else []) @ [CHR 0x0A]"

definition arp_code :: "run_state \<Rightarrow> int" where
  "arp_code ctl =
     (if ct_dad ctl then if ct_received ctl \<noteq> 0 then 1 else 0
      else if ct_unsolicited ctl then 0
      else if ct_timeout ctl \<noteq> 0 \<and> ct_count ctl > 0 \<and> \<not> ct_quit_on_reply ctl
      then if ct_count ctl \<le> ct_received ctl then 0 else 1
      else if ct_received ctl \<noteq> 0 then 0 else 1)"

definition arp_finish :: "run_state \<Rightarrow> int result" where
  "arp_finish ctl = emit (if \<not> ct_quiet ctl then [Out (arp_summary ctl)] else []) (ret (arp_code ctl))"

subsection \<open>The event loop\<close>

text \<open>
  The variables of the loop: the run state, the expirations so far, whether to leave, the world.
\<close>

record 'w arp_loop_state =
  al_ctl :: run_state
  al_expires :: u64
  al_exit :: bool
  al_world :: 'w

definition on_signal :: "'w arp_os \<Rightarrow> 'w arp_loop_state \<Rightarrow> 'w arp_loop_state result" where
  "on_signal os s =
     (case ao_signal os (al_world s) of (r, w) \<Rightarrow>
        let s = s\<lparr>al_world := w\<rparr>
        in case r of
             Inl e \<Rightarrow> emit [Diag e ''could not read signalfd''] (ret s)
           | Inr n \<Rightarrow> if n = 2 \<or> n = 3 \<or> n = 15 then ret (s\<lparr>al_exit := True\<rparr>)
                      else emit [Diag 0 (''unexpected signal: '' @ fmt_d n)] (ret s))"

definition on_timer :: "'w arp_os \<Rightarrow> 'w arp_loop_state \<Rightarrow> 'w arp_loop_state result" where
  "on_timer os s =
     (case ao_timer os (al_world s) of (r, w) \<Rightarrow>
        let s = s\<lparr>al_world := w\<rparr>
        in case r of
             Inl e \<Rightarrow> emit [Diag e ''could not read timerfd''] (ret s)
           | Inr n \<Rightarrow>
               let s = s\<lparr>al_expires := al_expires s + n\<rparr>; ctl = al_ctl s
               in if 0 < ct_count ctl \<and> word_of_int (ct_count ctl) < al_expires s then ret (s\<lparr>al_exit := True\<rparr>)
                  else and_then (send_pack os (ctl, al_world s)) (\<lambda>(ctl, w). ret (s\<lparr>al_ctl := ctl, al_world := w\<rparr>)))"

text \<open>The socket: \<open>True\<close> is to return 2 at once.\<close>

definition on_socket :: "'w arp_os \<Rightarrow> 'w arp_loop_state \<Rightarrow> ('w arp_loop_state \<times> bool) result" where
  "on_socket os s =
     (case ao_recvfrom os (al_world s) of (r, w) \<Rightarrow>
        let s = s\<lparr>al_world := w\<rparr>
        in case r of
             Inl e \<Rightarrow> emit [Diag e ''recvfrom''] (ret (s, e = ENETDOWN))
           | Inr (buf, len, src) \<Rightarrow>
               case ao_clock os (al_world s) of (ts, w) \<Rightarrow>
                 and_then (recv_pack (al_ctl s) ts buf len src) (\<lambda>(ctl, r).
                 ret (s\<lparr>al_ctl := ctl, al_world := w, al_exit := al_exit s \<or> r = FINAL_PACKS\<rparr>, False)))"

definition arp_events :: "'w arp_os \<Rightarrow> bool \<times> bool \<times> bool \<times> bool \<Rightarrow> 'w arp_loop_state \<Rightarrow> ('w arp_loop_state \<times> bool) result" where
  "arp_events os ready s =
     (case ready of (sig, timer, expired, sock) \<Rightarrow>
        and_then (if sig then on_signal os s else ret s) (\<lambda>s.
        and_then (if timer then on_timer os s else ret s) (\<lambda>s.
        let s = (if expired then s\<lparr>al_exit := True\<rparr> else s)
        in if sock then on_socket os s else ret (s, False))))"

fun arp_loop :: "'w arp_os \<Rightarrow> nat \<Rightarrow> 'w arp_loop_state \<Rightarrow> (run_state \<times> int) result" where
  "arp_loop os 0 s = stop_with Out_Of_Fuel"
| "arp_loop os (Suc fuel) s =
     (let leave = (\<lambda>s. and_then (arp_finish (al_ctl s)) (\<lambda>code. ret (al_ctl s, code)))
      in if al_exit s \<or> (ct_sent (al_ctl s) = ct_count (al_ctl s) \<and> ct_unsolicited (al_ctl s)) then leave s
         else case ao_poll os (al_world s) of (r, w) \<Rightarrow>
           let s = s\<lparr>al_world := w\<rparr>
           in case r of
                Inl e \<Rightarrow> if e = EAGAIN then arp_loop os fuel s
                         else emit (if e \<noteq> 0 then [Diag e ''poll failed''] else []) (leave s)
              | Inr ready \<Rightarrow>
                  and_then (arp_events os ready s) (\<lambda>(s, down).
                    if down then ret (al_ctl s, 2) else arp_loop os fuel s))"

text \<open>The descriptors are made first: the error number of each call in turn, 0 for success.\<close>

fun arp_descriptors :: "(string \<times> int) list \<Rightarrow> bool result" where
  "arp_descriptors [] = ret True"
| "arp_descriptors ((msg, e) # es) = (if e \<noteq> 0 then emit [Diag e msg] (ret False) else arp_descriptors es)"

definition arp_descriptor_calls :: "(nat \<Rightarrow> int) \<Rightarrow> (string \<times> int) list" where
  "arp_descriptor_calls e =
     [(''sigprocmask failed'', e 0), (''signalfd'', e 1), (''timerfd_create failed'', e 2), (''timerfd_settime failed'', e 3),
      (''timerfd_create failed'', e 4), (''timerfd_settime failed'', e 5)]"

definition event_loop :: "'w arp_os \<Rightarrow> (nat \<Rightarrow> int) \<Rightarrow> nat \<Rightarrow> run_state \<Rightarrow> 'w \<Rightarrow> (run_state \<times> int) result" where
  "event_loop os descr fuel ctl w =
     and_then (arp_descriptors (arp_descriptor_calls descr)) (\<lambda>ok.
       if \<not> ok then ret (ctl, 1)
       else and_then (send_pack os (ctl, w)) (\<lambda>(ctl, w).
            arp_loop os fuel \<lparr>al_ctl = ctl, al_expires = 1, al_exit = False, al_world = w\<rparr>))"

subsection \<open>What is accepted\<close>

lemma ah_arp_bytes [simp]:
  "ah_hrd (arp_bytes hrd pro hln pln op sha spa tha tpa @ rest) = hrd"
  "ah_pro (arp_bytes hrd pro hln pln op sha spa tha tpa @ rest) = pro"
  "ah_hln (arp_bytes hrd pro hln pln op sha spa tha tpa @ rest) = hln"
  "ah_pln (arp_bytes hrd pro hln pln op sha spa tha tpa @ rest) = pln"
  "ah_op (arp_bytes hrd pro hln pln op sha spa tha tpa @ rest) = op"
  by (simp_all add: arp_bytes_def be16_bytes_def ah_hrd_def ah_pro_def ah_hln_def ah_pln_def ah_op_def)

lemma addresses_arp_bytes:
  assumes "length sha = unat hln" "length spa = 4" "length tha = unat hln" "length tpa = 4"
  shows "src_hw (arp_bytes hrd pro hln pln op sha spa tha tpa @ rest) = sha"
    "src_ip (arp_bytes hrd pro hln pln op sha spa tha tpa @ rest) = spa"
    "dst_hw (arp_bytes hrd pro hln pln op sha spa tha tpa @ rest) = tha"
    "dst_ip (arp_bytes hrd pro hln pln op sha spa tha tpa @ rest) = tpa"
proof -
  define h where "h = be16_bytes hrd @ be16_bytes pro @ [hln, pln] @ be16_bytes op"
  have "arp_bytes hrd pro hln pln op sha spa tha tpa @ rest = h @ sha @ spa @ tha @ tpa @ rest" "length h = 8"
    by (simp_all add: h_def arp_bytes_def be16_bytes_def)
  then show "src_hw (arp_bytes hrd pro hln pln op sha spa tha tpa @ rest) = sha"
    "src_ip (arp_bytes hrd pro hln pln op sha spa tha tpa @ rest) = spa"
    "dst_hw (arp_bytes hrd pro hln pln op sha spa tha tpa @ rest) = tha"
    "dst_ip (arp_bytes hrd pro hln pln op sha spa tha tpa @ rest) = tpa"
    using assms unfolding src_hw_def src_ip_def dst_hw_def dst_ip_def ah_arp_bytes by simp_all
qed

text \<open>A packet by its fields, as the kernel delivers it: who it must be from and to.\<close>

definition arp_link_ok :: "sockaddr_ll \<Rightarrow> u16 \<Rightarrow> u16 \<Rightarrow> u16 \<Rightarrow> bool" where
  "arp_link_ok src hrd pro op \<longleftrightarrow>
     sll_pkttype src \<in> {PACKET_HOST, PACKET_BROADCAST, PACKET_MULTICAST} \<and> op \<in> {ARPOP_REQUEST, ARPOP_REPLY} \<and>
     (hrd = sll_hatype src \<or> (sll_hatype src = ARPHRD_FDDI \<and> hrd = ARPHRD_ETHER)) \<and> pro = arp_pro hrd"

definition arp_for_us :: "run_state \<Rightarrow> u8 list \<Rightarrow> u8 list \<Rightarrow> u8 list \<Rightarrow> u8 list \<Rightarrow> bool" where
  "arp_for_us ctl sha spa tha tpa \<longleftrightarrow> spa = ct_gdst ctl \<and>
     (if ct_dad ctl then sha \<noteq> own_hw ctl \<and> (ct_gsrc ctl = zeros 4 \<or> tpa = ct_gsrc ctl)
      else tpa = ct_gsrc ctl \<and> tha = own_hw ctl)"

lemma received_count_arp [simp]: "ct_received (fst (count_arp ctl buf src)) = ct_received ctl + 1"
  by (simp add: count_arp_def Let_def)

lemma recv_pack_fields:
  fixes hrd pro op :: u16 and hln pln :: u8 and sha spa tha tpa rest :: "u8 list"
  assumes "length sha = unat hln" "length spa = 4" "length tha = unat hln" "length tpa = 4"
    and "unat (sll_halen (ct_me ctl)) \<le> length (sll_addr (ct_me ctl))"
    and "unat (sll_halen (ct_me ctl)) \<le> length (sll_addr (ct_he ctl))"
  defines "buf \<equiv> arp_bytes hrd pro hln pln op sha spa tha tpa @ rest"
  shows "\<exists>es. recv_pack ctl ts buf len src = emit es (ret
    (if arp_link_ok src hrd pro op \<and> pln = 4 \<and> hln = sll_halen (ct_me ctl) \<and> 8 + 2 * (4 + uint hln) \<le> len \<and> arp_for_us ctl sha spa tha tpa
     then count_arp ctl buf src else (ctl, 0)))"
proof -
  have filt: "arp_filter ctl buf len src \<longleftrightarrow> arp_link_ok src hrd pro op \<and> pln = 4 \<and> hln = sll_halen (ct_me ctl) \<and> 8 + 2 * (4 + uint hln) \<le> len"
    by (auto simp: arp_filter_def arp_link_ok_def arp_pro_def buf_def)
  have want: "arp_wanted ctl buf \<longleftrightarrow> arp_for_us ctl sha spa tha tpa"
    using addresses_arp_bytes [OF assms(1-4), of hrd pro pln op rest] by (auto simp: arp_wanted_def arp_for_us_def buf_def)
  have hln: "ah_hln buf = hln" by (simp add: buf_def)
  show ?thesis
    using assms(5,6) unfolding recv_pack_def filt want hln need_def
    by (auto simp: emit_def ret_def)
qed

text \<open>
  C14: \<open>arping\<close> counts a packet exactly if it is an ARP request or reply for IPv4 on this kind of link
  whose sender has the address asked for and, when looking for a duplicate address, another hardware
  address (and, if a source was given, is talking to it), otherwise whose receiver is this host, by IP
  and hardware address; any other packet leaves the state as it is.  So the reply that the host with
  the address sends to the probe is counted.
\<close>

theorem arp_counted:
  assumes "length sha = unat hln" "length spa = 4" "length tha = unat hln" "length tpa = 4"
    and "unat (sll_halen (ct_me ctl)) \<le> length (sll_addr (ct_me ctl))" "unat (sll_halen (ct_me ctl)) \<le> length (sll_addr (ct_he ctl))"
    and "returns (recv_pack ctl ts (arp_bytes hrd pro hln pln op sha spa tha tpa @ rest) len src) (ctl', r)"
  shows "(ct_received ctl' = ct_received ctl + 1 \<longleftrightarrow>
      arp_link_ok src hrd pro op \<and> pln = 4 \<and> hln = sll_halen (ct_me ctl) \<and> 16 + 2 * uint hln \<le> len \<and> arp_for_us ctl sha spa tha tpa) \<and>
    (ct_received ctl' = ct_received ctl + 1 \<or> ctl' = ctl \<and> r = 0) \<and>
    (\<not> ct_dad ctl \<and> spa = ct_gdst ctl \<and> tpa = ct_gsrc ctl \<and> tha = own_hw ctl \<and> hrd = arp_hrd ctl \<and> pro = arp_pro hrd \<and>
     hln = sll_halen (ct_me ctl) \<and> pln = 4 \<and> op = ARPOP_REPLY \<and> 16 + 2 * uint hln \<le> len \<and>
     sll_hatype src = sll_hatype (ct_me ctl) \<and> sll_pkttype src = PACKET_HOST \<longrightarrow> ct_received ctl' = ct_received ctl + 1)"
proof -
  let ?ok = "arp_link_ok src hrd pro op \<and> pln = 4 \<and> hln = sll_halen (ct_me ctl) \<and> 16 + 2 * uint hln \<le> len \<and> arp_for_us ctl sha spa tha tpa"
  have "(ctl', r) = (if ?ok then count_arp ctl (arp_bytes hrd pro hln pln op sha spa tha tpa @ rest) src else (ctl, 0))"
    using recv_pack_fields [OF assms(1-6), where hrd = hrd and pro = pro and pln = pln and op = op and rest = rest and ts = ts and len = len and src = src] assms(7) by (auto simp: algebra_simps split: if_splits)
  then have "ctl' = (if ?ok then fst (count_arp ctl (arp_bytes hrd pro hln pln op sha spa tha tpa @ rest) src) else ctl)"
    "r = (if ?ok then snd (count_arp ctl (arp_bytes hrd pro hln pln op sha spa tha tpa @ rest) src) else 0)"
    by (metis fst_conv, metis snd_conv)
  then have r: "ct_received ctl' = ct_received ctl + (if ?ok then 1 else 0)" "\<not> ?ok \<Longrightarrow> ctl' = ctl \<and> r = 0" by auto
  have "arp_link_ok src hrd pro op" if "hrd = arp_hrd ctl" "pro = arp_pro hrd" "op = ARPOP_REPLY"
      "sll_hatype src = sll_hatype (ct_me ctl)" "sll_pkttype src = PACKET_HOST"
    using that by (auto simp: arp_link_ok_def arp_hrd_def)
  then show ?thesis using r by (auto simp: arp_for_us_def)
qed

subsection \<open>The time that is shown\<close>

text \<open>
  C40: the time shown for a reply is half a millisecond longer than the time that passed, rounded to
  microseconds: the rounding of the milliseconds is added to the microseconds once more.
\<close>

theorem arp_time_shown:
  assumes "0 \<le> shown_usecs ts sent" "shown_time ts sent = (ms, us)"
  shows "1000 * ms + us = shown_usecs ts sent + 500 \<and> 0 \<le> us \<and> us < 1000"
proof -
  define u where "u = shown_usecs ts sent"
  have "(u + 500) sdiv 1000 = (u + 500) div 1000"
    using assms(1) by (simp add: signed_divide_int_def u_def)
  then have "ms = (u + 500) div 1000" "us = u + 500 - 1000 * ((u + 500) div 1000)"
    using assms(2) by (auto simp: shown_time_def Let_def u_def)
  moreover have "u + 500 - 1000 * ((u + 500) div 1000) = (u + 500) mod 1000"
    by (simp add: minus_mult_div_eq_mod)
  ultimately show ?thesis by (simp add: u_def)
qed

text \<open>An answer after 200 microseconds is shown as 0.700 ms.\<close>

theorem arp_time_shown_witness:
  "shown_time \<lparr>ts_sec = 7, ts_nsec = 200000\<rparr> \<lparr>ts_sec = 7, ts_nsec = 0\<rparr> = (0, 700) \<and> 0 \<le> (700::int) \<and> (700::int) < 1000"
proof -
  have u: "shown_usecs \<lparr>ts_sec = 7, ts_nsec = 200000\<rparr> \<lparr>ts_sec = 7, ts_nsec = 0\<rparr> = 200"
    by (simp add: shown_usecs_def signed_divide_int_def)
  have s: "shown_time \<lparr>ts_sec = 7, ts_nsec = 200000\<rparr> \<lparr>ts_sec = 7, ts_nsec = 0\<rparr> = (0, 700)"
    by (simp add: shown_time_def u signed_divide_int_def)
  show ?thesis using arp_time_shown [OF _ s] u s by simp
qed

subsection \<open>Every run\<close>

text \<open>
  What the counters of a run satisfy; and, in the loop, how the expirations of the timer bound the
  number of probes.
\<close>

definition arp_counts :: "run_state \<Rightarrow> bool" where
  "arp_counts ctl \<longleftrightarrow> 0 \<le> ct_brd_sent ctl \<and> ct_brd_sent ctl \<le> ct_sent ctl \<and>
     0 \<le> ct_brd_recv ctl \<and> ct_brd_recv ctl \<le> ct_received ctl \<and> 0 \<le> ct_req_recv ctl \<and> ct_req_recv ctl \<le> ct_received ctl \<and>
     (0 < ct_count ctl \<longrightarrow> ct_sent ctl \<le> ct_count ctl)"

definition arp_fixed :: "run_state \<Rightarrow> int \<times> bool \<times> bool \<times> bool \<times> int" where
  "arp_fixed ctl = (ct_count ctl, ct_dad ctl, ct_unsolicited ctl, ct_quit_on_reply ctl, ct_timeout ctl)"

definition arp_loop_inv :: "run_state \<Rightarrow> 'w arp_loop_state \<Rightarrow> bool" where
  "arp_loop_inv ctl0 s \<longleftrightarrow> arp_counts (al_ctl s) \<and> arp_fixed (al_ctl s) = arp_fixed ctl0 \<and>
     (0 < ct_count ctl0 \<longrightarrow> ct_sent (al_ctl s) \<le> uint (al_expires s) \<and> (al_exit s \<or> uint (al_expires s) \<le> ct_count ctl0)) \<and>
     (ct_quit_on_reply ctl0 \<longrightarrow> ct_received (al_ctl s) = 0 \<or> al_exit s \<and> ct_received (al_ctl s) = 1)"

lemma arp_fixed_eqD:
  assumes "arp_fixed c = arp_fixed d"
  shows "ct_count c = ct_count d" "ct_dad c = ct_dad d" "ct_unsolicited c = ct_unsolicited d"
    "ct_quit_on_reply c = ct_quit_on_reply d" "ct_timeout c = ct_timeout d"
  using assms by (simp_all add: arp_fixed_def)

lemma send_pack_counts:
  assumes "arp_counts ctl" "0 < ct_count ctl \<Longrightarrow> ct_sent ctl < ct_count ctl"
  shows "yields (send_pack os (ctl, w)) (\<lambda>(c, w). arp_counts c \<and> arp_fixed c = arp_fixed ctl \<and>
    ct_sent c \<le> ct_sent ctl + 1 \<and> ct_received c = ct_received ctl)"
  using assms by (auto simp: send_pack_def arp_counts_def arp_fixed_def Let_def need_def split: prod.split)

text \<open>The timer gives at least one expiration when it is read.\<close>

definition timer_ok :: "'w arp_os \<Rightarrow> bool" where
  "timer_ok os \<longleftrightarrow> (\<forall>w n w'. ao_timer os w = (Inr n, w') \<longrightarrow> 1 \<le> uint n \<and> uint n < 2 ^ 63)"

lemma on_signal_inv:
  "arp_loop_inv c s \<Longrightarrow> yields (on_signal os s) (\<lambda>t. arp_loop_inv c t \<and> ct_received (al_ctl t) = ct_received (al_ctl s) \<and> al_expires t = al_expires s)"
  by (auto simp: on_signal_def arp_loop_inv_def Let_def split: prod.split sum.split)

lemma on_timer_inv:
  fixes os :: "'w arp_os"
  assumes inv: "arp_loop_inv c s" and ok: "timer_ok os" and c: "ct_count c \<le> int_max"
    and exp: "0 < ct_count c \<Longrightarrow> uint (al_expires s) \<le> ct_count c"
  shows "yields (on_timer os s) (\<lambda>t. arp_loop_inv c t \<and> ct_received (al_ctl t) = ct_received (al_ctl s))"
proof -
  obtain r w where t: "ao_timer os (al_world s) = (r, w)" by fastforce
  show ?thesis
  proof (cases r)
    case (Inl e)
    then show ?thesis using inv t by (simp add: on_timer_def arp_loop_inv_def Let_def)
  next
    case (Inr n)
    define u where "u = s\<lparr>al_world := w, al_expires := al_expires s + n\<rparr>"
    have n: "1 \<le> uint n" "uint n < 2 ^ 63" using ok t Inr by (auto simp: timer_ok_def)
    have e: "uint (al_expires s + n) = uint (al_expires s) + uint n" if "0 < ct_count c"
      using exp [OF that] c n by (simp add: uint_add_lem [THEN iffD1] int_max_def)
    have cnt: "ct_count (al_ctl s) = ct_count c" using inv by (simp add: arp_loop_inv_def arp_fixed_def)
    have lim: "uint (word_of_int (ct_count c) :: u64) = ct_count c" if "0 < ct_count c"
      using that c by (simp add: uint_word_of_int int_max_def)
    show ?thesis
    proof (cases "0 < ct_count c \<and> word_of_int (ct_count c) < al_expires s + n")
      case True
      have "arp_loop_inv c (u\<lparr>al_exit := True\<rparr>)" using inv e n by (auto simp: arp_loop_inv_def u_def)
      then show ?thesis using True t Inr cnt by (simp add: on_timer_def u_def Let_def)
    next
      case False
      have lt: "0 < ct_count (al_ctl s) \<Longrightarrow> ct_sent (al_ctl s) < ct_count (al_ctl s)"
        using False inv e n lim unfolding cnt word_less_def by (auto simp: arp_loop_inv_def)
      have "yields (send_pack os (al_ctl s, w)) (\<lambda>(d, w). arp_counts d \<and> arp_fixed d = arp_fixed (al_ctl s) \<and>
          ct_sent d \<le> ct_sent (al_ctl s) + 1 \<and> ct_received d = ct_received (al_ctl s))"
        by (rule send_pack_counts) (use inv lt in \<open>auto simp: arp_loop_inv_def\<close>)
      then have "yields (and_then (send_pack os (al_ctl s, w)) (\<lambda>(d, w). ret (u\<lparr>al_ctl := d, al_world := w\<rparr>)))
          (\<lambda>t. arp_loop_inv c t \<and> ct_received (al_ctl t) = ct_received (al_ctl s))"
      proof (rule yields_and_then, clarify)
        fix d and w' :: 'w assume "arp_counts d" "arp_fixed d = arp_fixed (al_ctl s)" "ct_sent d \<le> ct_sent (al_ctl s) + 1"
          "ct_received d = ct_received (al_ctl s)"
        then have "arp_loop_inv c (u\<lparr>al_ctl := d, al_world := w'\<rparr>) \<and> ct_received d = ct_received (al_ctl s)"
          using inv e n False lim unfolding word_less_def by (auto simp: arp_loop_inv_def u_def not_less)
        then show "yields (ret (u\<lparr>al_ctl := d, al_world := w'\<rparr>)) (\<lambda>t. arp_loop_inv c t \<and> ct_received (al_ctl t) = ct_received (al_ctl s))"
          by simp
      qed
      moreover have "\<not> (0 < ct_count (al_ctl s) \<and> word_of_int (ct_count (al_ctl s)) < al_expires s + n)"
        using False cnt by simp
      ultimately show ?thesis using t Inr unfolding on_timer_def u_def by (simp add: Let_def if_not_P)
    qed
  qed
qed

lemma count_arp_counts:
  assumes "count_arp ctl buf src = (c, r)" "arp_counts ctl"
  shows "arp_counts c" "arp_fixed c = arp_fixed ctl" "ct_sent c = ct_sent ctl" "ct_received c = ct_received ctl + 1"
    "ct_quit_on_reply ctl \<Longrightarrow> r = FINAL_PACKS"
proof -
  have c: "c = fst (count_arp ctl buf src)" "r = snd (count_arp ctl buf src)" using assms(1) by simp_all
  have f: "ct_sent c = ct_sent ctl" "ct_received c = ct_received ctl + 1" "ct_brd_sent c = ct_brd_sent ctl"
    "ct_count c = ct_count ctl" "arp_fixed c = arp_fixed ctl"
    unfolding c count_arp_def arp_fixed_def by (simp_all add: Let_def)
  have b: "ct_brd_recv ctl \<le> ct_brd_recv c" "ct_brd_recv c \<le> ct_brd_recv ctl + 1"
    "ct_req_recv ctl \<le> ct_req_recv c" "ct_req_recv c \<le> ct_req_recv ctl + 1"
    unfolding c count_arp_def by (simp_all add: Let_def)
  show "arp_counts c" using f b assms(2) unfolding arp_counts_def by linarith
  show "arp_fixed c = arp_fixed ctl" "ct_sent c = ct_sent ctl" "ct_received c = ct_received ctl + 1" by (fact f)+
  show "r = FINAL_PACKS" if "ct_quit_on_reply ctl" using that unfolding c count_arp_def by (simp add: Let_def)
qed

lemma on_socket_inv:
  assumes inv: "arp_loop_inv c s" and quit: "ct_quit_on_reply c \<Longrightarrow> ct_received (al_ctl s) = 0"
  shows "yields (on_socket os s) (\<lambda>(s, down). arp_loop_inv c s)"
proof -
  have "yields (recv_pack (al_ctl s) ts buf len src) (\<lambda>(d, r). arp_loop_inv c (s\<lparr>al_ctl := d, al_world := w, al_exit := al_exit s \<or> r = FINAL_PACKS\<rparr>))"
    for ts buf len src w
  proof -
    obtain d r where d: "count_arp (al_ctl s) buf src = (d, r)" by fastforce
    have "arp_loop_inv c (s\<lparr>al_ctl := d, al_world := w, al_exit := al_exit s \<or> r = FINAL_PACKS\<rparr>)"
      using count_arp_counts [OF d] inv quit by (auto simp: arp_loop_inv_def arp_fixed_def)
    moreover have "arp_loop_inv c (s\<lparr>al_world := w, al_exit := al_exit s \<or> (0::int) = FINAL_PACKS\<rparr>)"
      using inv by (auto simp: arp_loop_inv_def FINAL_PACKS_def)
    ultimately show ?thesis using inv by (auto simp: recv_pack_def need_def d arp_loop_inv_def FINAL_PACKS_def)
  qed
  then show ?thesis
    using inv by (auto simp: on_socket_def arp_loop_inv_def Let_def split: prod.split sum.split
        intro!: yields_and_then [where m = "recv_pack _ _ _ _ _"])
qed

lemma arp_events_inv:
  fixes os :: "'w arp_os" and s :: "'w arp_loop_state"
  assumes inv: "arp_loop_inv c s" and ok: "timer_ok os" and c: "ct_count c \<le> int_max" and run: "\<not> al_exit s"
  shows "yields (arp_events os ready s) (\<lambda>(s, down). arp_loop_inv c s)"
proof -
  obtain sig timer expired sock where r: "ready = (sig, timer, expired, sock)" by (cases ready)
  have zero: "ct_received (al_ctl s) = 0" if "ct_quit_on_reply c" using inv that run by (auto simp: arp_loop_inv_def)
  have exp: "uint (al_expires s) \<le> ct_count c" if "0 < ct_count c" using inv that run by (auto simp: arp_loop_inv_def)
  have "yields (if sig then on_signal os s else ret s)
      (\<lambda>t. arp_loop_inv c t \<and> ct_received (al_ctl t) = ct_received (al_ctl s) \<and> al_expires t = al_expires s)"
    using inv on_signal_inv [OF inv] by simp
  then show ?thesis
    unfolding arp_events_def r prod.case
  proof (rule yields_and_then)
    fix t :: "'w arp_loop_state"
    assume t: "arp_loop_inv c t \<and> ct_received (al_ctl t) = ct_received (al_ctl s) \<and> al_expires t = al_expires s"
    have "yields (if timer then on_timer os t else ret t)
        (\<lambda>u. arp_loop_inv c u \<and> ct_received (al_ctl u) = ct_received (al_ctl s))"
      using on_timer_inv [of c t os, OF _ ok c] exp t by simp
    then show "yields (and_then (if timer then on_timer os t else ret t) (\<lambda>s.
        let s = (if expired then s\<lparr>al_exit := True\<rparr> else s) in if sock then on_socket os s else ret (s, False)))
        (\<lambda>(s, down). arp_loop_inv c s)"
    proof (rule yields_and_then)
      fix u :: "'w arp_loop_state"
      assume u: "arp_loop_inv c u \<and> ct_received (al_ctl u) = ct_received (al_ctl s)"
      define v where "v = (if expired then u\<lparr>al_exit := True\<rparr> else u)"
      have "arp_loop_inv c v" "ct_quit_on_reply c \<Longrightarrow> ct_received (al_ctl v) = 0"
        using u zero by (auto simp: v_def arp_loop_inv_def)
      then show "yields (let s = (if expired then u\<lparr>al_exit := True\<rparr> else u) in if sock then on_socket os s else ret (s, False))
          (\<lambda>(s, down). arp_loop_inv c s)"
        using on_socket_inv [of c v os] unfolding v_def [symmetric] by (simp add: Let_def)
    qed
  qed
qed

text \<open>What the code at the end says.\<close>

definition arp_verdict :: "run_state \<Rightarrow> int \<Rightarrow> bool" where
  "arp_verdict ctl code \<longleftrightarrow> code \<in> {0, 1} \<and>
     (ct_dad ctl \<longrightarrow> (code = 0 \<longleftrightarrow> ct_received ctl = 0)) \<and>
     (\<not> ct_dad ctl \<and> \<not> ct_unsolicited ctl \<and> code = 0 \<longrightarrow> 0 < ct_received ctl \<and>
        (ct_timeout ctl \<noteq> 0 \<and> 0 < ct_count ctl \<and> \<not> ct_quit_on_reply ctl \<longrightarrow> ct_count ctl \<le> ct_received ctl))"

lemma arp_finish_verdict:
  assumes "arp_counts ctl" shows "yields (arp_finish ctl) (arp_verdict ctl)"
  using assms by (auto simp: arp_finish_def arp_code_def arp_verdict_def arp_counts_def)

definition arp_end_ok :: "run_state \<Rightarrow> run_state \<times> int \<Rightarrow> bool" where
  "arp_end_ok ctl0 e \<longleftrightarrow> (case e of (ctl, code) \<Rightarrow> arp_counts ctl \<and> arp_fixed ctl = arp_fixed ctl0 \<and>
     (ct_quit_on_reply ctl \<longrightarrow> ct_received ctl \<le> 1) \<and> (code = 2 \<or> arp_verdict ctl code))"

lemma leave_ok:
  assumes "arp_loop_inv c s"
  shows "yields (and_then (arp_finish (al_ctl s)) (\<lambda>code. ret (al_ctl s, code))) (arp_end_ok c)"
proof (rule yields_and_then [OF arp_finish_verdict])
  show counts: "arp_counts (al_ctl s)" using assms by (simp add: arp_loop_inv_def)
  fix code assume "arp_verdict (al_ctl s) code"
  moreover have "ct_quit_on_reply (al_ctl s) \<longrightarrow> ct_received (al_ctl s) \<le> 1" "arp_fixed (al_ctl s) = arp_fixed c"
    using assms by (auto simp: arp_loop_inv_def arp_fixed_def)
  ultimately show "yields (ret (al_ctl s, code)) (arp_end_ok c)" using counts by (simp add: arp_end_ok_def)
qed

lemma arp_loop_ok:
  fixes os :: "'w arp_os"
  assumes "arp_loop_inv c s" "timer_ok os" "ct_count c \<le> int_max"
  shows "yields (arp_loop os fuel s) (arp_end_ok c)"
  using assms(1)
proof (induction fuel arbitrary: s)
  case 0
  then show ?case by simp
next
  case (Suc fuel)
  obtain r w where poll: "ao_poll os (al_world s) = (r, w)" by fastforce
  define t where "t = s\<lparr>al_world := w\<rparr>"
  have t: "arp_loop_inv c t" using Suc.prems by (simp add: t_def arp_loop_inv_def)
  have down: "yields (ret (al_ctl u, 2)) (arp_end_ok c)" if "arp_loop_inv c u" for u :: "'w arp_loop_state"
    using that by (auto simp: arp_loop_inv_def arp_end_ok_def arp_fixed_def)
  have round: "yields (and_then (arp_events os ready t) (\<lambda>(s, down). if down then ret (al_ctl s, 2) else arp_loop os fuel s)) (arp_end_ok c)"
    if "\<not> al_exit s" for ready
    by (rule yields_and_then [OF arp_events_inv [OF t assms(2,3)]])
      (use that down Suc.IH in \<open>auto simp: t_def split: prod.splits\<close>)
  show ?case
    using leave_ok [OF Suc.prems] leave_ok [OF t] Suc.IH [OF t] round
    by (simp add: Let_def poll flip: t_def split: sum.split)
qed

lemma event_loop_ok:
  fixes os :: "'w arp_os" and w :: 'w
  assumes "ct_sent ctl = 0" "ct_brd_sent ctl = 0" "ct_received ctl = 0" "ct_brd_recv ctl = 0" "ct_req_recv ctl = 0"
    and "timer_ok os" "ct_count ctl \<le> int_max"
  shows "yields (event_loop os descr fuel ctl w) (\<lambda>(c, code). code = 1 \<and> c = ctl \<or> arp_end_ok ctl (c, code))"
proof -
  have "yields (send_pack os (ctl, w)) (\<lambda>(c, w). arp_counts c \<and> arp_fixed c = arp_fixed ctl \<and>
      ct_sent c \<le> ct_sent ctl + 1 \<and> ct_received c = ct_received ctl)"
    using assms(1-5) by (intro send_pack_counts) (auto simp: arp_counts_def)
  then have "yields (and_then (send_pack os (ctl, w)) (\<lambda>(ctl, w). arp_loop os fuel \<lparr>al_ctl = ctl, al_expires = 1, al_exit = False, al_world = w\<rparr>))
      (arp_end_ok ctl)"
  proof (rule yields_and_then, clarify)
    fix c and w' :: 'w assume "arp_counts c" "arp_fixed c = arp_fixed ctl" "ct_sent c \<le> ct_sent ctl + 1" "ct_received c = ct_received ctl"
    then have "arp_loop_inv ctl \<lparr>al_ctl = c, al_expires = 1, al_exit = False, al_world = w'\<rparr>"
      using assms(1,3) by (auto simp: arp_loop_inv_def)
    then show "yields (arp_loop os fuel \<lparr>al_ctl = c, al_expires = 1, al_exit = False, al_world = w'\<rparr>) (arp_end_ok ctl)"
      by (rule arp_loop_ok [OF _ assms(6,7)])
  qed
  then have run: "yields (and_then (send_pack os (ctl, w)) (\<lambda>(ctl, w). arp_loop os fuel \<lparr>al_ctl = ctl, al_expires = 1, al_exit = False, al_world = w\<rparr>))
      (\<lambda>(c, code). code = 1 \<and> c = ctl \<or> arp_end_ok ctl (c, code))"
    by (rule yields_mono) auto
  then show ?thesis
    unfolding event_loop_def by (intro yields_then_any) simp
qed

text \<open>
  The timer fires: at most \<open>K\<close> calls of \<open>poll\<close> in a row return without it, which \<open>m\<close> counts down,
  and reading it succeeds.
\<close>

definition timer_fires :: "'w arp_os \<Rightarrow> nat \<Rightarrow> ('w \<Rightarrow> nat) \<Rightarrow> bool" where
  "timer_fires os K m \<longleftrightarrow> timer_ok os \<and> (\<forall>w. m w \<le> K) \<and>
     (\<forall>w. case ao_poll os w of (Inl e, w') \<Rightarrow> m w' < m w | (Inr (sig, timer, expired, sock), w') \<Rightarrow> timer \<or> m w' < m w) \<and>
     (\<forall>w. \<exists>n w'. ao_timer os w = (Inr n, w')) \<and>
     (\<forall>w. m (snd (ao_signal os w)) \<le> m w) \<and> (\<forall>w. m (snd (ao_recvfrom os w)) \<le> m w) \<and> (\<forall>w. m (snd (ao_clock os w)) \<le> m w)"

lemma timer_firesD:
  assumes "timer_fires os K m"
  shows "timer_ok os" "m w \<le> K" "\<exists>n w'. ao_timer os w = (Inr n, w')" "m (snd (ao_signal os w)) \<le> m w"
    "m (snd (ao_recvfrom os w)) \<le> m w" "m (snd (ao_clock os w)) \<le> m w"
  using assms by (auto simp: timer_fires_def)

lemma send_pack_ends [simp]: "ends (send_pack os s)"
  by (auto simp: send_pack_def Let_def split: prod.split)

lemma arp_events_ends [simp]: "ends (arp_events os ready s)"
proof -
  have r: "ends (recv_pack ctl ts buf len src)" for ctl ts buf len src by (simp add: recv_pack_def)
  have "ends (on_signal os s)" "ends (on_timer os s)" "ends (on_socket os s)" for s
    by (auto simp: on_signal_def on_timer_def on_socket_def Let_def r split: prod.split sum.split intro!: ends_seq)
  then show ?thesis unfolding arp_events_def Let_def by (auto intro!: ends_seq split: prod.split)
qed

definition timer_read :: "run_state \<Rightarrow> u64 \<Rightarrow> 'w arp_loop_state \<Rightarrow> bool" where
  "timer_read c e t \<longleftrightarrow> al_exit t \<or> (0 < ct_count c \<longrightarrow> uint e < uint (al_expires t))"

lemma on_timer_reads:
  fixes os :: "'w arp_os"
  assumes "timer_fires os K m" "0 < ct_count c \<Longrightarrow> uint (al_expires s) \<le> ct_count c" "ct_count c \<le> int_max"
  shows "yields (on_timer os s) (timer_read c (al_expires s))"
proof -
  obtain n w where t: "ao_timer os (al_world s) = (Inr n, w)" using timer_firesD(3) [OF assms(1)] by blast
  have n: "1 \<le> uint n" "uint n < 2 ^ 63" using timer_firesD(1) [OF assms(1)] t by (auto simp: timer_ok_def)
  have e: "uint (al_expires s + n) = uint (al_expires s) + uint n" if "0 < ct_count c"
    using assms(2) [OF that] assms(3) n by (simp add: uint_add_lem [THEN iffD1] int_max_def)
  show ?thesis
    using e n by (auto simp: on_timer_def t Let_def timer_read_def split: prod.split intro!: yields_then_any)
qed

lemma arp_events_timer:
  fixes os :: "'w arp_os"
  assumes "timer_fires os K m" "0 < ct_count c \<Longrightarrow> uint (al_expires s) \<le> ct_count c" "ct_count c \<le> int_max"
  shows "yields (arp_events os (sig, True, expired, sock) s) (\<lambda>(t, down). timer_read c (al_expires s) t)"
proof -
  have "yields (if sig then on_signal os s else ret s) (\<lambda>t. al_expires t = al_expires s)"
    by (auto simp: on_signal_def Let_def split: prod.split sum.split)
  then show ?thesis
    unfolding arp_events_def prod.case
  proof (rule yields_and_then)
    fix t :: "'w arp_loop_state"
    assume t: "al_expires t = al_expires s"
    have "yields (on_timer os t) (timer_read c (al_expires s))"
      using on_timer_reads [OF assms(1) _ assms(3), of t] assms(2) by (simp add: t)
    then show "yields (and_then (if True then on_timer os t else ret t) (\<lambda>s.
        let s = (if expired then s\<lparr>al_exit := True\<rparr> else s) in if sock then on_socket os s else ret (s, False)))
        (\<lambda>(t, down). timer_read c (al_expires s) t)"
      unfolding if_True
    proof (rule yields_and_then)
      fix u :: "'w arp_loop_state" assume "timer_read c (al_expires s) u"
      then have "timer_read c (al_expires s) (if expired then u\<lparr>al_exit := True\<rparr> else u)" by (simp add: timer_read_def)
      moreover have "yields (on_socket os v) (\<lambda>(t, down). timer_read c (al_expires s) t)" if "timer_read c (al_expires s) v" for v
        using that by (auto simp: on_socket_def Let_def timer_read_def split: prod.split sum.split intro!: yields_then_any)
      ultimately show "yields (let s = (if expired then u\<lparr>al_exit := True\<rparr> else u) in if sock then on_socket os s else ret (s, False))
          (\<lambda>(t, down). timer_read c (al_expires s) t)"
        by (simp add: Let_def)
    qed
  qed
qed

lemma arp_events_idle:
  fixes os :: "'w arp_os"
  assumes "timer_fires os K m"
  shows "yields (arp_events os (sig, False, expired, sock) s) (\<lambda>(t, down). al_expires t = al_expires s \<and> m (al_world t) \<le> m (al_world s))"
proof -
  define P where "P = (\<lambda>t :: 'w arp_loop_state. al_expires t = al_expires s \<and> m (al_world t) \<le> m (al_world s))"
  have a: "yields (if sig then on_signal os s else ret s) P"
    using timer_firesD(4) [OF assms, of "al_world s"] by (auto simp: P_def on_signal_def Let_def split: prod.split sum.split)
  have b: "yields (on_socket os t) (\<lambda>(t, down). P t)" if "P t" for t
  proof -
    obtain r w where r: "ao_recvfrom os (al_world t) = (r, w)" by fastforce
    obtain ts w' where c: "ao_clock os w = (ts, w')" by fastforce
    have "m w \<le> m (al_world t)" "m w' \<le> m w"
      using timer_firesD(5) [OF assms, of "al_world t"] timer_firesD(6) [OF assms, of w] r c by simp_all
    then show ?thesis
      using that by (auto simp: P_def on_socket_def r c Let_def split: prod.split sum.split intro!: yields_then_any)
  qed
  have "yields (arp_events os (sig, False, expired, sock) s) (\<lambda>(t, down). P t)"
    unfolding arp_events_def prod.case if_False and_then_ret Let_def
    by (rule yields_and_then [OF a]) (use b in \<open>auto simp: P_def\<close>)
  then show ?thesis by (simp add: P_def case_prod_unfold)
qed

lemma arp_loop_ends:
  fixes os :: "'w arp_os" and s :: "'w arp_loop_state"
  assumes fires: "timer_fires os K m" and c: "0 < ct_count c" "ct_count c \<le> int_max"
    and "arp_loop_inv c s" "0 < fuel"
    and "al_exit s \<or> nat (ct_count c - uint (al_expires s)) * Suc K + m (al_world s) < fuel - 1"
  shows "ends (arp_loop os fuel s)"
  using assms(4-)
proof (induction fuel arbitrary: s)
  case (Suc fuel)
  obtain r w where poll: "ao_poll os (al_world s) = (r, w)" by fastforce
  define t where "t = s\<lparr>al_world := w\<rparr>"
  have t: "arp_loop_inv c t" "al_expires t = al_expires s" "al_exit t = al_exit s" "al_world t = w"
    using Suc.prems(1) by (simp_all add: t_def arp_loop_inv_def)
  have leave: "ends (and_then (arp_finish (al_ctl u)) (\<lambda>code. ret (al_ctl u, code)))" for u :: "'w arp_loop_state"
    by (simp add: arp_finish_def)
  have IH: "ends (arp_loop os fuel u)" if "arp_loop_inv c u"
      "al_exit u \<or> nat (ct_count c - uint (al_expires u)) * Suc K + m (al_world u) < nat (ct_count c - uint (al_expires s)) * Suc K + m (al_world s)"
      "\<not> al_exit s" for u
    by (rule Suc.IH) (use that Suc.prems in auto)
  have idle: "m w < m (al_world s)" if "\<forall>timer expired sock sig. r = Inr (sig, timer, expired, sock) \<longrightarrow> \<not> timer"
  proof -
    have "case ao_poll os (al_world s) of (Inl e, w') \<Rightarrow> m w' < m (al_world s)
        | (Inr (sig, timer, expired, sock), w') \<Rightarrow> timer \<or> m w' < m (al_world s)"
      by (rule fires [unfolded timer_fires_def, THEN conjunct2, THEN conjunct2, THEN conjunct1, THEN spec])
    then show ?thesis using that unfolding poll by (cases r) (auto split: prod.splits)
  qed
  have round: "ends (and_then (arp_events os ready t) (\<lambda>(s, down). if down then ret (al_ctl s, 2) else arp_loop os fuel s))"
    if run: "\<not> al_exit s" and ready: "r = Inr ready" for ready
  proof -
    obtain sig timer expired sock where e: "ready = (sig, timer, expired, sock)" by (cases ready)
    have exp: "uint (al_expires t) \<le> ct_count c" using t run c(1) by (auto simp: arp_loop_inv_def)
    have inv: "yields (arp_events os ready t) (\<lambda>(s, down). arp_loop_inv c s)"
      using arp_events_inv [OF t(1) timer_firesD(1) [OF fires] c(2)] t(3) run by simp
    have "yields (arp_events os ready t) (\<lambda>(u, down). arp_loop_inv c u \<and> (al_exit u \<or>
        nat (ct_count c - uint (al_expires u)) * Suc K + m (al_world u) < nat (ct_count c - uint (al_expires s)) * Suc K + m (al_world s)))"
    proof (cases timer)
      case True
      have less: "nat (ct_count c - uint (al_expires u)) * Suc K + m (al_world u) < nat (ct_count c - uint (al_expires s)) * Suc K + m (al_world s)"
        if u: "arp_loop_inv c u" "timer_read c (al_expires t) u" "\<not> al_exit u" for u :: "'w arp_loop_state"
      proof -
        let ?a = "nat (ct_count c - uint (al_expires u))" and ?b = "nat (ct_count c - uint (al_expires s))"
        have "Suc ?a \<le> ?b" using u c(1) t(2) by (auto simp: timer_read_def arp_loop_inv_def)
        then have "Suc ?a * Suc K \<le> ?b * Suc K" by (rule mult_le_mono1)
        moreover have "m (al_world u) \<le> K" by (rule timer_firesD(2) [OF fires])
        ultimately show ?thesis unfolding mult_Suc by linarith
      qed
      have "yields (arp_events os ready t) (\<lambda>(u, down). timer_read c (al_expires t) u)"
        using arp_events_timer [OF fires, of c t] exp c(2) by (simp add: e True)
      from yields_conj [OF inv this] show ?thesis
        by (rule yields_mono) (use less in blast)
    next
      case False
      have "yields (arp_events os ready t) (\<lambda>(u, down). al_expires u = al_expires t \<and> m (al_world u) \<le> m (al_world t))"
        using arp_events_idle [OF fires, of sig expired sock t] by (simp add: e False)
      from yields_conj [OF inv this] show ?thesis
        by (rule yields_mono) (use idle t False ready e in auto)
    qed
    then show ?thesis
      by (rule ends_and_then [OF arp_events_ends]) (use IH run in \<open>auto split: prod.splits\<close>)
  qed
  have again: "ends (arp_loop os fuel t)" if "\<not> al_exit s" "\<exists>e. r = Inl e"
    by (rule IH) (use that t idle in auto)
  show ?case
    using leave round again by (cases r) (auto simp: Let_def poll simp flip: t_def)
qed simp

subsection \<open>The loop as a whole\<close>

definition arp_fresh :: "run_state \<Rightarrow> bool" where
  "arp_fresh ctl \<longleftrightarrow> ct_sent ctl = 0 \<and> ct_brd_sent ctl = 0 \<and> ct_received ctl = 0 \<and> ct_brd_recv ctl = 0 \<and>
     ct_req_recv ctl = 0 \<and> ct_count ctl \<le> int_max"

lemma event_loop_fixed:
  assumes "arp_fresh ctl" "timer_ok os" "returns (event_loop os descr fuel ctl w) (c, code)"
  shows "arp_fixed c = arp_fixed ctl"
  using yields_returns [OF event_loop_ok [of ctl os descr fuel w] assms(3)] assms(1,2)
  by (auto simp: arp_fresh_def arp_end_ok_def)

text \<open>
  With a count \<open>arping\<close> sends at most that many probes, whatever the network, the timer and the
  signals do; it counts no more broadcasts than probes, and no more broadcast answers or requests than
  answers; when it is to quit on the first reply, it counts at most one.  It ends with 0 only if the
  address was free (\<open>-D\<close>), or nothing was asked for (\<open>-U\<close>, \<open>-A\<close>), or something was received, and as
  many answers as the count if it had a time limit, a count and was not to quit before.
\<close>

theorem arping_run:
  assumes "arp_fresh ctl" "timer_ok os" "returns (event_loop os descr fuel ctl w) (c, code)"
  shows "(0 < ct_count ctl \<longrightarrow> ct_sent c \<le> ct_count ctl) \<and> ct_brd_sent c \<le> ct_sent c \<and>
    ct_brd_recv c \<le> ct_received c \<and> ct_req_recv c \<le> ct_received c \<and>
    (ct_quit_on_reply ctl \<longrightarrow> ct_received c \<le> 1) \<and> code \<in> {0, 1, 2} \<and>
    (code = 0 \<longrightarrow> (if ct_dad ctl then ct_received c = 0
       else ct_unsolicited ctl \<or> 0 < ct_received c \<and>
         (ct_timeout ctl \<noteq> 0 \<and> 0 < ct_count ctl \<and> \<not> ct_quit_on_reply ctl \<longrightarrow> ct_count ctl \<le> ct_received c)))"
proof -
  have fresh: "ct_sent ctl = 0" "ct_brd_sent ctl = 0" "ct_received ctl = 0" "ct_brd_recv ctl = 0" "ct_req_recv ctl = 0"
    "ct_count ctl \<le> int_max" using assms(1) by (simp_all add: arp_fresh_def)
  have "(case (c, code) of (c, code) \<Rightarrow> code = 1 \<and> c = ctl \<or> arp_end_ok ctl (c, code))"
    using yields_returns [OF event_loop_ok [OF fresh(1-5) assms(2) fresh(6)] assms(3)] .
  then consider "code = 1" "c = ctl" | "arp_end_ok ctl (c, code)" by auto
  then show ?thesis
  proof cases
    case 1
    then show ?thesis using fresh by simp
  next
    case 2
    then have counts: "arp_counts c" "ct_quit_on_reply c \<longrightarrow> ct_received c \<le> 1" "code = 2 \<or> arp_verdict c code"
      and same: "arp_fixed c = arp_fixed ctl" by (auto simp: arp_end_ok_def)
    show ?thesis using counts unfolding arp_verdict_def arp_counts_def arp_fixed_eqD [OF same] by auto
  qed
qed

text \<open>
  A host on the network answers every probe: the timer and the socket are always ready.
\<close>

definition sample_ll :: "sockaddr_ll" where
  "sample_ll = \<lparr>sll_ifindex = 2, sll_hatype = 1, sll_pkttype = 0, sll_halen = 6, sll_addr = [2, 0, 0, 0, 0, 1] @ zeros 110\<rparr>"

definition sample_arp_ctl :: run_state where
  "sample_arp_ctl = \<lparr>ct_name = Some ''eth0'', ct_ifindex = 2, ct_ifa = None, ct_source = None, ct_gsrc = [192, 0, 2, 1],
     ct_gdst = [192, 0, 2, 9], ct_gdst_family = 2, ct_count = 1, ct_timeout = 5, ct_interval = 1, ct_me = sample_ll,
     ct_he = sample_ll\<lparr>sll_addr := replicate 116 255\<rparr>, ct_last = \<lparr>ts_sec = 0, ts_nsec = 0\<rparr>, ct_sent = 0, ct_brd_sent = 0,
     ct_received = 0, ct_brd_recv = 0, ct_req_recv = 0, ct_cap_raw = False, ct_advert = False, ct_broadcast_only = False,
     ct_dad = False, ct_quiet = True, ct_quit_on_reply = False, ct_unicasting = False, ct_unsolicited = False\<rparr>"

definition sample_reply :: "u8 list" where
  "sample_reply = arp_bytes 1 0x0800 6 4 2 [2, 0, 0, 0, 0, 7] [192, 0, 2, 9] [2, 0, 0, 0, 0, 1] [192, 0, 2, 1]"

definition sample_arp_os :: "nat arp_os" where
  "sample_arp_os = \<lparr>ao_clock = (\<lambda>w. (\<lparr>ts_sec = 5, ts_nsec = 0\<rparr>, w)), ao_sendto = (\<lambda>w buf to. (int (length buf), w)),
     ao_poll = (\<lambda>w. (Inr (False, True, False, True), w)), ao_signal = (\<lambda>w. (Inl 11, w)), ao_timer = (\<lambda>w. (Inr 1, w)),
     ao_recvfrom = (\<lambda>w. (Inr (sample_reply @ zeros 20, 46, sample_ll), w))\<rparr>"

lemma sample_timer: "timer_ok sample_arp_os" "timer_fires sample_arp_os 0 (\<lambda>_. 0)"
  by (simp_all add: timer_ok_def timer_fires_def sample_arp_os_def)

theorem arp_counted_witness:
  "ct_received (fst (count_arp sample_arp_ctl (sample_reply @ zeros 20) sample_ll)) = ct_received sample_arp_ctl + 1"
proof -
  have r: "returns (recv_pack sample_arp_ctl \<lparr>ts_sec = 5, ts_nsec = 0\<rparr> (sample_reply @ zeros 20) 46 sample_ll)
      (fst (count_arp sample_arp_ctl (sample_reply @ zeros 20) sample_ll), snd (count_arp sample_arp_ctl (sample_reply @ zeros 20) sample_ll))"
    by code_simp
  show ?thesis
    using arp_counted [OF _ _ _ _ _ _ r [unfolded sample_reply_def]]
    by (simp add: sample_arp_ctl_def sample_ll_def arp_link_ok_def arp_for_us_def arp_pro_def own_hw_def sample_reply_def
        PACKET_HOST_def ARPOP_REPLY_def ARPHRD_AX25_def ARPHRD_NETROM_def ETH_P_IP_def)
qed



end
