(* ===== verification/Arping_Main.thy ===== *)
theory Arping_Main
  imports Arping Capabilities
begin

text \<open>
  \<open>main\<close> of \<open>arping.c\<close> and what it calls before the event loop: the options, the privileges (built with
  \<open>libcap\<close>), the route that is asked for when no device is given, the choice of the device, the source
  address and the two link-layer addresses.  Numbers in netlink messages are little-endian here.
\<close>

definition EIO :: int where "EIO = 5"
definition IFF_UP :: u32 where "IFF_UP = 1"
definition IFF_LOOPBACK :: u32 where "IFF_LOOPBACK = 8"
definition IFF_NOARP :: u32 where "IFF_NOARP = 0x80"
definition RTM_NEWROUTE :: u16 where "RTM_NEWROUTE = 24"
definition RTM_GETROUTE :: u16 where "RTM_GETROUTE = 26"
definition NLM_F_REQUEST :: u16 where "NLM_F_REQUEST = 1"
definition NLMSG_ERROR :: u16 where "NLMSG_ERROR = 2"
definition NLMSG_DONE :: u16 where "NLMSG_DONE = 3"
definition NLMSG_OVERRUN :: u16 where "NLMSG_OVERRUN = 4"
definition RTA_DST :: u16 where "RTA_DST = 1"
definition RTA_OIF :: u16 where "RTA_OIF = 4"

text \<open>
  The system and the libraries: error numbers of calls (0 for success), what the resolver, the
  netlink socket, \<open>getifaddrs\<close> and \<open>getsockname\<close> give; \<open>ae_errno\<close> is what \<open>errno\<close> was left at.
\<close>

record 'w arp_env =
  ae_caps :: cap_env
  ae_version :: string
  ae_config :: build_config
  ae_socket :: int
  ae_aton :: "string \<Rightarrow> u8 list option"
  ae_getaddrinfo :: "string \<Rightarrow> string + int \<times> u8 list"
  ae_calloc :: int
  ae_nl_socket :: int
  ae_nl_send :: int
  ae_nl_recv :: "(int + u8 list) list"
  ae_indextoname :: "int \<Rightarrow> int + string"
  ae_nametoindex :: "string \<Rightarrow> int + int"
  ae_ifaddrs :: "int + ifaddr list"
  ae_probe_socket :: int
  ae_bindtodevice :: int
  ae_probe_bind :: int
  ae_dontroute :: int
  ae_connect :: int
  ae_getsockname :: "int + u8 list"
  ae_bind :: int
  ae_bound :: "int + sockaddr_ll"
  ae_errno :: int
  ae_descr :: "nat \<Rightarrow> int"
  ae_os :: "'w arp_os"

subsection \<open>Options\<close>

definition arp_usage_text :: string where
  "arp_usage_text = concat (map (\<lambda>l. l @ [CHR 0x0A])
     [[], ''Usage:'', ''  arping [options] <destination>'', [], ''Options:'',
      ''  -f            quit on first reply'',
      ''  -q            be quiet'',
      ''  -b            keep on broadcasting, do not unicast'',
      ''  -D            duplicate address detection mode'',
      ''  -U            unsolicited ARP mode, update your neighbours'',
      ''  -A            ARP answer mode, update your neighbours'',
      ''  -V            print version and exit'',
      ''  -c <count>    how many packets to send'',
      ''  -w <timeout>  how long to wait for a reply'',
      ''  -i <interval> set interval between packets (default: 1 second)'',
      ''  -I <device>   which ethernet device to use'',
      ''  -s <source>   source IP address'',
      ''  <destination> DNS name or IP address'', [],
      ''For more details see arping(8).''])"

definition arp_usage :: "'a result" where
  "arp_usage = emit [Err arp_usage_text] (stop_with (Exit 2))"

fun arp_options :: "'w arp_env \<Rightarrow> (char \<times> string) list \<Rightarrow> run_state \<Rightarrow> run_state result" where
  "arp_options env [] ctl = ret ctl"
| "arp_options env ((ch, optarg) # rest) ctl =
     (if ch = CHR ''b'' then arp_options env rest (ctl\<lparr>ct_broadcast_only := True\<rparr>)
      else if ch = CHR ''D'' then arp_options env rest (ctl\<lparr>ct_dad := True, ct_quit_on_reply := True\<rparr>)
      else if ch = CHR ''U'' then arp_options env rest (ctl\<lparr>ct_unsolicited := True\<rparr>)
      else if ch = CHR ''A'' then arp_options env rest (ctl\<lparr>ct_advert := True, ct_unsolicited := True\<rparr>)
      else if ch = CHR ''q'' then arp_options env rest (ctl\<lparr>ct_quiet := True\<rparr>)
      else if ch = CHR ''c''
      then and_then (strtol_or_err (Some optarg) invalid_argument 1 int_max) (\<lambda>n. arp_options env rest (ctl\<lparr>ct_count := n\<rparr>))
      else if ch = CHR ''w''
      then and_then (strtol_or_err (Some optarg) invalid_argument 0 int_max) (\<lambda>n. arp_options env rest (ctl\<lparr>ct_timeout := n\<rparr>))
      else if ch = CHR ''i''
      then and_then (strtol_or_err (Some optarg) invalid_argument 0 int_max) (\<lambda>n. arp_options env rest (ctl\<lparr>ct_interval := n\<rparr>))
      else if ch = CHR ''I'' then arp_options env rest (ctl\<lparr>ct_name := Some optarg\<rparr>)
      else if ch = CHR ''f'' then arp_options env rest (ctl\<lparr>ct_quit_on_reply := True\<rparr>)
      else if ch = CHR ''s'' then arp_options env rest (ctl\<lparr>ct_source := Some optarg\<rparr>)
      else if ch = CHR ''V''
      then print (ae_version env) (and_then (print_config (ae_config env)) (\<lambda>_. stop_with (Exit 0)))
      else arp_usage)"

subsection \<open>Privileges\<close>

definition arp_limit_capabilities :: "cap_env \<Rightarrow> bool result" where
  "arp_limit_capabilities env =
     or_error (- 1) (ce_get env) ''cap_get_proc''
       (let raw = ce_permitted env CAP_NET_RAW;
            rest = emit [Sys ''PR_SET_KEEPCAPS'' [1]] (or_error (- 1) (ce_keepcaps env) ''prctl''
                    (emit [Sys ''setuid'' [ce_uid env]] (or_error (- 1) (ce_setuid env) ''setuid''
                      (emit [Sys ''PR_SET_KEEPCAPS'' [0]] (or_error (- 1) (ce_unkeep env) ''prctl'' (ret raw))))))
        in if raw
           then emit [Sys ''cap_permit'' [CAP_NET_RAW]]
                  (or_error 0 (ce_set env) ''cap_set_proc''
                    (if ce_set env \<noteq> 0 \<and> ce_set env \<noteq> EPERM then stop_with (Exit (- 1)) else rest))
           else rest)"

definition modify_capability_raw :: "cap_env \<Rightarrow> run_state \<Rightarrow> bool \<Rightarrow> int result" where
  "modify_capability_raw env ctl on =
     (if \<not> ct_cap_raw ctl then ret (if on then - 1 else 0)
      else or_error (- 1) (ce_get env) ''cap_get_proc''
        (emit [Sys ''cap_effective'' [CAP_NET_RAW, if on then 1 else 0]]
          (or_error (- 1) (ce_set env) ''cap_set_proc'' (ret 0))))"

definition arp_enable_raw :: "cap_env \<Rightarrow> run_state \<Rightarrow> 'a result \<Rightarrow> 'a result" where
  "arp_enable_raw env ctl m = and_then (modify_capability_raw env ctl True) (\<lambda>_. m)"

definition arp_disable_raw :: "cap_env \<Rightarrow> run_state \<Rightarrow> 'a result \<Rightarrow> 'a result" where
  "arp_disable_raw env ctl m = and_then (modify_capability_raw env ctl False) (\<lambda>_. m)"

definition arp_drop_capabilities :: "cap_env \<Rightarrow> 'a result \<Rightarrow> 'a result" where
  "arp_drop_capabilities env m =
     or_error (- 1) (ce_init env) ''cap_init'' (emit [Sys ''cap_permit'' []] (or_error (- 1) (ce_set env) ''cap_set_proc'' m))"

subsection \<open>The route to the destination\<close>

definition align4 :: "nat \<Rightarrow> nat" where
  "align4 n = (n + 3) div 4 * 4"

definition get16 :: "u8 list \<Rightarrow> nat \<Rightarrow> u16" where
  "get16 mem off = le16 (mem ! off) (mem ! (off + 1))"

definition get32 :: "u8 list \<Rightarrow> nat \<Rightarrow> u32" where
  "get32 mem off = le32 (mem ! off) (mem ! (off + 1)) (mem ! (off + 2)) (mem ! (off + 3))"

text \<open>
  The attributes of a route.  What is left is a \<open>size_t\<close> and is compared as an \<open>unsigned short\<close>; the
  value is the state and what \<open>outgoing_device\<close> returns.
\<close>

definition route_attribute :: "'w arp_env \<Rightarrow> u8 list \<Rightarrow> nat \<Rightarrow> run_state \<Rightarrow> (run_state \<times> int) result" where
  "route_attribute env mem off ctl =
     (if get16 mem (off + 2) \<noteq> RTA_OIF then ret (ctl, 0)
      else if length mem < off + 8 then stop_with Undefined
      else let oif = to_int32 (uint (get32 mem (off + 4))); ctl = ctl\<lparr>ct_ifindex := oif\<rparr>
           in case ae_indextoname env oif of
                Inl e \<Rightarrow> emit [Diag e ''if_indextoname failed''] (ret (ctl, 1))
              | Inr nm \<Rightarrow> ret (ctl\<lparr>ct_name := Some nm\<rparr>, 0))"

function route_attributes :: "'w arp_env \<Rightarrow> u8 list \<Rightarrow> nat \<Rightarrow> u64 \<Rightarrow> run_state \<Rightarrow> (run_state \<times> int) result" where
  "route_attributes env mem off len ctl =
     (let left = unat (ucast len :: u16); rl = unat (get16 mem off)
      in if left < 4 then ret (ctl, 0)
         else if length mem < off + 4 then stop_with Undefined
         else if rl < 4 \<or> left < rl then ret (ctl, 0)
         else and_then (route_attribute env mem off ctl) (\<lambda>(ctl, r).
                if r \<noteq> 0 then ret (ctl, r)
                else route_attributes env mem (off + align4 rl) (len - of_nat (align4 rl)) ctl))"
  by auto
termination
  by (relation "measure (\<lambda>(env, mem, off, len, ctl). length mem - off)") (auto simp: align4_def)

declare route_attributes.simps [simp del]

definition outgoing_device :: "'w arp_env \<Rightarrow> u8 list \<Rightarrow> nat \<Rightarrow> run_state \<Rightarrow> (run_state \<times> int) result" where
  "outgoing_device env mem nh ctl =
     (if get16 mem (nh + 4) \<noteq> RTM_NEWROUTE then emit [Diag 0 ''NETLINK new route message type''] (ret (ctl, 1))
      else route_attributes env mem (nh + 28) (ucast (get32 mem nh) - 28) ctl)"

text \<open>The messages in the answer; \<open>len\<close> is the signed length that is left.\<close>

function netlink_messages :: "'w arp_env \<Rightarrow> u8 list \<Rightarrow> nat \<Rightarrow> int \<Rightarrow> u32 \<Rightarrow> run_state \<Rightarrow> int \<Rightarrow> (run_state \<times> int) result" where
  "netlink_messages env mem nh len seq ctl r =
     (let ml = unat (get32 mem nh); ty = get16 mem (nh + 4)
      in if len < 16 then ret (ctl, r)
         else if length mem < nh + 16 then stop_with Undefined
         else if ml < 16 \<or> len < int ml then ret (ctl, r)
         else if get32 mem (nh + 8) = seq \<and> (ty = NLMSG_ERROR \<or> ty = NLMSG_OVERRUN)
         then emit [Diag 0 ''NETLINK_ROUTE unexpected iov element''] (ret (ctl, r))
         else and_then (if get32 mem (nh + 8) \<noteq> seq then ret (ctl, r)
                        else if ty = NLMSG_DONE then ret (ctl, 0)
                        else outgoing_device env mem nh ctl)
                (\<lambda>(ctl, r). netlink_messages env mem (nh + align4 ml) (len - int (align4 ml)) seq ctl r))"
  by auto
termination
  by (relation "measure (\<lambda>(env, mem, nh, len, seq, ctl, r). length mem - nh)") (auto simp: align4_def)

declare netlink_messages.simps [simp del]
text \<open>The request: a header, \<open>struct rtmsg\<close> and the destination as an attribute, in 4096 bytes of zeros.\<close>

definition route_query :: "u8 list \<Rightarrow> u8 list" where
  "route_query gdst =
     le32_bytes 36 @ le16_bytes RTM_GETROUTE @ le16_bytes NLM_F_REQUEST @ le32_bytes 1 @ zeros 4 @
     [2] @ zeros 11 @ le16_bytes 8 @ le16_bytes RTA_DST @ gdst @ zeros 4060"

text \<open>Receiving again while a call is interrupted: the length (negative for an error) and the buffer.\<close>

fun netlink_receive :: "u8 list \<Rightarrow> (int + u8 list) list \<Rightarrow> (int \<times> u8 list) result" where
  "netlink_receive buf [] = stop_with Out_Of_Fuel"
| "netlink_receive buf (Inl e # rs) = (if e = EINTR then netlink_receive buf rs else ret (- 1, buf))"
| "netlink_receive buf (Inr msg # rs) = ret (int (length msg), splice 0 msg buf)"

definition netlink_query :: "'w arp_env \<Rightarrow> run_state \<Rightarrow> run_state result" where
  "netlink_query env ctl =
     (let buf = route_query (ct_gdst ctl); failed = (\<lambda>e. or_error 0 e ''NETLINK_ROUTE socket failed'' (stop_with (Exit 1)))
      in or_error 1 (ae_calloc env) ''allocating 4096 bytes failed''
        (if ae_nl_socket env \<noteq> 0 then failed (ae_nl_socket env)
         else emit [Sys ''sendmsg'' (map uint buf)]
           (if ae_nl_send env \<noteq> 0 then failed (ae_nl_send env)
            else and_then (netlink_receive buf (ae_nl_recv env)) (\<lambda>(len, mem).
                 and_then (netlink_messages env mem 0 len 1 ctl 1) (\<lambda>(ctl, r).
                   if r \<noteq> 0 then stop_with (Exit 1) else ret ctl)))))"

text \<open>For an IPv6 address 16 bytes would be copied from the four of \<open>gdst\<close>.\<close>

definition guess_device :: "'w arp_env \<Rightarrow> run_state \<Rightarrow> run_state result" where
  "guess_device env ctl =
     (if ct_gdst_family ctl = 2 then netlink_query env ctl
      else if ct_gdst_family ctl = 10 then stop_with Undefined
      else error_c 1 0 ''unknown address family, please, use option -I.'' (stop_with Abort))"

subsection \<open>The device\<close>

text \<open>A message on standard output unless \<open>-q\<close> was given.\<close>

definition tell :: "run_state \<Rightarrow> string \<Rightarrow> 'a result \<Rightarrow> 'a result" where
  "tell ctl s m = emit (if \<not> ct_quiet ctl then [Out s] else []) m"

definition check_ifflags :: "run_state \<Rightarrow> u32 \<Rightarrow> int result" where
  "check_ifflags ctl flags =
     (if flags AND IFF_UP = 0
      then case ct_name ctl of
             Some d \<Rightarrow> tell ctl (''Interface \"'' @ d @ ''\" is down'' @ [CHR 0x0A]) (stop_with (Exit 2))
           | None \<Rightarrow> ret (- 1)
      else if flags AND (IFF_NOARP OR IFF_LOOPBACK) \<noteq> 0
      then case ct_name ctl of
             Some d \<Rightarrow> tell ctl (''Interface \"'' @ d @ ''\" is not ARPable'' @ [CHR 0x0A])
                         (stop_with (Exit (if ct_dad ctl then 0 else 2)))
           | None \<Rightarrow> ret (- 1)
      else ret 0)"

text \<open>The interfaces in turn; \<open>n\<close> counts the suitable ones, and the second ends the search.\<close>

fun find_device :: "ifaddr list \<Rightarrow> run_state \<Rightarrow> nat \<Rightarrow> (run_state \<times> nat) result" where
  "find_device [] ctl n = ret (ctl, n)"
| "find_device (i # is) ctl n =
     (case ifa_addr i of
        None \<Rightarrow> find_device is ctl n
      | Some a \<Rightarrow>
          if ct_name ctl \<noteq> None \<and> ct_name ctl \<noteq> Some (ifa_name i) then find_device is ctl n
          else and_then (check_ifflags ctl (ifa_flags i)) (\<lambda>r.
            if r < 0 \<or> sll_halen a = 0 \<or> ifa_broadaddr i = None then find_device is ctl n
            else let ctl = ctl\<lparr>ct_ifa := Some i\<rparr>
                 in if n \<noteq> 0 then ret (ctl, n + 1) else find_device is ctl (n + 1)))"

definition check_device :: "'w arp_env \<Rightarrow> run_state \<Rightarrow> (run_state \<times> int) result" where
  "check_device env ctl =
     (case ae_ifaddrs env of
        Inl e \<Rightarrow> emit [Diag e ''getifaddrs''] (ret (ctl, - 1))
      | Inr is \<Rightarrow>
          and_then (find_device is ctl 0) (\<lambda>(ctl, n).
            case ct_ifa ctl of
              Some i \<Rightarrow>
                if n \<noteq> 1 then ret (ctl, 1)
                else (case ae_nametoindex env (ifa_name i) of
                        Inl e \<Rightarrow> emit [Diag e ''if_nametoindex''] (ret (ctl\<lparr>ct_ifindex := 0\<rparr>, - 1))
                      | Inr idx \<Rightarrow> ret (ctl\<lparr>ct_ifindex := idx, ct_name := Some (ifa_name i)\<rparr>, 0))
            | None \<Rightarrow> ret (ctl, 1)))"

definition find_broadcast_address :: "run_state \<Rightarrow> run_state result" where
  "find_broadcast_address ctl =
     (let he = ct_he ctl; n = unat (sll_halen he);
          default = need n (sll_addr he)
            (emit (if \<not> ct_quiet ctl then [Err (''WARNING: using default broadcast address.'' @ [CHR 0x0A])] else [])
              (ret (ctl\<lparr>ct_he := he\<lparr>sll_addr := splice 0 (replicate n 255) (sll_addr he)\<rparr>\<rparr>)))
      in case ct_ifa ctl of
           None \<Rightarrow> default
         | Some i \<Rightarrow>
             (case ifa_broadaddr i of
                None \<Rightarrow> stop_with Undefined
              | Some b \<Rightarrow>
                  if sll_halen b = sll_halen he
                  then need n (sll_addr b) (need n (sll_addr he)
                    (ret (ctl\<lparr>ct_he := he\<lparr>sll_addr := splice 0 (take n (sll_addr b)) (sll_addr he)\<rparr>\<rparr>)))
                  else default))"

subsection \<open>\<open>main\<close>\<close>

definition arp_target :: "'w arp_env \<Rightarrow> string \<Rightarrow> run_state \<Rightarrow> run_state result" where
  "arp_target env target ctl =
     (case ae_aton env target of
        Some a \<Rightarrow> ret (ctl\<lparr>ct_gdst := a, ct_gdst_family := 2\<rparr>)
      | None \<Rightarrow>
          (case ae_getaddrinfo env target of
             Inl msg \<Rightarrow> error_c 2 0 (target @ '': '' @ msg) (stop_with Undefined)
           | Inr (fam, a) \<Rightarrow> ret (ctl\<lparr>ct_gdst := a, ct_gdst_family := fam\<rparr>)))"

definition arp_device :: "'w arp_env \<Rightarrow> run_state \<Rightarrow> run_state result" where
  "arp_device env ctl =
     and_then (if ct_name ctl = None then guess_device env ctl else ret ctl) (\<lambda>ctl.
     and_then (check_device env ctl) (\<lambda>(ctl, r).
       if r < 0 then stop_with (Exit 2)
       else if ct_ifindex ctl = 0
       then case ct_name ctl of
              Some d \<Rightarrow> error_c 2 0 (''Device '' @ d @ '' not available.'') (ret ctl)
            | None \<Rightarrow> error_c 0 0 ''Suitable device could not be determined. Please, use option -I.'' (ret ctl)
       else ret ctl))"

definition arp_given_source :: "'w arp_env \<Rightarrow> run_state \<Rightarrow> run_state result" where
  "arp_given_source env ctl =
     (case ct_source ctl of
        None \<Rightarrow> ret ctl
      | Some s \<Rightarrow>
          (case ae_aton env s of
             Some a \<Rightarrow> ret (ctl\<lparr>ct_gsrc := a\<rparr>)
           | None \<Rightarrow> error_c 2 0 (''invalid source '' @ s) (ret ctl)))"

text \<open>The socket that finds the source address, or checks that it is one of this host.\<close>

definition arp_probe_source :: "'w arp_env \<Rightarrow> run_state \<Rightarrow> run_state result" where
  "arp_probe_source env ctl =
     or_error 2 (ae_probe_socket env) ''socket''
       (and_then (case ct_name ctl of
                    None \<Rightarrow> ret ()
                  | Some d \<Rightarrow>
                      arp_enable_raw (ae_caps env) ctl
                        (or_error 0 (ae_bindtodevice env) ''WARNING: interface is ignored''
                          (arp_disable_raw (ae_caps env) ctl (ret ())))) (\<lambda>_.
        if ct_source ctl \<noteq> None \<or> ct_gsrc ctl \<noteq> zeros 4 then or_error 2 (ae_probe_bind env) ''bind'' (ret ctl)
        else if \<not> ct_dad ctl
        then if ct_unsolicited ctl then ret (ctl\<lparr>ct_gsrc := ct_gdst ctl\<rparr>)
             else or_error 0 (ae_dontroute env) ''WARNING: setsockopt(SO_DONTROUTE)''
                    (or_error 2 (ae_connect env) ''connect''
                      (case ae_getsockname env of
                         Inl e \<Rightarrow> error_c 2 e ''getsockname'' (ret ctl)
                       | Inr a \<Rightarrow> ret (ctl\<lparr>ct_gsrc := a\<rparr>)))
        else ret ctl))"

definition arp_source :: "'w arp_env \<Rightarrow> run_state \<Rightarrow> run_state result" where
  "arp_source env ctl =
     and_then (arp_given_source env ctl) (\<lambda>ctl.
       let ctl = (if \<not> ct_dad ctl \<and> ct_unsolicited ctl \<and> ct_source ctl = None then ctl\<lparr>ct_gsrc := ct_gdst ctl\<rparr> else ctl)
       in if \<not> ct_dad ctl \<or> ct_source ctl \<noteq> None then arp_probe_source env ctl else ret ctl)"

definition arp_bind :: "'w arp_env \<Rightarrow> run_state \<Rightarrow> run_state result" where
  "arp_bind env ctl =
     emit [Sys ''bind'' [ct_ifindex ctl]]
       (or_error 2 (ae_bind env) ''bind''
         (case ae_bound env of
            Inl e \<Rightarrow> error_c 2 e ''getsockname'' (ret ctl)
          | Inr me \<Rightarrow>
              if sll_halen me = 0
              then tell ctl (''Interface \"'' @ show_arg (ct_name ctl) @ ''\" is not ARPable (no ll address)'' @ [CHR 0x0A])
                     (stop_with (Exit (if ct_dad ctl then 0 else 2)))
              else find_broadcast_address (ctl\<lparr>ct_me := me, ct_he := me\<rparr>)))"

definition first_run_state :: run_state where
  "first_run_state =
     (let none = \<lparr>sll_ifindex = 0, sll_hatype = 0, sll_pkttype = 0, sll_halen = 0, sll_addr = zeros 116\<rparr>
      in \<lparr>ct_name = None, ct_ifindex = 0, ct_ifa = None, ct_source = None, ct_gsrc = zeros 4, ct_gdst = zeros 4,
          ct_gdst_family = 0, ct_count = - 1, ct_timeout = 0, ct_interval = 1, ct_me = none, ct_he = none,
          ct_last = \<lparr>ts_sec = 0, ts_nsec = 0\<rparr>, ct_sent = 0, ct_brd_sent = 0, ct_received = 0, ct_brd_recv = 0,
          ct_req_recv = 0, ct_cap_raw = False, ct_advert = False, ct_broadcast_only = False, ct_dad = False,
          ct_quiet = False, ct_quit_on_reply = False, ct_unicasting = False, ct_unsolicited = False\<rparr>)"

text \<open>Everything before the event loop: the state that is handed to it.\<close>

definition arp_announce :: "'w arp_env \<Rightarrow> run_state \<Rightarrow> run_state result" where
  "arp_announce env ctl =
     tell ctl (''ARPING '' @ inet_ntoa (ct_gdst ctl) @ '' from '' @ inet_ntoa (ct_gsrc ctl) @ '' '' @
               (case ct_name ctl of Some d \<Rightarrow> d | None \<Rightarrow> []) @ [CHR 0x0A])
       (if ct_source ctl = None \<and> ct_gsrc ctl = zeros 4 \<and> \<not> ct_dad ctl
        then error_c 2 (ae_errno env) ''no source address in not-DAD mode'' (ret ctl)
        else arp_drop_capabilities (ae_caps env) (ret ctl))"

definition arp_prepare :: "'w arp_env \<Rightarrow> string \<Rightarrow> run_state \<Rightarrow> run_state result" where
  "arp_prepare env target ctl =
     arp_enable_raw (ae_caps env) ctl
       (or_error 2 (ae_socket env) ''socket''
         (arp_disable_raw (ae_caps env) ctl
           (and_then (arp_target env target (if ct_name ctl = Some [] then ctl\<lparr>ct_name := None\<rparr> else ctl)) (\<lambda>ctl.
            and_then (arp_device env ctl) (\<lambda>ctl.
            and_then (arp_source env ctl) (\<lambda>ctl.
            and_then (arp_bind env ctl) (arp_announce env)))))))"

definition arp_setup :: "'w arp_env \<Rightarrow> (char \<times> string) list \<Rightarrow> string list \<Rightarrow> run_state result" where
  "arp_setup env options args =
     and_then (arp_limit_capabilities (ae_caps env)) (\<lambda>raw.
     and_then (arp_options env options (first_run_state\<lparr>ct_cap_raw := raw\<rparr>)) (\<lambda>ctl.
       case args of [target] \<Rightarrow> arp_prepare env target ctl | _ \<Rightarrow> arp_usage))"

definition arp_main :: "'w arp_env \<Rightarrow> nat \<Rightarrow> 'w \<Rightarrow> (char \<times> string) list \<Rightarrow> string list \<Rightarrow> (run_state \<times> int) result" where
  "arp_main env fuel w options args =
     and_then (arp_setup env options args) (\<lambda>ctl. event_loop (ae_os env) (ae_descr env) fuel ctl w)"

subsection \<open>The device of a route\<close>

text \<open>Attributes as \<open>nla_put\<close> lays them out, and the answer with a route.\<close>

definition rta_bytes :: "u16 \<times> u8 list \<Rightarrow> u8 list" where
  "rta_bytes a = (case a of (t, p) \<Rightarrow>
     le16_bytes (of_nat (4 + length p)) @ le16_bytes t @ p @ zeros (align4 (length p) - length p))"

definition route_message :: "u16 \<Rightarrow> u32 \<Rightarrow> u8 list \<Rightarrow> (u16 \<times> u8 list) list \<Rightarrow> u8 list" where
  "route_message flags pid rtm attrs =
     (let as = concat (map rta_bytes attrs)
      in le32_bytes (of_nat (28 + length as)) @ le16_bytes RTM_NEWROUTE @ le16_bytes flags @ le32_bytes 1 @ le32_bytes pid @ rtm @ as)"

text \<open>What the attributes say.\<close>

fun route_says :: "'w arp_env \<Rightarrow> (u16 \<times> u8 list) list \<Rightarrow> run_state \<Rightarrow> (run_state \<times> int) result" where
  "route_says env [] ctl = ret (ctl, 0)"
| "route_says env ((t, p) # as) ctl =
     and_then (if t \<noteq> RTA_OIF then ret (ctl, 0)
               else let oif = to_int32 (uint (get32 p 0)); ctl = ctl\<lparr>ct_ifindex := oif\<rparr>
                    in case ae_indextoname env oif of
                         Inl e \<Rightarrow> emit [Diag e ''if_indextoname failed''] (ret (ctl, 1))
                       | Inr nm \<Rightarrow> ret (ctl\<lparr>ct_name := Some nm\<rparr>, 0))
       (\<lambda>(ctl, r). if r \<noteq> 0 then ret (ctl, r) else route_says env as ctl)"

lemma get16_le16 [simp]:
  "off = length pre \<Longrightarrow> get16 (pre @ le16_bytes w @ rest) off = w"
  by (simp add: get16_def le16_bytes_def nth_append le16_le16_bytes [unfolded le16_bytes_def, simplified])

lemma get32_le32 [simp]:
  "off = length pre \<Longrightarrow> get32 (pre @ le32_bytes w @ rest) off = w"
  by (simp add: get32_def le32_bytes_def nth_append)

lemma align4_simps [simp]: "align4 (4 + n) = 4 + align4 n" "n \<le> align4 n"
  unfolding align4_def by presburger+

lemma length_rta_bytes [simp]: "length (rta_bytes (t, p)) = 4 + align4 (length p)"
  by (simp add: rta_bytes_def)

lemma get32_append [simp]: "4 \<le> length p \<Longrightarrow> get32 (pre @ p @ rest) (length pre) = get32 p 0"
  by (cases p) (auto simp: get32_def nth_append numeral_2_eq_2 numeral_3_eq_3)

lemma route_attribute_rta:
  fixes t p pre rest
  assumes "t = RTA_OIF \<longrightarrow> 4 \<le> length p"
  defines "mem \<equiv> pre @ rta_bytes (t, p) @ rest"
  shows "get16 mem (length pre) = of_nat (4 + length p)"
    "route_attribute env mem (length pre) ctl =
       (if t \<noteq> RTA_OIF then ret (ctl, 0)
        else let oif = to_int32 (uint (get32 p 0)); ctl = ctl\<lparr>ct_ifindex := oif\<rparr>
             in case ae_indextoname env oif of
                  Inl e \<Rightarrow> emit [Diag e ''if_indextoname failed''] (ret (ctl, 1))
                | Inr nm \<Rightarrow> ret (ctl\<lparr>ct_name := Some nm\<rparr>, 0))"
proof -
  define pad :: "u8 list" where "pad = zeros (align4 (length p) - length p)"
  define l where "l = le16_bytes (of_nat (4 + length p))"
  have m: "mem = pre @ l @ le16_bytes t @ p @ pad @ rest" "length l = 2"
    by (simp_all add: mem_def rta_bytes_def l_def pad_def)
  have "get16 (pre @ le16_bytes (of_nat (4 + length p)) @ (le16_bytes t @ p @ pad @ rest)) (length pre) = of_nat (4 + length p)"
    by (rule get16_le16) simp
  then show "get16 mem (length pre) = of_nat (4 + length p)" by (simp add: m(1) l_def)
  have ty: "get16 mem (length pre + 2) = t"
    using get16_le16 [of "length pre + 2" "pre @ l" t "p @ pad @ rest"] by (simp add: m)
  have long: "\<not> length mem < length pre + 8" if "4 \<le> length p" using that by (simp add: m)
  have "get32 mem (length pre + 4) = get32 p 0" if "4 \<le> length p"
    using get32_append [OF that, of "pre @ l @ le16_bytes t" "pad @ rest"] by (simp add: m)
  then show "route_attribute env mem (length pre) ctl =
       (if t \<noteq> RTA_OIF then ret (ctl, 0)
        else let oif = to_int32 (uint (get32 p 0)); ctl = ctl\<lparr>ct_ifindex := oif\<rparr>
             in case ae_indextoname env oif of
                  Inl e \<Rightarrow> emit [Diag e ''if_indextoname failed''] (ret (ctl, 1))
                | Inr nm \<Rightarrow> ret (ctl\<lparr>ct_name := Some nm\<rparr>, 0))"
    using assms(1) long unfolding route_attribute_def ty Let_def by (auto cong: sum.case_cong)
qed

lemma route_attributes_walk:
  assumes "length (concat (map rta_bytes attrs)) < 65536" "\<forall>(t, p) \<in> set attrs. t = RTA_OIF \<longrightarrow> 4 \<le> length p"
  shows "route_attributes env (pre @ concat (map rta_bytes attrs) @ rest) (length pre) (of_nat (length (concat (map rta_bytes attrs)))) ctl
    = route_says env attrs ctl"
  using assms
proof (induction attrs arbitrary: pre ctl)
  case Nil
  then show ?case by (simp add: route_attributes.simps)
next
  case (Cons a attrs)
  obtain t p where a: "a = (t, p)" by fastforce
  define L where "L = length (concat (map rta_bytes attrs))"
  define mem where "mem = pre @ rta_bytes (t, p) @ concat (map rta_bytes attrs) @ rest"
  have oif: "t = RTA_OIF \<longrightarrow> 4 \<le> length p" using Cons.prems(2) a by auto
  have small: "4 + align4 (length p) + L < 65536" using Cons.prems(1) by (simp add: a L_def)
  then have n: "length p + 4 < 65536" using align4_simps(2) [of "length p"] by linarith
  have left: "unat (ucast (of_nat (4 + align4 (length p) + L) :: u64) :: u16) = 4 + align4 (length p) + L"
    using small by (simp only: unsigned_ucast_eq unat_of_nat) (simp add: take_bit_nat_eq_self)
  have rl: "unat (get16 mem (length pre)) = 4 + length p"
    unfolding mem_def route_attribute_rta(1) [OF oif] using n by (simp only: unat_of_nat) (simp add: take_bit_nat_eq_self)
  have IH: "route_attributes env mem (length pre + (4 + align4 (length p))) (of_nat L) c = route_says env attrs c" for c
    using Cons.IH [of "pre @ rta_bytes (t, p)" c] Cons.prems small by (simp add: mem_def L_def a)
  have step: "(of_nat (4 + align4 (length p) + L) :: u64) - of_nat (4 + align4 (length p)) = of_nat L" by simp
  have len: "\<not> length mem < length pre + 4" by (simp add: mem_def)
  have pad: "\<not> align4 (length p) + L < length p" using align4_simps(2) [of "length p"] by linarith
  have "route_attributes env mem (length pre) (of_nat (4 + align4 (length p) + L)) ctl =
      and_then (route_attribute env mem (length pre) ctl) (\<lambda>(ctl, r). if r \<noteq> 0 then ret (ctl, r) else route_says env attrs ctl)"
    using len pad by (subst route_attributes.simps) (simp only: Let_def left rl step align4_simps IH, simp)
  then show ?case
    unfolding mem_def route_attribute_rta(2) [OF oif] by (simp add: a L_def add.assoc)
qed

lemma netlink_receive_again:
  "netlink_receive buf (replicate k (Inl EINTR) @ rs) = netlink_receive buf rs"
  by (induction k) simp_all

lemma route_says_other: "\<forall>(t, p) \<in> set as. t \<noteq> RTA_OIF \<Longrightarrow> route_says env as ctl = ret (ctl, 0)"
  by (induction as) auto

lemma route_says_append:
  "\<forall>(t, p) \<in> set as. t \<noteq> RTA_OIF \<Longrightarrow> route_says env (as @ bs) ctl = route_says env bs ctl"
  by (induction as) auto

lemma route_message_length:
  "length rtm = 12 \<Longrightarrow> length (route_message flags pid rtm attrs) = 28 + length (concat (map rta_bytes attrs))"
  by (simp add: route_message_def Let_def)

lemma netlink_messages_end: "len < 16 \<Longrightarrow> netlink_messages env mem nh len seq ctl r = ret (ctl, r)"
  by (subst netlink_messages.simps) (simp add: Let_def)

lemma netlink_route_message:
  fixes rest :: "u8 list"
  assumes rtm: "length rtm = 12" and len: "length (route_message flags pid rtm attrs) < 65536"
    and oif: "\<forall>(t, p) \<in> set attrs. t = RTA_OIF \<longrightarrow> 4 \<le> length p"
  defines "mem \<equiv> route_message flags pid rtm attrs @ rest"
  shows "netlink_messages env mem 0 (int (length (route_message flags pid rtm attrs))) 1 ctl r = route_says env attrs ctl"
proof -
  define as where "as = concat (map rta_bytes attrs)"
  define h where "h = le16_bytes RTM_NEWROUTE @ le16_bytes flags @ le32_bytes 1 @ le32_bytes pid @ rtm"
  have m: "mem = le32_bytes (of_nat (28 + length as)) @ h @ as @ rest" and h: "length h = 24"
    by (simp_all add: mem_def route_message_def Let_def as_def h_def rtm)
  have n: "length (route_message flags pid rtm attrs) = 28 + length as" "28 + length as < 65536"
    using len by (simp_all add: route_message_length [OF rtm] as_def)
  have ml: "get32 mem 0 = of_nat (28 + length as)"
    using get32_le32 [of 0 "[]" "of_nat (28 + length as)" "h @ as @ rest"] by (simp add: m)
  have uml: "unat (get32 mem 0) = 28 + length as"
    unfolding ml using n(2) by (simp only: unat_of_nat) (simp add: take_bit_nat_eq_self)
  have ty: "get16 mem 4 = RTM_NEWROUTE"
    using get16_le16 [of 4 "le32_bytes (of_nat (28 + length as))" RTM_NEWROUTE
        "le16_bytes flags @ le32_bytes 1 @ le32_bytes pid @ rtm @ as @ rest"] by (simp add: m h_def)
  have seq: "get32 mem 8 = 1"
    using get32_le32 [of 8 "le32_bytes (of_nat (28 + length as)) @ le16_bytes RTM_NEWROUTE @ le16_bytes flags" 1
        "le32_bytes pid @ rtm @ as @ rest"] by (simp add: m h_def)
  have left: "(ucast (of_nat (28 + length as) :: u32) :: u64) - 28 = of_nat (length as)"
  proof -
    have "(ucast (of_nat (28 + length as) :: u32) :: u64) = of_nat (28 + length as)"
      using n(2) by (intro word_unat_eq_iff [THEN iffD2]) (simp only: unsigned_ucast_eq unat_of_nat, simp add: take_bit_nat_eq_self)
    then show ?thesis by simp
  qed
  have out: "outgoing_device env mem 0 ctl = route_says env attrs ctl"
    using route_attributes_walk [where attrs = attrs and pre = "le32_bytes (of_nat (28 + length as)) @ h" and env = env and rest = rest and ctl = ctl] n(2) oif
    unfolding outgoing_device_def ml left add_0 ty by (simp add: m h as_def)
  have done1: "netlink_messages env mem k (int (28 + length as) - int (align4 (28 + length as))) 1 c r = ret (c, r)" for k c r
    by (rule netlink_messages_end) (use align4_simps(2) [of "28 + length as"] in linarith)
  have big: "16 \<le> length mem" by (simp add: m h)
  have "netlink_messages env mem 0 (int (28 + length as)) 1 ctl r =
      and_then (route_says env attrs ctl) (\<lambda>(ctl, r). ret (ctl, r))"
    using big n(2) by (subst netlink_messages.simps)
      (simp add: Let_def uml ty seq out done1 [unfolded of_nat_add of_nat_numeral] RTM_NEWROUTE_def NLMSG_ERROR_def NLMSG_OVERRUN_def NLMSG_DONE_def case_prod_unfold cong: if_cong)
  then show ?thesis unfolding n(1) by (simp add: and_then_returned)
qed

text \<open>
  C25: when the kernel answers with a route, however often receiving it was interrupted and whatever
  other attributes the route has, \<open>arping\<close> uses the interface that the route goes out of.
\<close>

theorem route_device:
  assumes "ae_calloc env = 0" "ae_nl_socket env = 0" "ae_nl_send env = 0"
    and "ae_nl_recv env = replicate k (Inl EINTR) @ Inr (route_message flags pid rtm (before @ (RTA_OIF, le32_bytes (word_of_int idx)) # behind)) # rs"
    and "length rtm = 12" "\<forall>(t, p) \<in> set before \<union> set behind. t \<noteq> RTA_OIF"
    and "length (route_message flags pid rtm (before @ (RTA_OIF, le32_bytes (word_of_int idx)) # behind)) \<le> 4096"
    and "0 \<le> idx" "idx \<le> int_max" "ae_indextoname env idx = Inr nm"
  shows "returns (netlink_query env ctl) (ctl\<lparr>ct_ifindex := idx, ct_name := Some nm\<rparr>)"
proof -
  define attrs where "attrs = before @ (RTA_OIF, le32_bytes (word_of_int idx :: u32)) # behind"
  define msg where "msg = route_message flags pid rtm attrs"
  define rest where "rest = drop (length msg) (route_query (ct_gdst ctl))"
  have oif: "to_int32 (uint (get32 (le32_bytes (word_of_int idx)) 0)) = idx"
    using assms(8,9) get32_le32 [of 0 "[]" "word_of_int idx" "[]"]
    by (simp add: to_int32_def uint_word_of_int int_max_def sint_sbintrunc' signed_take_bit_int_eq_self)
  have says: "route_says env attrs ctl = ret (ctl\<lparr>ct_ifindex := idx, ct_name := Some nm\<rparr>, 0)"
    using assms(6) unfolding attrs_def by (subst route_says_append) (auto simp: oif assms(10) Let_def route_says_other)
  have "\<forall>(t, p) \<in> set attrs. t = RTA_OIF \<longrightarrow> 4 \<le> length p" using assms(6) by (auto simp: attrs_def)
  moreover have "length msg < 65536" using assms(7) by (simp add: msg_def attrs_def)
  ultimately have "netlink_messages env (msg @ rest) 0 (int (length msg)) 1 ctl 1 = ret (ctl\<lparr>ct_ifindex := idx, ct_name := Some nm\<rparr>, 0)"
    unfolding msg_def by (subst netlink_route_message [OF assms(5)]) (simp_all add: says)
  then show ?thesis
    by (simp add: netlink_query_def or_error_def Let_def assms(1-4) netlink_receive_again splice_def
        flip: attrs_def msg_def rest_def)
qed

subsection \<open>What the event loop starts with\<close>

definition arp_ready :: "run_state \<Rightarrow> bool" where
  "arp_ready ctl \<longleftrightarrow> arp_fresh ctl \<and> (ct_count ctl = - 1 \<or> 1 \<le> ct_count ctl) \<and> 0 \<le> ct_timeout ctl \<and> 0 \<le> ct_interval ctl \<and>
     (ct_dad ctl \<longrightarrow> ct_quit_on_reply ctl) \<and> (ct_advert ctl \<longrightarrow> ct_unsolicited ctl)"

text \<open>The steps before the loop set the device, the addresses and the hardware addresses only.\<close>

lemma arp_ready_set [simp]:
  "arp_ready (ctl\<lparr>ct_name := a\<rparr>) = arp_ready ctl" "arp_ready (ctl\<lparr>ct_ifindex := b\<rparr>) = arp_ready ctl"
  "arp_ready (ctl\<lparr>ct_ifa := c\<rparr>) = arp_ready ctl" "arp_ready (ctl\<lparr>ct_gsrc := d\<rparr>) = arp_ready ctl"
  "arp_ready (ctl\<lparr>ct_gdst := d\<rparr>) = arp_ready ctl" "arp_ready (ctl\<lparr>ct_gdst_family := b\<rparr>) = arp_ready ctl"
  "arp_ready (ctl\<lparr>ct_me := f\<rparr>) = arp_ready ctl" "arp_ready (ctl\<lparr>ct_he := f\<rparr>) = arp_ready ctl"
  "arp_ready (ctl\<lparr>ct_source := a\<rparr>) = arp_ready ctl" "arp_ready (ctl\<lparr>ct_cap_raw := g\<rparr>) = arp_ready ctl"
  by (simp_all add: arp_ready_def arp_fresh_def)

lemma yields_raw [simp]:
  "yields m P \<Longrightarrow> yields (arp_enable_raw env ctl m) P" "yields m P \<Longrightarrow> yields (arp_disable_raw env ctl m) P"
  by (simp_all add: arp_enable_raw_def arp_disable_raw_def yields_then_any)

lemma yields_tell [simp]: "yields m P \<Longrightarrow> yields (tell ctl s m) P"
  by (simp add: tell_def)

lemma arp_options_ready: "arp_ready ctl \<Longrightarrow> yields (arp_options env options ctl) arp_ready"
proof (induction env options ctl rule: arp_options.induct)
  case (2 env ch optarg rest ctl)
  have num: "yields (and_then (strtol_or_err (Some optarg) invalid_argument lo int_max) (\<lambda>n. arp_options env rest (f n))) arp_ready"
    if "\<And>n. lo \<le> n \<Longrightarrow> n \<le> int_max \<Longrightarrow> yields (arp_options env rest (f n)) arp_ready" for lo f
    using that by (intro yields_and_then [OF strtol_range]) simp
  show ?case
    unfolding arp_options.simps
    by (intro yields_if num; (rule 2)?)
      (use 2 in \<open>auto simp: arp_ready_def arp_fresh_def arp_usage_def intro!: yields_then_any\<close>)
qed simp

lemma route_attributes_ready:
  "arp_ready ctl \<Longrightarrow> yields (route_attributes env mem off len ctl) (\<lambda>(c, r). arp_ready c)"
proof (induction env mem off len ctl rule: route_attributes.induct)
  case (1 env mem off len ctl)
  have "yields (route_attribute env mem off ctl) (\<lambda>(c, r). arp_ready c)"
    using 1(2) by (simp add: route_attribute_def Let_def split: sum.split)
  then have go: "yields (and_then (route_attribute env mem off ctl) (\<lambda>(ctl, r). if r \<noteq> 0 then ret (ctl, r)
      else route_attributes env mem (off + align4 (unat (get16 mem off))) (len - of_nat (align4 (unat (get16 mem off)))) ctl)) (\<lambda>(c, r). arp_ready c)"
    if "\<not> unat (ucast len :: u16) < 4" "\<not> length mem < off + 4" "\<not> (unat (get16 mem off) < 4 \<or> unat (ucast len :: u16) < unat (get16 mem off))"
    by (rule yields_and_then) (use 1(1) [OF refl refl that] in \<open>auto simp: case_prod_unfold\<close>)
  show ?case
    using go 1(2) by (subst route_attributes.simps) (auto simp: Let_def)
qed

lemma netlink_messages_ready:
  "arp_ready ctl \<Longrightarrow> yields (netlink_messages env mem nh len seq ctl r) (\<lambda>(c, r). arp_ready c)"
proof (induction env mem nh len seq ctl r rule: netlink_messages.induct)
  case (1 env mem nh len seq ctl r)
  let ?step = "if get32 mem (nh + 8) \<noteq> seq then ret (ctl, r)
               else if get16 mem (nh + 4) = NLMSG_DONE then ret (ctl, 0) else outgoing_device env mem nh ctl"
  have "yields ?step (\<lambda>(c, r). arp_ready c)"
    using 1(2) by (simp add: outgoing_device_def route_attributes_ready)
  then have go: "yields (and_then ?step (\<lambda>(ctl, r). netlink_messages env mem (nh + align4 (unat (get32 mem nh)))
      (len - int (align4 (unat (get32 mem nh)))) seq ctl r)) (\<lambda>(c, r). arp_ready c)"
    if "\<not> len < 16" "\<not> length mem < nh + 16" "\<not> (unat (get32 mem nh) < 16 \<or> len < int (unat (get32 mem nh)))"
      "\<not> (get32 mem (nh + 8) = seq \<and> (get16 mem (nh + 4) = NLMSG_ERROR \<or> get16 mem (nh + 4) = NLMSG_OVERRUN))"
    by (rule yields_and_then) (use 1(1) [OF refl refl that] in \<open>auto simp: case_prod_unfold\<close>)
  show ?case
    using go 1(2) by (subst netlink_messages.simps) (simp add: Let_def)
qed

lemma guess_device_ready: "arp_ready ctl \<Longrightarrow> yields (guess_device env ctl) arp_ready"
proof -
  assume ok: "arp_ready ctl"
  have "yields (and_then (netlink_messages env mem 0 len 1 ctl 1) (\<lambda>(ctl, r). if r \<noteq> 0 then stop_with (Exit 1) else ret ctl)) arp_ready"
    for mem len
    by (rule yields_and_then [OF netlink_messages_ready [OF ok]]) auto
  then have "yields (netlink_query env ctl) arp_ready"
    by (auto simp: netlink_query_def Let_def or_error_def error_c_def case_prod_unfold intro!: yields_then_any [where m = "netlink_receive _ _"])
  then show ?thesis by (simp add: guess_device_def error_c_def)
qed

lemma find_device_ready: "arp_ready ctl \<Longrightarrow> yields (find_device is ctl n) (\<lambda>(c, n). arp_ready c)"
proof (induction "is" ctl n rule: find_device.induct)
  case (2 i "is" ctl n)
  show ?case
    using 2 by (auto simp: Let_def split: option.split intro!: yields_then_any)
qed simp

lemma check_device_ready: "arp_ready ctl \<Longrightarrow> yields (check_device env ctl) (\<lambda>(c, r). arp_ready c)"
proof -
  assume ok: "arp_ready ctl"
  show ?thesis
    unfolding check_device_def
    by (auto simp: ok split: sum.split option.split intro!: yields_and_then [OF find_device_ready [OF ok]])
qed

lemma arp_target_ready: "arp_ready ctl \<Longrightarrow> yields (arp_target env t ctl) arp_ready"
  by (auto simp: arp_target_def error_c_def split: option.split sum.split)

lemma arp_device_ready: "arp_ready ctl \<Longrightarrow> yields (arp_device env ctl) arp_ready"
proof -
  assume ok: "arp_ready ctl"
  have "yields (if ct_name ctl = None then guess_device env ctl else ret ctl) arp_ready"
    by (simp add: ok guess_device_ready)
  then show ?thesis
    unfolding arp_device_def
  proof (rule yields_and_then)
    fix c assume "arp_ready c"
    then show "yields (and_then (check_device env c) (\<lambda>(ctl, r).
       if r < 0 then stop_with (Exit 2)
       else if ct_ifindex ctl = 0
       then case ct_name ctl of
              Some d \<Rightarrow> error_c 2 0 (''Device '' @ d @ '' not available.'') (ret ctl)
            | None \<Rightarrow> error_c 0 0 ''Suitable device could not be determined. Please, use option -I.'' (ret ctl)
       else ret ctl)) arp_ready"
      by (intro yields_and_then [OF check_device_ready]) (auto simp: error_c_def split: option.split)
  qed
qed

lemma arp_source_ready: "arp_ready ctl \<Longrightarrow> yields (arp_source env ctl) arp_ready"
proof -
  have probe: "yields (arp_probe_source env c) arp_ready" if "arp_ready c" for c
    using that by (auto simp: arp_probe_source_def or_error_def error_c_def split: sum.split intro!: yields_then_any)
  assume "arp_ready ctl"
  then have "yields (arp_given_source env ctl) arp_ready"
    by (auto simp: arp_given_source_def error_c_def split: option.split)
  then show ?thesis
    unfolding arp_source_def by (rule yields_and_then) (auto simp: Let_def probe)
qed

text \<open>
  Binding gives the address of the device; what is broadcast to has the same length.
\<close>

definition arp_linked :: "run_state \<Rightarrow> bool" where
  "arp_linked ctl \<longleftrightarrow> sll_halen (ct_me ctl) \<noteq> 0 \<and> sll_halen (ct_he ctl) = sll_halen (ct_me ctl)"

lemma arp_bind_ready: "arp_ready ctl \<Longrightarrow> yields (arp_bind env ctl) (\<lambda>c. arp_ready c \<and> arp_linked c)"
  by (auto simp: arp_bind_def find_broadcast_address_def Let_def error_c_def arp_linked_def or_error_def need_def
      split: sum.split option.split)

text \<open>All capabilities are given up at the end.\<close>

definition dropped :: "'a result \<Rightarrow> bool" where
  "dropped m \<longleftrightarrow> (\<exists>a. snd m = Inr a) \<longrightarrow> caps_after (fst m) = (\<lambda>s. ({}, {}))"

lemma dropped_simps [simp]:
  "dropped (stop_with x)" "dropped m \<Longrightarrow> dropped (emit es m)" "dropped m \<Longrightarrow> dropped (or_error st e msg m)"
  "st \<noteq> 0 \<Longrightarrow> dropped (error_c st e msg n)" "dropped m \<Longrightarrow> dropped (tell ctl t m)"
  by (auto simp: dropped_def or_error_def error_c_def tell_def fun_eq_iff simp del: split_paired_All)

lemma dropped_and_then: "(\<And>a. dropped (f a)) \<Longrightarrow> dropped (and_then m f)"
  by (auto simp: dropped_def and_then_def fun_eq_iff split: sum.splits simp del: split_paired_All)

lemma dropped_raw [simp]:
  "dropped m \<Longrightarrow> dropped (arp_enable_raw env ctl m)" "dropped m \<Longrightarrow> dropped (arp_disable_raw env ctl m)"
  by (simp_all add: arp_enable_raw_def arp_disable_raw_def dropped_and_then)

lemma dropped_drop [simp]: "dropped (arp_drop_capabilities env (ret a))"
  by (auto simp: dropped_def arp_drop_capabilities_def or_error_def error_c_def)

lemma arp_setup_dropped: "dropped (arp_setup env options args)"
  by (auto simp: arp_setup_def arp_prepare_def arp_announce_def arp_usage_def split: list.split
      intro!: dropped_and_then dropped_raw dropped_simps)

definition arp_armed :: "run_state \<Rightarrow> bool" where
  "arp_armed c \<longleftrightarrow> arp_ready c \<and> arp_linked c \<and> (ct_dad c \<or> ct_source c \<noteq> None \<or> ct_gsrc c \<noteq> zeros 4)"

lemma arp_prepare_ready:
  assumes "arp_ready ctl" shows "yields (arp_prepare env target ctl) arp_armed"
proof -
  have "arp_ready (if ct_name ctl = Some [] then ctl\<lparr>ct_name := None\<rparr> else ctl)" using assms by simp
  moreover have "yields (arp_announce env c) arp_armed"
    if "arp_ready c \<and> arp_linked c" for c
    using that by (auto simp: arp_armed_def arp_announce_def arp_drop_capabilities_def error_c_def intro!: yields_tell)
  ultimately show ?thesis
    unfolding arp_prepare_def
    by (intro yields_raw yields_or_error yields_and_then [OF arp_target_ready] yields_and_then [OF arp_device_ready]
        yields_and_then [OF arp_source_ready] yields_and_then [OF arp_bind_ready])
qed

lemma arp_setup_ready:
  "yields (arp_setup env options args) arp_armed"
proof -
  have "arp_ready (first_run_state\<lparr>ct_cap_raw := raw\<rparr>)" for raw
    unfolding arp_ready_set by (simp add: first_run_state_def Let_def arp_ready_def arp_fresh_def int_max_def)
  then show ?thesis
    unfolding arp_setup_def
    by (intro yields_then_any [where m = "arp_limit_capabilities _"] yields_and_then [OF arp_options_ready])
      (simp_all add: arp_prepare_ready arp_usage_def split: list.split)
qed


text \<open>
  A host with one Ethernet device, whose route to the destination goes out of it and where the
  destination answers.
\<close>

definition sample_route :: "u8 list" where
  "sample_route = route_message 0 0 (zeros 12) ([] @ (RTA_OIF, le32_bytes (word_of_int 2)) # [(1, [192, 0, 2, 9])])"

definition sample_arp_env :: "nat arp_env" where
  "sample_arp_env = \<lparr>
     ae_caps = \<lparr>ce_permitted = (\<lambda>c. True), ce_get = 0, ce_init = 0, ce_set = 0, ce_keepcaps = 0, ce_setuid = 0, ce_unkeep = 0, ce_uid = 1000\<rparr>,
     ae_version = [], ae_config = \<lparr>have_libcap = True, use_idn = True, enable_nls = True, have_error_h = True, have_getrandom = True, have_fpending = True\<rparr>,
     ae_socket = 0, ae_aton = (\<lambda>t. Some [192, 0, 2, 9]), ae_getaddrinfo = (\<lambda>t. Inl []), ae_calloc = 0, ae_nl_socket = 0, ae_nl_send = 0,
     ae_nl_recv = replicate 1 (Inl EINTR) @ Inr sample_route # [], ae_indextoname = (\<lambda>i. Inr ''eth0''), ae_nametoindex = (\<lambda>d. Inr 2),
     ae_ifaddrs = Inr [\<lparr>ifa_name = ''eth0'', ifa_flags = 1, ifa_addr = Some sample_ll, ifa_broadaddr = Some (sample_ll\<lparr>sll_addr := replicate 116 255\<rparr>)\<rparr>],
     ae_probe_socket = 0, ae_bindtodevice = 0, ae_probe_bind = 0, ae_dontroute = 0, ae_connect = 0, ae_getsockname = Inr [192, 0, 2, 1],
     ae_bind = 0, ae_bound = Inr sample_ll, ae_errno = 0, ae_descr = (\<lambda>_. 0), ae_os = sample_arp_os\<rparr>"

theorem route_device_witness:
  "returns (netlink_query sample_arp_env first_run_state) (first_run_state\<lparr>ct_ifindex := 2, ct_name := Some ''eth0''\<rparr>)"
proof (rule route_device)
  show "ae_nl_recv sample_arp_env = replicate 1 (Inl EINTR) @ Inr (route_message 0 0 (zeros 12) ([] @ (RTA_OIF, le32_bytes (word_of_int 2)) # [(1, [192, 0, 2, 9])])) # []"
    by (simp add: sample_arp_env_def sample_route_def)
  show "length (route_message 0 0 (zeros 12) ([] @ (RTA_OIF, le32_bytes (word_of_int 2)) # [(1, [192, 0, 2, 9])])) \<le> 4096"
    by code_simp
qed (simp_all add: sample_arp_env_def RTA_OIF_def int_max_def)

lemma sample_arp_main:
  "\<exists>c. returns (arp_main sample_arp_env 2 0 [(CHR ''q'', []), (CHR ''I'', ''eth0''), (CHR ''c'', ''1''), (CHR ''w'', ''5'')] [''192.0.2.9'']) (c, 0) \<and> ct_count c = 1"
proof -
  define r where "r = arp_main sample_arp_env 2 0 [(CHR ''q'', []), (CHR ''I'', ''eth0''), (CHR ''c'', ''1''), (CHR ''w'', ''5'')] [''192.0.2.9'']"
  have "case snd r of Inr (c, code) \<Rightarrow> code = 0 \<and> ct_count c = 1 | Inl e \<Rightarrow> False"
    unfolding r_def by code_simp
  then show ?thesis by (auto simp: returns_def r_def split: sum.splits)
qed


end
