(* ===== verification/Spec2Isabelle.thy ===== *)
theory Spec2Isabelle
  imports Prelude Checksum Ping_State Seq_Window C_Double Ping_Json Ping_Output Ping_Stats Coping_Ai Capabilities Ping_Loop Ping_Schedule Ping4 Ping_Run Md5 Node_Info Ping6 Ping_Ends Clockdiff Tracepath Ping_Options Ping_Setup Ping_Main Arping Arping_Main
begin

text \<open>
  \<^bold>\<open>The program.\<close>  The repository holds \<open>coping\<close>, a fork of the \<open>ping\<close> of iputils that sends the
  statistics of a run to a language model, and the other programs of iputils: \<open>arping\<close>, \<open>clockdiff\<close>
  and \<open>tracepath\<close>.  This library models all four, function by function, as executable definitions,
  and proves what makes them correct.  The target is the one the README names, Linux on x86-64 with
  the default build (\<open>libcap\<close>, \<open>error.h\<close>, \<open>getrandom\<close>): \<open>int\<close> has 32 bits, \<open>long\<close> 64, the host is
  little-endian, messages are those of the C locale.

  \<^bold>\<open>How code becomes definitions.\<close>  Integers whose wrap-around matters are words; an \<open>int\<close> or \<open>long\<close>
  that stays in range, or is cut where the code cuts it (\<open>to_int32\<close>, \<open>to_u16\<close>), is an \<open>int\<close>; a
  \<open>double\<close> is a rational rounded to 53 bits after each operation (\<open>C_Double\<close>).  Memory is a list of
  bytes and a read or write outside it is the end \<open>Undefined\<close>.  A function gives a \<open>result\<close>: the
  effects so far (text printed, messages of \<open>error\<close>, system calls) and either a value or the way the
  process ended: \<open>exit\<close> with a code, \<open>abort\<close>, undefined behaviour, or out of fuel.  A call of the
  system or of a library is a parameter: a field of an environment record, or a function from a
  state \<open>'w\<close> of the world to an answer and the next state.  So every branch on an error number is a
  branch of the model, and theorems hold for every behaviour of the network.

  \<^bold>\<open>Shared parts.\<close>  \<open>Prelude\<close>: integers, bytes, C's number formats, bounded writes.  \<open>Ping_State\<close>:
  \<open>struct ping_rts\<close> of \<open>ping/ping.h\<close>, the results and the calculus of what they yield, return and end
  with.  \<open>Iputils\<close>: \<open>iputils_common.c\<close> (numbers on the command line, closing the streams, seeding).
  \<open>Md5\<close>: \<open>md5.c\<close>.  \<open>Capabilities\<close>: the privileges of \<open>ping\<close> (\<open>ping_common.c\<close>).

  \<^bold>\<open>ping, from the inside out.\<close>
  \<^item> \<open>Checksum\<close>: \<open>in_cksum\<close> (\<open>ping.c\<close>), against the ones' complement sum; the locale of an Internet
    checksum, also met by the routine of \<open>clockdiff\<close>.
  \<^item> \<open>Seq_Window\<close>: the bitmap of received numbers and the window of unanswered probes (\<open>ping.h\<close>),
    against a set of numbers and an unbounded counter.
  \<^item> \<open>Ping_Json\<close>, \<open>Ping_Output\<close>: \<open>ping_json.c\<close> and \<open>ping_output.c\<close>, text or JSON, statistics, errors.
  \<^item> \<open>Ping_Stats\<close>: \<open>gather_statistics\<close> (\<open>ping_common.c\<close>): counters, times, the line of a reply.
  \<^item> \<open>Ping_Loop\<close>, \<open>Ping_Schedule\<close>: \<open>pinger\<close>, \<open>setup\<close>, \<open>main_loop\<close>, \<open>finish\<close> (\<open>ping_common.c\<close>) over the
    function table \<open>ping_func_set_st\<close>, whose laws are the locale \<open>probe_engine\<close>.
  \<^item> \<open>Ping4\<close> and \<open>Ping6\<close>: the two function tables (\<open>ping.c\<close>, \<open>ping6_common.c\<close>): probes, replies, errors,
    filters, IP options; each interprets \<open>probe_engine\<close>.  \<open>Node_Info\<close>: the queries of \<open>-N\<close>
    (\<open>node_info.c\<close>) with their nonces.
  \<^item> \<open>Ping_Run\<close>, \<open>Ping_Ends\<close>: the parts together: probe, reply, filter, rate, end of the run; loops that
    end; node information queries.
  \<^item> \<open>Ping_Options\<close>, \<open>Ping_Setup\<close>, \<open>Ping_Main\<close>: the option switch, \<open>ping4_run\<close> and \<open>ping6_run\<close> up to
    the loop, and \<open>main\<close>.
  \<^item> \<open>Coping_Ai\<close>: \<open>coping_ai.c\<close> and the mechanisms of \<open>mechanism_src\<close>: arguments, JSON, the box, the
    search for mechanisms, the context.

  \<^bold>\<open>The other programs.\<close>  \<open>Clockdiff\<close>: \<open>clockdiff.c\<close>.  \<open>Tracepath\<close>: \<open>tracepath.c\<close>.  \<open>Arping\<close> and
  \<open>Arping_Main\<close>: \<open>arping.c\<close>, the packets and the event loop, and everything before it.

  \<^bold>\<open>What is shown.\<close>  Of \<open>ping\<close>: every probe is a well-formed echo request with a good checksum and the
  next number; a reply to it is recognised, counted once, and its time put in order with the others;
  the kernel's filter drops exactly what the parser refuses; probes keep the rate of the token bucket
  whatever happens between the calls; the settings of every accepted command line have the ranges the
  loop relies on, and the code at the end means what the manual says.  Of \<open>clockdiff\<close>: a measurement
  is exact to half the longest round trip plus the processing time; a silent host is given up after a
  fixed number of probes.  Of \<open>tracepath\<close>: the history stays inside its array, answers are matched to
  their probes, and an unanswered trace ends, except for the limit of 255.  Of \<open>arping\<close>: which
  packets count, how many probes are sent, that the loop ends and what its code means, and that
  nothing is awaited with privileges.  Of the routines: checksums, MD5 against RFC 1321, the window,
  the JSON lines and their reading back, the square root, the nonces, the box, numbers.

  \<^bold>\<open>Loops and fuel.\<close>  Loops over data are structural or have a measure.  Loops that wait for the world
  get a number of rounds: \<open>pinger_send\<close> (enough: the errors in the queue and two), \<open>send_phase\<close>,
  \<open>recv_phase\<close> and \<open>main_loop\<close> (as long as the run: what is stated holds of runs that end),
  \<open>reply_names\<close> (enough: the bytes of the answer), \<open>arp_loop\<close> (enough: for each probe of the count the
  calls of \<open>poll\<close> before its timer, and one), or consume a list of events: \<open>measure_loop\<close>,
  \<open>wait_replies\<close>, \<open>recverr_from\<close>, \<open>send_attempts\<close>, \<open>netlink_receive\<close>.

  \<^bold>\<open>Where the code fails.\<close>  Some properties state failures: errors in JSON mode read past their
  arguments or print broken objects; \<open>json_escape\<close> and the search for mechanisms leave their arrays;
  a second address of a source-routed target overflows the route; a trace with limit 255 wraps its
  \<open>ttl\<close>; \<open>arping\<close> shows times half a millisecond too long.  The manifest lists these and others.

  \<^bold>\<open>Not modelled.\<close>  The variants without \<open>libcap\<close> or \<open>error.h\<close>; the text of the kernel's and the C
  library's own structures; gettext; the resolver, \<open>libcurl\<close>, \<open>dlopen\<close> and the kernel, which are
  parameters; signals that arrive inside a function (they are delivered between system calls); the
  Python mechanisms, build files, manual pages and tests.
\<close>

end
